(* ===== verification/Prelude.thy ===== *)
theory Prelude
  imports Main
begin

text \<open>
  Shared infrastructure of the development.

  A stream converter of the gateway is a Go function that takes one upstream event and a
  pointer to its state, mutates the state and returns a slice of client events.  It is
  modelled as a function \<open>'i \<Rightarrow> 's \<Rightarrow> 'o list \<times> 's\<close>.  This theory holds

  \<^item> \<open>run_conv\<close>: the caller's read loop, which feeds every upstream event to the
    converter and concatenates what it emits;
  \<^item> \<open>run_acc\<close>: running a protocol acceptor (a partial transition function) over a
    list of events, the form in which the protocol specifications are written;
  \<^item> the locales \<open>translator\<close>, \<open>closing_translator\<close> and \<open>output_measure\<close>: the
    contracts a converter has to meet, with the lemmas about whole streams proved once.
\<close>

named_theorems step_defs \<open>definitions of converter steps, unfolded together\<close>
named_theorems zero_sel \<open>selectors applied to the zero value of a struct\<close>

section \<open>Running acceptors and converters\<close>

fun run_acc :: "('a \<Rightarrow> 'o \<Rightarrow> 'a option) \<Rightarrow> 'a \<Rightarrow> 'o list \<Rightarrow> 'a option" where
  "run_acc f a [] = Some a"
| "run_acc f a (x # xs) = (case f a x of None \<Rightarrow> None | Some b \<Rightarrow> run_acc f b xs)"

lemma run_acc_append:
  "run_acc f a (xs @ ys) = (case run_acc f a xs of None \<Rightarrow> None | Some b \<Rightarrow> run_acc f b ys)"
  by (induction xs arbitrary: a) (auto split: option.splits)

lemma run_acc_append_Some [intro]:
  "run_acc f a xs = Some b \<Longrightarrow> run_acc f b ys = Some c \<Longrightarrow> run_acc f a (xs @ ys) = Some c"
  by (simp add: run_acc_append)

lemma run_acc_any [simp]: "run_acc (\<lambda>_ _. Some ()) () xs = Some ()"
  by (induction xs) auto

text \<open>Two acceptors at once.\<close>

definition acc_both :: "('a \<Rightarrow> 'o \<Rightarrow> 'a option) \<Rightarrow> ('b \<Rightarrow> 'o \<Rightarrow> 'b option) \<Rightarrow> 'a \<times> 'b \<Rightarrow> 'o \<Rightarrow> ('a \<times> 'b) option" where
  "acc_both f g p x = (case f (fst p) x of None \<Rightarrow> None
     | Some a \<Rightarrow> (case g (snd p) x of None \<Rightarrow> None | Some b \<Rightarrow> Some (a, b)))"

lemma run_acc_both:
  "run_acc (acc_both f g) (a, b) xs = Some (a', b') \<longleftrightarrow> run_acc f a xs = Some a' \<and> run_acc g b xs = Some b'"
  by (induction xs arbitrary: a b) (auto simp: acc_both_def split: option.splits)

fun run_conv :: "('i \<Rightarrow> 's \<Rightarrow> 'o list \<times> 's) \<Rightarrow> 'i list \<Rightarrow> 's \<Rightarrow> 'o list \<times> 's" where
  "run_conv f [] s = ([], s)"
| "run_conv f (x # xs) s =
     (let (e1, s1) = f x s; (e2, s2) = run_conv f xs s1 in (e1 @ e2, s2))"

lemma run_conv_append:
  "run_conv f (xs @ ys) s =
     (let (e1, s1) = run_conv f xs s; (e2, s2) = run_conv f ys s1 in (e1 @ e2, s2))"
  by (induction xs arbitrary: s) (auto simp: Let_def split: prod.splits)

text \<open>A stream the acceptor takes, and ends in a state with property \<open>P\<close>.\<close>

definition accepts :: "('b \<Rightarrow> bool) \<Rightarrow> ('b \<Rightarrow> 'o \<Rightarrow> 'b option) \<Rightarrow> 'b \<Rightarrow> 'o list \<Rightarrow> bool" where
  "accepts P f a xs = (case run_acc f a xs of None \<Rightarrow> False | Some b \<Rightarrow> P b)"

lemma accepts_iff: "accepts P f a xs \<longleftrightarrow> (\<exists>b. run_acc f a xs = Some b \<and> P b)"
  by (auto simp: accepts_def split: option.splits)

lemma accepts_mono: "accepts P f a xs \<Longrightarrow> (\<And>b. P b \<Longrightarrow> Q b) \<Longrightarrow> accepts Q f a xs"
  by (auto simp: accepts_iff)

text \<open>Everything the client receives: the events of the stream, then those of the finaliser.\<close>

definition client_stream :: "('i \<Rightarrow> 's \<Rightarrow> 'o list \<times> 's) \<Rightarrow> ('s \<Rightarrow> 'o list \<times> 's) \<Rightarrow> 'i list \<Rightarrow> 's \<Rightarrow> 'o list" where
  "client_stream step finish xs s = (case run_conv step xs s of (es, s') \<Rightarrow> es @ fst (finish s'))"

section \<open>Contracts of stream converters\<close>

text \<open>
  \<open>translator\<close>: an upstream stream accepted by \<open>accept_in\<close> is turned into a client
  stream accepted by \<open>accept_out\<close>.  \<open>rel\<close> relates the acceptor's view of the upstream
  stream to the converter's state; \<open>view\<close> reads the client protocol's state off the two.
\<close>

locale translator =
  fixes step :: "'i \<Rightarrow> 's \<Rightarrow> 'o list \<times> 's"
    and accept_in :: "'a \<Rightarrow> 'i \<Rightarrow> 'a option"
    and accept_out :: "'b \<Rightarrow> 'o \<Rightarrow> 'b option"
    and rel :: "'a \<Rightarrow> 's \<Rightarrow> bool"
    and view :: "'a \<Rightarrow> 's \<Rightarrow> 'b"
  assumes step_accepted:
      "rel a s \<Longrightarrow> accept_in a i = Some a' \<Longrightarrow> step i s = (es, s') \<Longrightarrow>
       run_acc accept_out (view a s) es = Some (view a' s')"
    and step_rel:
      "rel a s \<Longrightarrow> accept_in a i = Some a' \<Longrightarrow> step i s = (es, s') \<Longrightarrow> rel a' s'"
begin

lemma stream_accepted:
  assumes "rel a s" and "run_acc accept_in a xs = Some a'" and "run_conv step xs s = (es, s')"
  shows "run_acc accept_out (view a s) es = Some (view a' s') \<and> rel a' s'"
  using assms
proof (induction xs arbitrary: a s es)
  case Nil
  then show ?case by simp
next
  case (Cons x xs)
  obtain e1 s1 where 1: "step x s = (e1, s1)" by fastforce
  obtain e2 s2 where 2: "run_conv step xs s1 = (e2, s2)" by fastforce
  from Cons.prems(2) obtain b where b: "accept_in a x = Some b" "run_acc accept_in b xs = Some a'"
    by (auto split: option.splits)
  from Cons.prems(3) 1 2 have es: "es = e1 @ e2" "s2 = s'" by auto
  from step_rel [OF Cons.prems(1) b(1) 1] have "rel b s1" .
  from Cons.IH [OF this b(2)] 2 es(2)
  have IH: "run_acc accept_out (view b s1) e2 = Some (view a' s') \<and> rel a' s'" by simp
  from step_accepted [OF Cons.prems(1) b(1) 1] IH es(1) show ?case by auto
qed

end

text \<open>
  \<open>closing_translator\<close>: the converter also has a finaliser, called when the upstream
  connection ends, after which the client stream is complete if it was \<open>closable\<close>.
\<close>

locale closing_translator = translator +
  fixes finish :: "'s \<Rightarrow> 'o list \<times> 's"
    and closable :: "'a \<Rightarrow> 's \<Rightarrow> bool"
    and complete :: "'b \<Rightarrow> bool"
  assumes finish_accepted:
      "rel a s \<Longrightarrow> closable a s \<Longrightarrow> finish s = (es, s') \<Longrightarrow>
       \<exists>b. run_acc accept_out (view a s) es = Some b \<and> complete b"
begin

lemma closed_stream_complete:
  assumes "rel a s" and "run_acc accept_in a xs = Some a'"
    and "run_conv step xs s = (es, s')" and "closable a' s'" and "finish s' = (fs, s'')"
  shows "\<exists>b. run_acc accept_out (view a s) (es @ fs) = Some b \<and> complete b"
proof -
  from stream_accepted [OF assms(1-3)]
  have "run_acc accept_out (view a s) es = Some (view a' s')" and "rel a' s'" by auto
  with finish_accepted [OF _ assms(4,5)] show ?thesis by auto
qed

lemma client_stream_complete:
  assumes "rel a s" and "run_acc accept_in a xs = Some a'" and "closable a' (snd (run_conv step xs s))"
  shows "accepts complete accept_out (view a s) (client_stream step finish xs s)"
proof -
  obtain es s' where 1: "run_conv step xs s = (es, s')" by fastforce
  obtain fs s'' where 2: "finish s' = (fs, s'')" by fastforce
  from closed_stream_complete [OF assms(1,2) 1 _ 2] assms(3) show ?thesis
    by (simp add: accepts_iff client_stream_def 1 2)
qed

lemma client_stream_accepted:
  assumes "rel a s" and "accepts (\<lambda>a'. closable a' (snd (run_conv step xs s))) accept_in a xs"
  shows "accepts complete accept_out (view a s) (client_stream step finish xs s)"
  using assms client_stream_complete by (auto simp: accepts_iff)

end

text \<open>
  \<open>output_measure\<close>: what the events of a stream carry (text, sequence numbers, usage)
  is exactly what the converter's state says it has delivered.
\<close>

locale output_measure =
  fixes step :: "'i \<Rightarrow> 's \<Rightarrow> 'o list \<times> 's"
    and good :: "'s \<Rightarrow> bool"
    and carried :: "'o list \<Rightarrow> 'm list"
    and delivered :: "'s \<Rightarrow> 'm list"
  assumes carried_append: "carried (xs @ ys) = carried xs @ carried ys"
    and step_good: "good s \<Longrightarrow> step i s = (es, s') \<Longrightarrow> good s'"
    and step_delivered: "good s \<Longrightarrow> step i s = (es, s') \<Longrightarrow> delivered s' = delivered s @ carried es"
begin

lemma carried_Nil: "carried [] = []"
  using carried_append [of "[]" "[]"] by simp

lemma stream_delivered:
  "good s \<Longrightarrow> run_conv step xs s = (es, s') \<Longrightarrow>
   good s' \<and> delivered s' = delivered s @ carried es"
proof (induction xs arbitrary: s es)
  case Nil
  then show ?case by (simp add: carried_Nil)
next
  case (Cons x xs)
  obtain e1 s1 where 1: "step x s = (e1, s1)" by fastforce
  obtain e2 s2 where 2: "run_conv step xs s1 = (e2, s2)" by fastforce
  from Cons.prems 1 2 have es: "es = e1 @ e2" "s2 = s'" by auto
  from Cons.prems(1) 1 have "good s1" by (rule step_good)
  from Cons.IH [OF this] 2 es(2) have "good s' \<and> delivered s' = delivered s1 @ carried e2" by simp
  with step_delivered [OF Cons.prems(1) 1] es(1) show ?case by (simp add: carried_append)
qed

end

section \<open>Small facts about maps and lists\<close>

definition get_or :: "('k \<rightharpoonup> 'v) \<Rightarrow> 'v \<Rightarrow> 'k \<Rightarrow> 'v" where
  \<comment> \<open>Go's \<open>m[k]\<close>: the zero value when the key is absent\<close>
  "get_or m z k = (case m k of None \<Rightarrow> z | Some v \<Rightarrow> v)"

lemma get_or_upd [simp]: "get_or (m(k \<mapsto> v)) z j = (if j = k then v else get_or m z j)"
  by (simp add: get_or_def)

lemma get_or_empty [simp]: "get_or Map.empty z j = z"
  by (simp add: get_or_def)

lemma filter_concat_map: "filter P (concat xss) = concat (map (filter P) xss)"
  by (induction xss) auto

end
