(* ===== verification/GoStrings.thy ===== *)
theory GoStrings
  imports Prelude
begin

text \<open>
  What the modelled code uses of Go's language and of the packages \<open>strings\<close>,
  \<open>unicode/utf8\<close> and \<open>encoding/hex\<close>.  A Go string is a sequence of bytes; a HOL
  \<open>char\<close> is a byte, so a HOL \<open>string\<close> is a Go string.  Go's \<open>int\<close> has 64 bits:
  where the code adds or subtracts token counts the wrap-around is written out
  (\<open>iadd\<close>, \<open>isub\<close>).
\<close>

section \<open>64-bit signed integers\<close>

definition wrap64 :: "int \<Rightarrow> int" where
  "wrap64 x = (x + 2 ^ 63) mod 2 ^ 64 - 2 ^ 63"

definition in64 :: "int \<Rightarrow> bool" where
  "in64 x \<longleftrightarrow> - (2 ^ 63) \<le> x \<and> x < 2 ^ 63"

definition iadd :: "int \<Rightarrow> int \<Rightarrow> int" where
  "iadd a b = wrap64 (a + b)"

definition isub :: "int \<Rightarrow> int \<Rightarrow> int" where
  "isub a b = wrap64 (a - b)"

lemma wrap64_id: "in64 x \<Longrightarrow> wrap64 x = x"
  by (simp add: wrap64_def in64_def)

lemma wrap64_in64: "in64 (wrap64 x)"
proof -
  have "0 \<le> (x + 2 ^ 63) mod 2 ^ 64" and "(x + 2 ^ 63) mod 2 ^ 64 < 2 ^ 64"
    by (rule pos_mod_sign, simp) (rule pos_mod_bound, simp)
  then show ?thesis by (simp add: wrap64_def in64_def)
qed

lemma iadd_exact: "in64 (a + b) \<Longrightarrow> iadd a b = a + b"
  by (simp add: iadd_def wrap64_id)

lemma isub_exact: "in64 (a - b) \<Longrightarrow> isub a b = a - b"
  by (simp add: isub_def wrap64_id)

section \<open>Package strings\<close>

definition byte :: "char \<Rightarrow> nat" where
  "byte c = of_char c"

definition mkbyte :: "nat \<Rightarrow> char" where
  "mkbyte n = char_of n"

fun HasPrefix :: "string \<Rightarrow> string \<Rightarrow> bool" where
  "HasPrefix s [] = True"
| "HasPrefix [] (p # ps) = False"
| "HasPrefix (c # cs) (p # ps) = (c = p \<and> HasPrefix cs ps)"

lemma HasPrefix_iff: "HasPrefix s p \<longleftrightarrow> (\<exists>t. s = p @ t)"
  by (induction s p rule: HasPrefix.induct) auto

lemma HasPrefix_drop: "HasPrefix s p \<Longrightarrow> p @ drop (length p) s = s"
  by (auto simp: HasPrefix_iff)

definition HasSuffix :: "string \<Rightarrow> string \<Rightarrow> bool" where
  "HasSuffix s p = HasPrefix (rev s) (rev p)"

definition TrimPrefix :: "string \<Rightarrow> string \<Rightarrow> string" where
  "TrimPrefix s p = (if HasPrefix s p then drop (length p) s else s)"

definition TrimSuffix :: "string \<Rightarrow> string \<Rightarrow> string" where
  "TrimSuffix s p = (if HasSuffix s p then take (length s - length p) s else s)"

definition CutPrefix :: "string \<Rightarrow> string \<Rightarrow> string \<times> bool" where
  "CutPrefix s p = (if HasPrefix s p then (drop (length p) s, True) else (s, False))"

fun IndexByte :: "string \<Rightarrow> char \<Rightarrow> nat option" where
  "IndexByte [] b = None"
| "IndexByte (c # cs) b = (if c = b then Some 0 else map_option Suc (IndexByte cs b))"

fun Join :: "string list \<Rightarrow> string \<Rightarrow> string" where
  "Join [] sep = []"
| "Join [x] sep = x"
| "Join (x # xs) sep = x @ sep @ Join xs sep"

text \<open>The UTF-8 encodings of the code points for which \<open>unicode.IsSpace\<close> holds.\<close>

definition space_encodings :: "string list" where
  "space_encodings =
     [[CHR 0x09], [CHR 0x0A], [CHR 0x0B], [CHR 0x0C], [CHR 0x0D], [CHR '' ''], [CHR 0xC2, CHR 0x85], [CHR 0xC2, CHR 0xA0],
      [CHR 0xE1, CHR 0x9A, CHR 0x80]]
     @ map (\<lambda>c. [CHR 0xE2, CHR 0x80, c])
         [CHR 0x80, CHR 0x81, CHR 0x82, CHR 0x83, CHR 0x84, CHR 0x85, CHR 0x86, CHR 0x87, CHR 0x88, CHR 0x89, CHR 0x8A,
          CHR 0xA8, CHR 0xA9, CHR 0xAF]
     @ [[CHR 0xE2, CHR 0x81, CHR 0x9F], [CHR 0xE3, CHR 0x80, CHR 0x80]]"

definition match_len :: "string list \<Rightarrow> string \<Rightarrow> nat" where
  "match_len ps s = (case find (HasPrefix s) ps of None \<Rightarrow> 0 | Some p \<Rightarrow> length p)"

fun trim_front :: "string list \<Rightarrow> string \<Rightarrow> string" where
  "trim_front ps [] = []"
| "trim_front ps (c # cs) =
     (let n = match_len ps (c # cs) in
      if n = 0 then c # cs else trim_front ps (drop (n - 1) cs))"

definition TrimSpace :: "string \<Rightarrow> string" where
  "TrimSpace s = rev (trim_front (map rev space_encodings) (rev (trim_front space_encodings s)))"

lemma TrimSpace_Nil [simp]: "TrimSpace [] = []"
  by (simp add: TrimSpace_def)

text \<open>
  \<open>strings.ToLower\<close>: ASCII letters, and the two non-ASCII code points whose lower case
  is ASCII (U+0130 to \<open>i\<close>, U+212A to \<open>k\<close>).  Every other non-ASCII code point maps to
  a non-ASCII one and is left alone here; the code compares the result with ASCII
  identifiers only, where the two agree.
\<close>

fun ToLower :: "string \<Rightarrow> string" where
  "ToLower [] = []"
| "ToLower (c # cs) =
     (if 65 \<le> byte c \<and> byte c \<le> 90 then mkbyte (byte c + 32) # ToLower cs
      else if byte c = 196 \<and> (case cs of [] \<Rightarrow> False | d # _ \<Rightarrow> byte d = 176)
      then CHR ''i'' # ToLower (drop 1 cs)
      else if byte c = 226 \<and> (case cs of d # e # _ \<Rightarrow> byte d = 132 \<and> byte e = 170 | _ \<Rightarrow> False)
      then CHR ''k'' # ToLower (drop 2 cs)
      else c # ToLower cs)"

definition is_digit :: "char \<Rightarrow> bool" where
  "is_digit c \<longleftrightarrow> 48 \<le> byte c \<and> byte c \<le> 57"

section \<open>Package unicode/utf8\<close>

definition is_cont :: "char \<Rightarrow> bool" where
  "is_cont c \<longleftrightarrow> 128 \<le> byte c \<and> byte c \<le> 191"

definition between :: "nat \<Rightarrow> nat \<Rightarrow> char \<Rightarrow> bool" where
  "between lo hi c \<longleftrightarrow> lo \<le> byte c \<and> byte c \<le> hi"

text \<open>The number of bytes of the code point a string starts with; 0 when its first byte
  starts no valid encoding (\<open>utf8.DecodeRune\<close> then yields U+FFFD of width 1).\<close>

definition rune_len :: "string \<Rightarrow> nat" where
  "rune_len s = (case s of [] \<Rightarrow> 0 | c # cs \<Rightarrow>
     (if byte c < 128 then 1
      else case cs of [] \<Rightarrow> 0 | d # ds \<Rightarrow>
        (if between 194 223 c \<and> is_cont d then 2
         else case ds of [] \<Rightarrow> 0 | e # es \<Rightarrow>
           (if is_cont e \<and> ((byte c = 224 \<and> between 160 191 d) \<or> (byte c = 237 \<and> between 128 159 d)
                \<or> ((between 225 236 c \<or> between 238 239 c) \<and> is_cont d)) then 3
            else case es of [] \<Rightarrow> 0 | f # _ \<Rightarrow>
              (if is_cont e \<and> is_cont f \<and> ((byte c = 240 \<and> between 144 191 d)
                   \<or> (byte c = 244 \<and> between 128 143 d) \<or> (between 241 243 c \<and> is_cont d)) then 4
               else 0)))))"

definition replacement_char :: string where
  "replacement_char = map mkbyte [239, 191, 189]"

text \<open>\<open>range\<close> over a string: the encodings of its code points, U+FFFD for an invalid byte.\<close>

fun runes :: "string \<Rightarrow> string list" where
  "runes [] = []"
| "runes (c # cs) =
     (let n = rune_len (c # cs) in
      if n = 0 then replacement_char # runes cs
      else (c # take (n - 1) cs) # runes (drop (n - 1) cs))"

definition encode_rune :: "nat \<Rightarrow> string" where
  "encode_rune r =
     (if r < 128 then [mkbyte r]
      else if r < 2048 then map mkbyte [192 + r div 64, 128 + r mod 64]
      else if (55296 \<le> r \<and> r \<le> 57343) \<or> 1114111 < r then replacement_char
      else if r < 65536 then map mkbyte [224 + r div 4096, 128 + (r div 64) mod 64, 128 + r mod 64]
      else map mkbyte [240 + r div 262144, 128 + (r div 4096) mod 64, 128 + (r div 64) mod 64, 128 + r mod 64])"

section \<open>Package encoding/hex\<close>

definition hex_digit :: "nat \<Rightarrow> char" where
  "hex_digit n = (''0123456789abcdef'' ! (n mod 16))"

definition hex_encode :: "nat list \<Rightarrow> string" where
  "hex_encode bs = concat (map (\<lambda>b. [hex_digit (b div 16), hex_digit b]) bs)"

lemma length_hex_encode [simp]: "length (hex_encode bs) = 2 * length bs"
  by (induction bs) (auto simp: hex_encode_def)

section \<open>Package crypto/rand\<close>

text \<open>
  \<open>rand.Read\<close> fills a buffer with fresh bytes.  The entropy source is a function from
  the number of draws made so far to the twelve bytes of the next draw; nothing is
  assumed about it unless a lemma says so.
\<close>

record rng =
  draws :: "nat \<Rightarrow> nat list"
  drawn :: nat

definition draw12 :: "rng \<Rightarrow> nat list \<times> rng" where
  "draw12 g = (draws g (drawn g), g\<lparr>drawn := Suc (drawn g)\<rparr>)"

end
