(* ===== verification/GoJson.thy ===== *)
theory GoJson
  imports GoStrings
begin

text \<open>
  What the modelled code uses of \<open>encoding/json\<close> and \<open>encoding/base64\<close>.

  A \<open>json.RawMessage\<close> is a byte string.  Decoding goes through a syntax tree that keeps
  number literals and the undecoded bodies of string literals, so that re-encoding a raw
  value (\<open>json.Marshal\<close> of a \<open>RawMessage\<close> compacts it) is printing the tree.  The
  parser spends one unit of fuel per nested call; one more than twice the length of the
  text is enough (\<open>parse_fuel_enough\<close>), so \<open>parse_json\<close> fails on exactly the texts that are not JSON
  or nest deeper than the 10000 levels the Go scanner admits.
\<close>

section \<open>Syntax trees\<close>

datatype json =
    JNull
  | JBool bool
  | JNum string
  | JStr string
  | JArr "json list"
  | JObj "(string \<times> json) list"

abbreviation dquote :: char where "dquote \<equiv> CHR 0x22"
abbreviation bslash :: char where "bslash \<equiv> CHR 0x5C"

fun json_depth :: "json \<Rightarrow> nat" where
  "json_depth (JArr vs) = Suc (Max (insert 0 (set (map json_depth vs))))"
| "json_depth (JObj kvs) = Suc (Max (insert 0 (set (map (\<lambda>kv. json_depth (snd kv)) kvs))))"
| "json_depth v = 0"

section \<open>Scanning\<close>

definition is_ws :: "char \<Rightarrow> bool" where
  "is_ws c \<longleftrightarrow> byte c = 32 \<or> byte c = 9 \<or> byte c = 10 \<or> byte c = 13"

definition skip_ws :: "string \<Rightarrow> string" where
  "skip_ws s = dropWhile is_ws s"

definition is_hex :: "char \<Rightarrow> bool" where
  "is_hex c \<longleftrightarrow> is_digit c \<or> between 65 70 c \<or> between 97 102 c"

definition is_simple_escape :: "char \<Rightarrow> bool" where
  "is_simple_escape c \<longleftrightarrow> c \<in> {dquote, bslash, CHR ''/'', CHR ''b'', CHR ''f'', CHR ''n'', CHR ''r'', CHR ''t''}"

text \<open>The body of a string literal after its opening quote, and what follows the closing one.\<close>

fun scan_string :: "string \<Rightarrow> (string \<times> string) option" where
  "scan_string [] = None"
| "scan_string (c # cs) =
     (if c = dquote then Some ([], cs)
      else if byte c < 32 then None
      else if c = bslash then
        (case cs of [] \<Rightarrow> None
         | d # ds \<Rightarrow>
           if is_simple_escape d then map_option (\<lambda>(b, r). (c # d # b, r)) (scan_string ds)
           else if d = CHR ''u'' \<and> 4 \<le> length ds \<and> list_all is_hex (take 4 ds)
           then map_option (\<lambda>(b, r). (c # d # take 4 ds @ b, r)) (scan_string (drop 4 ds))
           else None)
      else map_option (\<lambda>(b, r). (c # b, r)) (scan_string cs))"

definition scan_frac :: "string \<Rightarrow> (string \<times> string) option" where
  "scan_frac s = (case s of [] \<Rightarrow> Some ([], [])
     | c # cs \<Rightarrow> if c = CHR ''.'' then
         (let ds = takeWhile is_digit cs in
          if ds = [] then None else Some (c # ds, dropWhile is_digit cs))
       else Some ([], s))"

definition scan_exp :: "string \<Rightarrow> (string \<times> string) option" where
  "scan_exp s = (case s of [] \<Rightarrow> Some ([], [])
     | c # cs \<Rightarrow> if c = CHR ''e'' \<or> c = CHR ''E'' then
         (let (sg, rest) = (case cs of d # ds \<Rightarrow> if d = CHR ''+'' \<or> d = CHR ''-'' then ([d], ds) else ([], cs)
                            | [] \<Rightarrow> ([], []));
              ds = takeWhile is_digit rest in
          if ds = [] then None else Some (c # sg @ ds, dropWhile is_digit rest))
       else Some ([], s))"

definition scan_int :: "string \<Rightarrow> (string \<times> string) option" where
  "scan_int s = (case s of [] \<Rightarrow> None
     | c # cs \<Rightarrow> if c = CHR ''0'' then Some ([c], cs)
       else if is_digit c then Some (c # takeWhile is_digit cs, dropWhile is_digit cs)
       else None)"

definition scan_number :: "string \<Rightarrow> (string \<times> string) option" where
  "scan_number s =
     (let (sg, s0) = (case s of c # cs \<Rightarrow> if c = CHR ''-'' then ([c], cs) else ([], s) | [] \<Rightarrow> ([], [])) in
      case scan_int s0 of None \<Rightarrow> None
      | Some (i, s1) \<Rightarrow> (case scan_frac s1 of None \<Rightarrow> None
        | Some (f, s2) \<Rightarrow> (case scan_exp s2 of None \<Rightarrow> None
          | Some (e, s3) \<Rightarrow> Some (sg @ i @ f @ e, s3))))"

section \<open>Parsing\<close>

fun p_value :: "nat \<Rightarrow> string \<Rightarrow> (json \<times> string) option"
  and p_elems :: "nat \<Rightarrow> string \<Rightarrow> (json list \<times> string) option"
  and p_members :: "nat \<Rightarrow> string \<Rightarrow> ((string \<times> json) list \<times> string) option" where
  "p_value 0 s = None"
| "p_value (Suc n) s =
     (case skip_ws s of [] \<Rightarrow> None
      | c # cs \<Rightarrow>
        if c = dquote then map_option (\<lambda>(b, r). (JStr b, r)) (scan_string cs)
        else if c = CHR ''['' then
          (case skip_ws cs of
             d # r \<Rightarrow> if d = CHR '']'' then Some (JArr [], r)
               else map_option (\<lambda>(vs, r). (JArr vs, r)) (p_elems n cs)
           | [] \<Rightarrow> None)
        else if c = CHR ''{'' then
          (case skip_ws cs of
             d # r \<Rightarrow> if d = CHR ''}'' then Some (JObj [], r)
               else map_option (\<lambda>(vs, r). (JObj vs, r)) (p_members n cs)
           | [] \<Rightarrow> None)
        else if HasPrefix (c # cs) ''null'' then Some (JNull, drop 3 cs)
        else if HasPrefix (c # cs) ''true'' then Some (JBool True, drop 3 cs)
        else if HasPrefix (c # cs) ''false'' then Some (JBool False, drop 4 cs)
        else map_option (\<lambda>(b, r). (JNum b, r)) (scan_number (c # cs)))"
| "p_elems 0 s = None"
| "p_elems (Suc n) s =
     (case p_value n s of None \<Rightarrow> None
      | Some (v, r) \<Rightarrow>
        (case skip_ws r of [] \<Rightarrow> None
         | d # r' \<Rightarrow> if d = CHR '','' then map_option (\<lambda>(vs, q). (v # vs, q)) (p_elems n r')
                    else if d = CHR '']'' then Some ([v], r') else None))"
| "p_members 0 s = None"
| "p_members (Suc n) s =
     (case skip_ws s of [] \<Rightarrow> None
      | c # cs \<Rightarrow> if c \<noteq> dquote then None else
        (case scan_string cs of None \<Rightarrow> None
         | Some (k, r) \<Rightarrow>
           (case skip_ws r of [] \<Rightarrow> None
            | d # r1 \<Rightarrow> if d \<noteq> CHR '':'' then None else
              (case p_value n r1 of None \<Rightarrow> None
               | Some (v, r2) \<Rightarrow>
                 (case skip_ws r2 of [] \<Rightarrow> None
                  | e # r3 \<Rightarrow>
                    if e = CHR '','' then map_option (\<lambda>(kvs, q). ((k, v) # kvs, q)) (p_members n r3)
                    else if e = CHR ''}'' then Some ([(k, v)], r3) else None)))))"

definition max_depth :: nat where
  "max_depth = 10000"

definition parse_json :: "string \<Rightarrow> json option" where
  "parse_json s = (case p_value (Suc (2 * length s)) s of None \<Rightarrow> None
     | Some (v, r) \<Rightarrow> if skip_ws r = [] \<and> json_depth v \<le> max_depth then Some v else None)"

definition Valid :: "string \<Rightarrow> bool" where
  \<comment> \<open>\<open>json.Valid\<close>\<close>
  "Valid s = (parse_json s \<noteq> None)"

section \<open>Decoding strings and objects\<close>

definition hex_val :: "char \<Rightarrow> nat" where
  "hex_val c = (if is_digit c then byte c - 48 else if between 65 70 c then byte c - 55 else byte c - 87)"

definition hex4 :: "string \<Rightarrow> nat" where
  "hex4 s = foldl (\<lambda>a c. 16 * a + hex_val c) 0 (take 4 s)"

definition unescape :: "char \<Rightarrow> char" where
  "unescape c = (if c = CHR ''b'' then mkbyte 8 else if c = CHR ''f'' then mkbyte 12
     else if c = CHR ''n'' then mkbyte 10 else if c = CHR ''r'' then mkbyte 13
     else if c = CHR ''t'' then mkbyte 9 else c)"

definition is_surrogate :: "nat \<Rightarrow> bool" where
  "is_surrogate r \<longleftrightarrow> 55296 \<le> r \<and> r \<le> 57343"

text \<open>
  \<open>unquote\<close> of a scanned string body.  A lone surrogate and every byte that starts no
  UTF-8 encoding become U+FFFD.
\<close>

fun unquote :: "string \<Rightarrow> string" where
  "unquote [] = []"
| "unquote (c # cs) =
     (if c = bslash then
        (case cs of [] \<Rightarrow> []
         | d # ds \<Rightarrow>
           if d = CHR ''u'' then
             (let r = hex4 ds; ds' = drop 4 ds in
              if is_surrogate r then
                (if r < 56320 \<and> take 2 ds' = [bslash, CHR ''u''] \<and> 56320 \<le> hex4 (drop 2 ds') \<and> hex4 (drop 2 ds') \<le> 57343
                 then encode_rune (65536 + (r - 55296) * 1024 + (hex4 (drop 2 ds') - 56320)) @ unquote (drop 6 ds')
                 else replacement_char @ unquote ds')
              else encode_rune r @ unquote ds')
           else unescape d # unquote ds)
      else (let n = rune_len (c # cs) in
            if n = 0 then replacement_char @ unquote cs
            else (c # take (n - 1) cs) @ unquote (drop (n - 1) cs)))"

definition Unmarshal_string :: "string \<Rightarrow> string option" where
  \<comment> \<open>\<open>json.Unmarshal(raw, &s)\<close> into a fresh \<open>string\<close>; JSON null leaves it empty\<close>
  "Unmarshal_string raw = (case parse_json raw of
     Some (JStr b) \<Rightarrow> Some (unquote b) | Some JNull \<Rightarrow> Some [] | _ \<Rightarrow> None)"

definition decode_string :: "json \<Rightarrow> string option" where
  \<comment> \<open>the same for a value that is already parsed\<close>
  "decode_string v = (case v of JStr b \<Rightarrow> Some (unquote b) | JNull \<Rightarrow> Some [] | _ \<Rightarrow> None)"

definition obj_map :: "(string \<times> json) list \<Rightarrow> (string \<times> json) list" where
  \<comment> \<open>a decoded \<open>map[string]json.RawMessage\<close>: decoded keys, the last duplicate wins\<close>
  "obj_map kvs = fold (\<lambda>(k, v) m. (unquote k, v) # filter (\<lambda>kv. fst kv \<noteq> unquote k) m) kvs []"

definition Unmarshal_object :: "string \<Rightarrow> (string \<times> json) list option" where
  \<comment> \<open>\<open>json.Unmarshal(raw, &m)\<close> into a nil \<open>map[string]json.RawMessage\<close>; null leaves it nil\<close>
  "Unmarshal_object raw = (case parse_json raw of
     Some (JObj kvs) \<Rightarrow> Some (obj_map kvs) | Some JNull \<Rightarrow> Some [] | _ \<Rightarrow> None)"

section \<open>Encoding\<close>

definition u_escape :: "nat \<Rightarrow> string" where
  "u_escape b = [bslash, CHR ''u'', CHR ''0'', CHR ''0'', hex_digit (b div 16), hex_digit b]"

definition is_html :: "char \<Rightarrow> bool" where
  "is_html c \<longleftrightarrow> c = CHR ''<'' \<or> c = CHR ''>'' \<or> c = CHR ''&''"

definition line_sep :: "string \<Rightarrow> string option" where
  \<comment> \<open>U+2028 and U+2029 are always escaped\<close>
  "line_sep s = (if HasPrefix s (map mkbyte [226, 128, 168]) then Some (bslash # ''u2028'')
     else if HasPrefix s (map mkbyte [226, 128, 169]) then Some (bslash # ''u2029'') else None)"

fun enc_string :: "string \<Rightarrow> string" where
  "enc_string [] = []"
| "enc_string (c # cs) =
     (if c = dquote \<or> c = bslash then bslash # c # enc_string cs
      else if byte c = 8 then bslash # CHR ''b'' # enc_string cs
      else if byte c = 12 then bslash # CHR ''f'' # enc_string cs
      else if byte c = 10 then bslash # CHR ''n'' # enc_string cs
      else if byte c = 13 then bslash # CHR ''r'' # enc_string cs
      else if byte c = 9 then bslash # CHR ''t'' # enc_string cs
      else if byte c < 32 \<or> is_html c then u_escape (byte c) @ enc_string cs
      else if byte c < 128 then c # enc_string cs
      else (case line_sep (c # cs) of Some e \<Rightarrow> e @ enc_string (drop 2 cs)
        | None \<Rightarrow> (let n = rune_len (c # cs) in
            if n = 0 then (bslash # ''ufffd'') @ enc_string cs
            else (c # take (n - 1) cs) @ enc_string (drop (n - 1) cs))))"

definition Marshal_string :: "string \<Rightarrow> string" where
  "Marshal_string s = dquote # enc_string s @ [dquote]"

text \<open>\<open>compact\<close> with HTML escaping, on the body of a string literal.\<close>

fun compact_body :: "string \<Rightarrow> string" where
  "compact_body [] = []"
| "compact_body (c # cs) =
     (if is_html c then u_escape (byte c) @ compact_body cs
      else case line_sep (c # cs) of Some e \<Rightarrow> e @ compact_body (drop 2 cs)
        | None \<Rightarrow> c # compact_body cs)"

fun print_json :: "json \<Rightarrow> string" where
  "print_json JNull = ''null''"
| "print_json (JBool b) = (if b then ''true'' else ''false'')"
| "print_json (JNum n) = n"
| "print_json (JStr b) = dquote # b @ [dquote]"
| "print_json (JArr vs) = CHR ''['' # Join (map print_json vs) '','' @ '']''"
| "print_json (JObj kvs) =
     CHR ''{'' # Join (map (\<lambda>kv. (dquote # fst kv @ [dquote]) @ '':'' @ print_json (snd kv)) kvs) '','' @ ''}''"

fun compact_json :: "json \<Rightarrow> json" where
  "compact_json (JStr b) = JStr (compact_body b)"
| "compact_json (JArr vs) = JArr (map compact_json vs)"
| "compact_json (JObj kvs) = JObj (map (\<lambda>kv. (compact_body (fst kv), compact_json (snd kv))) kvs)"
| "compact_json v = v"

fun byte_less :: "string \<Rightarrow> string \<Rightarrow> bool" where
  "byte_less _ [] = False"
| "byte_less [] (_ # _) = True"
| "byte_less (a # as) (b # bs) = (byte a < byte b \<or> (a = b \<and> byte_less as bs))"

fun insert_key :: "string \<times> 'v \<Rightarrow> (string \<times> 'v) list \<Rightarrow> (string \<times> 'v) list" where
  "insert_key kv [] = [kv]"
| "insert_key kv (x # xs) = (if byte_less (fst kv) (fst x) then kv # x # xs else x # insert_key kv xs)"

definition sort_keys :: "(string \<times> 'v) list \<Rightarrow> (string \<times> 'v) list" where
  "sort_keys kvs = fold insert_key kvs []"

definition Marshal_object :: "(string \<times> json) list \<Rightarrow> string" where
  \<comment> \<open>\<open>json.Marshal\<close> of a \<open>map[string]json.RawMessage\<close>: keys sorted, values compacted\<close>
  "Marshal_object m =
     print_json (JObj (map (\<lambda>kv. (enc_string (fst kv), compact_json (snd kv))) (sort_keys m)))"

section \<open>Package encoding/base64\<close>

definition b64_digit :: "nat \<Rightarrow> char" where
  "b64_digit n = (''ABCDEFGHIJKLMNOPQRSTUVWXYZabcdefghijklmnopqrstuvwxyz0123456789+/'' ! (n mod 64))"

text \<open>\<open>base64.RawStdEncoding\<close>: no padding.\<close>

fun b64_encode :: "string \<Rightarrow> string" where
  "b64_encode [] = []"
| "b64_encode [a] = [b64_digit (byte a div 4), b64_digit (byte a * 16)]"
| "b64_encode [a, b] =
     [b64_digit (byte a div 4), b64_digit (byte a * 16 + byte b div 16), b64_digit (byte b * 4)]"
| "b64_encode (a # b # c # cs) =
     [b64_digit (byte a div 4), b64_digit (byte a * 16 + byte b div 16),
      b64_digit (byte b * 4 + byte c div 64), b64_digit (byte c)] @ b64_encode cs"


section \<open>The parser's fuel is enough\<close>

lemma length_skip_ws: "length (skip_ws s) \<le> length s"
  by (simp add: skip_ws_def length_dropWhile_le)

lemma scan_string_shorter: "scan_string s = Some (b, r) \<Longrightarrow> length r < length s"
  by (induction s arbitrary: b r rule: scan_string.induct)
     (fastforce split: if_splits list.splits)+

lemma length_dropWhile_less: "takeWhile P xs \<noteq> [] \<Longrightarrow> length (dropWhile P xs) < length xs"
  by (cases xs) (auto simp: le_imp_less_Suc length_dropWhile_le split: if_splits)

lemma scan_int_shorter: "scan_int s = Some (b, r) \<Longrightarrow> length r < length s"
  by (auto simp: scan_int_def le_imp_less_Suc length_dropWhile_le split: list.splits if_splits)

lemma scan_frac_shorter: "scan_frac s = Some (b, r) \<Longrightarrow> length r \<le> length s"
  by (auto simp: scan_frac_def Let_def le_SucI length_dropWhile_le split: list.splits if_splits)

lemma scan_exp_shorter: "scan_exp s = Some (b, r) \<Longrightarrow> length r \<le> length s"
  by (auto simp: scan_exp_def Let_def le_SucI length_dropWhile_le split: list.splits if_splits)

lemma scan_number_shorter: "scan_number s = Some (b, r) \<Longrightarrow> length r < length s"
  by (fastforce simp: scan_number_def Let_def
        dest: scan_int_shorter scan_frac_shorter scan_exp_shorter
        split: list.splits if_splits option.splits prod.splits)

lemma skip_ws_Cons_length: "skip_ws s = c # cs \<Longrightarrow> length cs < length s"
  using length_skip_ws [of s] by simp

lemma p_shorter:
  "p_value n s = Some (v, r) \<Longrightarrow> length r < length s"
  "p_elems n s = Some (vs, r) \<Longrightarrow> length r < length s"
  "p_members n s = Some (kvs, r) \<Longrightarrow> length r < length s"
proof (induction n s and n s and n s arbitrary: v r and vs r and kvs r
       rule: p_value_p_elems_p_members.induct)
  case (2 n s)
  then show ?case
    by (auto dest!: scan_string_shorter scan_number_shorter skip_ws_Cons_length
        split: list.splits if_splits; fastforce)
next
  case (4 n s)
  from "4.prems" obtain w q where 1: "p_value n s = Some (w, q)" by (auto split: option.splits)
  with "4.IH"(1) have "length q < length s" by blast
  with "4.prems" 1 "4.IH"(2) show ?case
    by (fastforce dest!: skip_ws_Cons_length split: list.splits if_splits)
next
  case (6 n s)
  from "6.prems" obtain cs k q1 q2 w q3 d q4 where 1: "skip_ws s = dquote # cs"
      "scan_string cs = Some (k, q1)" "skip_ws q1 = CHR '':'' # q2"
      "p_value n q2 = Some (w, q3)" "skip_ws q3 = d # q4"
    by (auto split: list.splits if_splits option.splits)
  have "length cs < length s" "length q1 < length cs" "length q2 < length q1" "length q4 < length q3"
    using 1 by (auto dest: skip_ws_Cons_length scan_string_shorter)
  moreover have "length q3 < length q2" using "6.IH"(1) 1 by force
  ultimately have "length q4 < length s" by linarith
  with "6.prems" 1 "6.IH"(2) show ?case
    by (fastforce split: if_splits)
qed simp_all

lemma p_fuel:
  "2 * length s < n \<Longrightarrow> 2 * length s < m \<Longrightarrow> p_value n s = p_value m s"
  "2 * length s + 1 < n \<Longrightarrow> 2 * length s + 1 < m \<Longrightarrow> p_elems n s = p_elems m s"
  "2 * length s + 1 < n \<Longrightarrow> 2 * length s + 1 < m \<Longrightarrow> p_members n s = p_members m s"
proof (induction n s and n s and n s arbitrary: m and m and m
       rule: p_value_p_elems_p_members.induct)
  case (2 n s)
  from "2.prems" obtain k where m: "m = Suc k" by (cases m) auto
  show ?case
  proof (cases "skip_ws s")
    case (Cons c cs)
    have k: "2 * length cs + 1 < n" "2 * length cs + 1 < k"
      using skip_ws_Cons_length [OF Cons] "2.prems" m by auto
    have 1: "p_elems n cs = p_elems k cs"
      if "c = CHR ''[''" "skip_ws cs = d # r" "d \<noteq> CHR '']''" for d r
      using "2.IH"(1) [OF Cons _ that(1,2), of k] that(3) k that(1) by simp
    have 2: "p_members n cs = p_members k cs"
      if "c = CHR ''{''" "skip_ws cs = d # r" "d \<noteq> CHR ''}''" for d r
      using "2.IH"(2) [OF Cons _ _ that(1,2), of k] that(3) k that(1) by simp
    show ?thesis
      unfolding m by (simp add: Cons 1 2 split: list.split)
  qed (simp add: m)
next
  case (4 n s)
  from "4.prems" obtain k where m: "m = Suc k" by (cases m) auto
  have 1: "p_value n s = p_value k s" using "4.IH"(1) [of k] "4.prems" m by simp
  have 2: "p_elems n r' = p_elems k r'"
    if "p_value k s = Some (v, r)" "skip_ws r = CHR '','' # r'" for v r r'
  proof -
    have "length r < length s" using that(1) by (rule p_shorter)
    with that(2) have "length r' < length s" by (auto dest: skip_ws_Cons_length)
    with "4.prems" m have "2 * length r' + 1 < n" "2 * length r' + 1 < k" by auto
    with that(1) 1 show ?thesis by (intro "4.IH"(2) [OF _ refl that(2) refl]) auto
  qed
  show ?case unfolding m
    by (simp add: 1 2 split: option.split list.split prod.split)
next
  case (6 n s)
  from "6.prems" obtain k where m: "m = Suc k" by (cases m) auto
  have le: "length r1 < length s"
    if "skip_ws s = dquote # cs" "scan_string cs = Some (key, r)" "skip_ws r = d # r1" for cs key r d r1
    using that by (fastforce dest: skip_ws_Cons_length scan_string_shorter)
  have 1: "p_value n r1 = p_value k r1"
    if "skip_ws s = dquote # cs" "scan_string cs = Some (key, r)" "skip_ws r = CHR '':'' # r1" for cs key r r1
    using le [OF that] "6.prems" m
    by (intro "6.IH"(1) [OF that(1) _ that(2) refl that(3)]) auto
  have 2: "p_members n r3 = p_members k r3"
    if "skip_ws s = dquote # cs" "scan_string cs = Some (key, r)" "skip_ws r = CHR '':'' # r1"
       "p_value k r1 = Some (v, r2)" "skip_ws r2 = CHR '','' # r3" for cs key r r1 v r2 r3
  proof -
    have "length r2 < length r1" using that(4) by (rule p_shorter)
    with that(5) le [OF that(1-3)] have "length r3 < length s" by (auto dest: skip_ws_Cons_length)
    with that(4) 1 [OF that(1-3)] "6.prems" m show ?thesis
      by (intro "6.IH"(2) [OF that(1) _ that(2) refl that(3) _ _ refl that(5) refl]) auto
  qed
  show ?case unfolding m
    by (simp add: 1 2 split: option.split list.split prod.split)
qed simp_all

lemma parse_fuel_enough:
  "2 * length s < n \<Longrightarrow> p_value n s = p_value (Suc (2 * length s)) s"
  by (rule p_fuel) auto

end
