(* ===== verification/ApiTypes.thy ===== *)
theory ApiTypes
  imports GoJson
begin

text \<open>
  The wire types of the three protocols (\<open>internal/pkg/apicompat/types.go\<close>): one record
  per Go struct, one field per struct field, with the Go name behind a prefix of the
  struct.  A Go pointer is an \<open>option\<close>, a slice a list (nil and empty slices are the same
  list: they differ only in the JSON text \<open>null\<close> or \<open>[]\<close>), a \<open>json.RawMessage\<close> and a
  \<open>string\<close> are byte strings, an \<open>int\<close> is an \<open>int\<close>.  Every struct has its zero value
  (\<open>zero...\<close>), from which the code builds its literals.
\<close>

section \<open>Anthropic Messages\<close>

record AnthropicCacheControl =
  acc_Type :: string
  acc_TTL :: string

record AnthropicImageSource =
  ais_Type :: string
  ais_MediaType :: string
  ais_Data :: string

record AnthropicContentBlock =
  acb_Type :: string
  acb_CacheControl :: "AnthropicCacheControl option"
  acb_Text :: string
  acb_Thinking :: string
  acb_Signature :: string
  acb_Data :: string
  acb_Source :: "AnthropicImageSource option"
  acb_ID :: string
  acb_Name :: string
  acb_Input :: string
  acb_ToolUseID :: string
  acb_Content :: string
  acb_IsError :: bool

definition zeroBlock :: AnthropicContentBlock where
  "zeroBlock = \<lparr>acb_Type = [], acb_CacheControl = None, acb_Text = [], acb_Thinking = [],
     acb_Signature = [], acb_Data = [], acb_Source = None, acb_ID = [], acb_Name = [],
     acb_Input = [], acb_ToolUseID = [], acb_Content = [], acb_IsError = False\<rparr>"

record AnthropicPromptTokensDetails =
  aptd_CachedTokens :: int

record AnthropicUsage =
  au_InputTokens :: int
  au_OutputTokens :: int
  au_CacheCreationInputTokens :: int
  au_CacheReadInputTokens :: int
  au_PromptTokens :: int
  au_CachedTokens :: int
  au_PromptTokensDetails :: "AnthropicPromptTokensDetails option"
  au_PromptCacheHitTokens :: "int option"
  au_PromptCacheMissTokens :: "int option"

definition zeroAnthropicUsage :: AnthropicUsage where
  "zeroAnthropicUsage = \<lparr>au_InputTokens = 0, au_OutputTokens = 0, au_CacheCreationInputTokens = 0,
     au_CacheReadInputTokens = 0, au_PromptTokens = 0, au_CachedTokens = 0,
     au_PromptTokensDetails = None, au_PromptCacheHitTokens = None, au_PromptCacheMissTokens = None\<rparr>"

record AnthropicResponse =
  ar_ID :: string
  ar_Type :: string
  ar_Role :: string
  ar_Content :: "AnthropicContentBlock list"
  ar_Model :: string
  ar_StopReason :: "string option"
  ar_StopSequence :: "string option"
  ar_Usage :: AnthropicUsage

definition zeroAnthropicResponse :: AnthropicResponse where
  "zeroAnthropicResponse = \<lparr>ar_ID = [], ar_Type = [], ar_Role = [], ar_Content = [], ar_Model = [],
     ar_StopReason = None, ar_StopSequence = None, ar_Usage = zeroAnthropicUsage\<rparr>"

definition AnthropicStopReasonPtr :: "string \<Rightarrow> string option" where
  "AnthropicStopReasonPtr s = Some s"

definition AnthropicStopReasonString :: "string option \<Rightarrow> string" where
  "AnthropicStopReasonString p = (case p of None \<Rightarrow> [] | Some s \<Rightarrow> s)"

record AnthropicDelta =
  ad_Type :: string
  ad_Text :: string
  ad_PartialJSON :: string
  ad_Thinking :: string
  ad_Signature :: string
  ad_StopReason :: string
  ad_StopSequence :: "string option"

definition zeroDelta :: AnthropicDelta where
  "zeroDelta = \<lparr>ad_Type = [], ad_Text = [], ad_PartialJSON = [], ad_Thinking = [], ad_Signature = [],
     ad_StopReason = [], ad_StopSequence = None\<rparr>"

record AnthropicStreamEvent =
  ase_Type :: string
  ase_Message :: "AnthropicResponse option"
  ase_Index :: "int option"
  ase_ContentBlock :: "AnthropicContentBlock option"
  ase_Delta :: "AnthropicDelta option"
  ase_Usage :: "AnthropicUsage option"

definition zeroASE :: AnthropicStreamEvent where
  "zeroASE = \<lparr>ase_Type = [], ase_Message = None, ase_Index = None, ase_ContentBlock = None,
     ase_Delta = None, ase_Usage = None\<rparr>"

section \<open>OpenAI Responses\<close>

record ResponsesContentPart =
  rcp_PromptCacheBreakpoint :: string
  rcp_Type :: string
  rcp_Text :: string
  rcp_Refusal :: string
  rcp_ImageURL :: string
  rcp_Filename :: string
  rcp_FileData :: string
  rcp_FileID :: string

definition zeroPart :: ResponsesContentPart where
  "zeroPart = \<lparr>rcp_PromptCacheBreakpoint = [], rcp_Type = [], rcp_Text = [], rcp_Refusal = [],
     rcp_ImageURL = [], rcp_Filename = [], rcp_FileData = [], rcp_FileID = []\<rparr>"

record ResponsesError =
  rerr_Code :: string
  rerr_Message :: string

record ResponsesIncompleteDetails =
  rid_Reason :: string

record WebSearchAction =
  wsa_Type :: string
  wsa_Query :: string

record ResponsesSummary =
  rsum_Type :: string
  rsum_Text :: string

record ResponsesOutput =
  ro_Type :: string
  ro_ID :: string
  ro_Role :: string
  ro_Content :: "ResponsesContentPart list"
  ro_Status :: string
  ro_EncryptedContent :: string
  ro_Summary :: "ResponsesSummary list"
  ro_CallID :: string
  ro_Name :: string
  ro_Arguments :: string
  ro_Namespace :: string
  ro_Input :: string
  ro_Action :: "WebSearchAction option"

definition zeroOutput :: ResponsesOutput where
  "zeroOutput = \<lparr>ro_Type = [], ro_ID = [], ro_Role = [], ro_Content = [], ro_Status = [],
     ro_EncryptedContent = [], ro_Summary = [], ro_CallID = [], ro_Name = [], ro_Arguments = [],
     ro_Namespace = [], ro_Input = [], ro_Action = None\<rparr>"

record ResponsesInputTokensDetails =
  ritd_CachedTokens :: int
  ritd_AudioTokens :: int
  ritd_CacheCreationTokens :: int
  ritd_CacheWriteTokens :: int

definition zeroInputDetails :: ResponsesInputTokensDetails where
  "zeroInputDetails = \<lparr>ritd_CachedTokens = 0, ritd_AudioTokens = 0, ritd_CacheCreationTokens = 0,
     ritd_CacheWriteTokens = 0\<rparr>"

record ResponsesOutputTokensDetails =
  rotd_ReasoningTokens :: int
  rotd_AudioTokens :: int
  rotd_AcceptedPredictionTokens :: int
  rotd_RejectedPredictionTokens :: int

record ResponsesUsage =
  ru_InputTokens :: int
  ru_OutputTokens :: int
  ru_TotalTokens :: int
  ru_CacheCreationInputTokens :: int
  ru_InputTokensDetails :: "ResponsesInputTokensDetails option"
  ru_OutputTokensDetails :: "ResponsesOutputTokensDetails option"

definition zeroResponsesUsage :: ResponsesUsage where
  "zeroResponsesUsage = \<lparr>ru_InputTokens = 0, ru_OutputTokens = 0, ru_TotalTokens = 0,
     ru_CacheCreationInputTokens = 0, ru_InputTokensDetails = None, ru_OutputTokensDetails = None\<rparr>"

record ResponsesResponse =
  rr_ID :: string
  rr_Object :: string
  rr_CreatedAt :: int
  rr_Model :: string
  rr_Status :: string
  rr_Output :: "ResponsesOutput list"
  rr_Usage :: "ResponsesUsage option"
  rr_ServiceTier :: string
  rr_IncompleteDetails :: "ResponsesIncompleteDetails option"
  rr_Error :: "ResponsesError option"

definition zeroResponse :: ResponsesResponse where
  "zeroResponse = \<lparr>rr_ID = [], rr_Object = [], rr_CreatedAt = 0, rr_Model = [], rr_Status = [],
     rr_Output = [], rr_Usage = None, rr_ServiceTier = [], rr_IncompleteDetails = None, rr_Error = None\<rparr>"

record ResponsesStreamEvent =
  rse_Type :: string
  rse_Response :: "ResponsesResponse option"
  rse_Usage :: "ResponsesUsage option"
  rse_Item :: "ResponsesOutput option"
  rse_Part :: "ResponsesContentPart option"
  rse_OutputIndex :: int
  rse_ContentIndex :: int
  rse_Delta :: string
  rse_Text :: string
  rse_ItemID :: string
  rse_CallID :: string
  rse_Name :: string
  rse_Arguments :: string
  rse_Input :: string
  rse_SummaryIndex :: int
  rse_Code :: string
  rse_Param :: string
  rse_SequenceNumber :: int

definition zeroRSE :: ResponsesStreamEvent where
  "zeroRSE = \<lparr>rse_Type = [], rse_Response = None, rse_Usage = None, rse_Item = None, rse_Part = None,
     rse_OutputIndex = 0, rse_ContentIndex = 0, rse_Delta = [], rse_Text = [], rse_ItemID = [],
     rse_CallID = [], rse_Name = [], rse_Arguments = [], rse_Input = [], rse_SummaryIndex = 0,
     rse_Code = [], rse_Param = [], rse_SequenceNumber = 0\<rparr>"

text \<open>A tool declaration; namespace tools nest, so this struct is a recursive datatype.\<close>

datatype ResponsesTool =
  ResponsesTool
    (rt_Type: string) (rt_Name: string) (rt_Description: string) (rt_Parameters: string)
    (rt_Strict: "bool option")
    (rt_Tools: "ResponsesTool list") (rt_Children: "ResponsesTool list")
    (rt_AllowedXHandles: "string list") (rt_ExcludedXHandles: "string list")
    (rt_FromDate: string) (rt_ToDate: string)
    (rt_EnableImageUnderstanding: "bool option") (rt_EnableVideoUnderstanding: "bool option")

section \<open>OpenAI Chat Completions\<close>

record ChatFunctionCall =
  cfc_Name :: string
  cfc_Arguments :: string

record ChatToolCall =
  ctc_Index :: "int option"
  ctc_ID :: string
  ctc_Type :: string
  ctc_Function :: ChatFunctionCall

definition zeroToolCall :: ChatToolCall where
  "zeroToolCall = \<lparr>ctc_Index = None, ctc_ID = [], ctc_Type = [],
     ctc_Function = \<lparr>cfc_Name = [], cfc_Arguments = []\<rparr>\<rparr>"

record ChatMessage =
  cm_Role :: string
  cm_Content :: string
  cm_Refusal :: string
  cm_ReasoningContent :: string
  cm_Reasoning :: string
  cm_Name :: string
  cm_ToolCalls :: "ChatToolCall list"
  cm_ToolCallID :: string
  cm_FunctionCall :: "ChatFunctionCall option"

definition zeroChatMessage :: ChatMessage where
  "zeroChatMessage = \<lparr>cm_Role = [], cm_Content = [], cm_Refusal = [], cm_ReasoningContent = [],
     cm_Reasoning = [], cm_Name = [], cm_ToolCalls = [], cm_ToolCallID = [], cm_FunctionCall = None\<rparr>"

record ChatTokenDetails =
  ctd_CachedTokens :: int
  ctd_AudioTokens :: int
  ctd_CacheCreationTokens :: int
  ctd_CacheWriteTokens :: int
  ctd_ReasoningTokens :: int
  ctd_AcceptedPredictionTokens :: int
  ctd_RejectedPredictionTokens :: int

definition zeroTokenDetails :: ChatTokenDetails where
  "zeroTokenDetails = \<lparr>ctd_CachedTokens = 0, ctd_AudioTokens = 0, ctd_CacheCreationTokens = 0,
     ctd_CacheWriteTokens = 0, ctd_ReasoningTokens = 0, ctd_AcceptedPredictionTokens = 0,
     ctd_RejectedPredictionTokens = 0\<rparr>"

record ChatUsage =
  cu_PromptTokens :: int
  cu_CompletionTokens :: int
  cu_TotalTokens :: int
  cu_PromptTokensDetails :: "ChatTokenDetails option"
  cu_CompletionTokensDetails :: "ChatTokenDetails option"

record ChatChoice =
  cc_Index :: int
  cc_Message :: ChatMessage
  cc_FinishReason :: string

record ChatCompletionsResponse =
  ccr_ID :: string
  ccr_Object :: string
  ccr_Created :: int
  ccr_Model :: string
  ccr_Choices :: "ChatChoice list"
  ccr_Usage :: "ChatUsage option"
  ccr_SystemFingerprint :: string
  ccr_ServiceTier :: string

record ChatDelta =
  cd_Role :: string
  cd_Content :: "string option"
  cd_Refusal :: "string option"
  cd_ReasoningContent :: "string option"
  cd_Reasoning :: "string option"
  cd_ToolCalls :: "ChatToolCall list"

definition zeroChatDelta :: ChatDelta where
  "zeroChatDelta = \<lparr>cd_Role = [], cd_Content = None, cd_Refusal = None, cd_ReasoningContent = None,
     cd_Reasoning = None, cd_ToolCalls = []\<rparr>"

record ChatChunkChoice =
  ccc_Index :: int
  ccc_Delta :: ChatDelta
  ccc_FinishReason :: "string option"

record ChatCompletionsChunk =
  cck_ID :: string
  cck_Object :: string
  cck_Created :: int
  cck_Model :: string
  cck_Choices :: "ChatChunkChoice list"
  cck_Usage :: "ChatUsage option"
  cck_SystemFingerprint :: string
  cck_ServiceTier :: string

definition message_reasoningText :: "ChatMessage \<Rightarrow> string" where
  "message_reasoningText m = (if cm_ReasoningContent m \<noteq> [] then cm_ReasoningContent m else cm_Reasoning m)"

definition delta_reasoningText :: "ChatDelta \<Rightarrow> string option" where
  "delta_reasoningText d = (if cd_ReasoningContent d \<noteq> None then cd_ReasoningContent d else cd_Reasoning d)"

section \<open>Zero values\<close>

lemma zeroASE_sel [simp, zero_sel]:
  "ase_Type zeroASE = []" "ase_Message zeroASE = None" "ase_Index zeroASE = None"
  "ase_ContentBlock zeroASE = None" "ase_Delta zeroASE = None" "ase_Usage zeroASE = None"
  by (simp_all add: zeroASE_def)

lemma zeroDelta_sel [simp, zero_sel]:
  "ad_Type zeroDelta = []" "ad_Text zeroDelta = []" "ad_PartialJSON zeroDelta = []"
  "ad_Thinking zeroDelta = []" "ad_Signature zeroDelta = []" "ad_StopReason zeroDelta = []"
  "ad_StopSequence zeroDelta = None"
  by (simp_all add: zeroDelta_def)

lemma zeroBlock_sel [simp, zero_sel]:
  "acb_Type zeroBlock = []" "acb_Text zeroBlock = []" "acb_Thinking zeroBlock = []"
  "acb_Signature zeroBlock = []" "acb_Data zeroBlock = []" "acb_ID zeroBlock = []"
  "acb_Name zeroBlock = []" "acb_Input zeroBlock = []" "acb_ToolUseID zeroBlock = []"
  "acb_Content zeroBlock = []"
  by (simp_all add: zeroBlock_def)

lemma zeroAnthropicUsage_sel [simp, zero_sel]:
  "au_InputTokens zeroAnthropicUsage = 0" "au_OutputTokens zeroAnthropicUsage = 0"
  "au_CacheCreationInputTokens zeroAnthropicUsage = 0" "au_CacheReadInputTokens zeroAnthropicUsage = 0"
  by (simp_all add: zeroAnthropicUsage_def)

lemma zeroRSE_sel [simp, zero_sel]:
  "rse_Type zeroRSE = []" "rse_Response zeroRSE = None" "rse_Usage zeroRSE = None"
  "rse_Item zeroRSE = None" "rse_Part zeroRSE = None" "rse_OutputIndex zeroRSE = 0"
  "rse_ContentIndex zeroRSE = 0" "rse_Delta zeroRSE = []" "rse_Text zeroRSE = []"
  "rse_ItemID zeroRSE = []" "rse_CallID zeroRSE = []" "rse_Name zeroRSE = []"
  "rse_Arguments zeroRSE = []" "rse_Input zeroRSE = []" "rse_SummaryIndex zeroRSE = 0"
  "rse_SequenceNumber zeroRSE = 0"
  by (simp_all add: zeroRSE_def)

lemma zeroOutput_sel [simp, zero_sel]:
  "ro_Type zeroOutput = []" "ro_ID zeroOutput = []" "ro_Role zeroOutput = []"
  "ro_Content zeroOutput = []" "ro_Status zeroOutput = []" "ro_EncryptedContent zeroOutput = []"
  "ro_Summary zeroOutput = []" "ro_CallID zeroOutput = []" "ro_Name zeroOutput = []"
  "ro_Arguments zeroOutput = []" "ro_Namespace zeroOutput = []" "ro_Input zeroOutput = []"
  "ro_Action zeroOutput = None"
  by (simp_all add: zeroOutput_def)

lemma zeroResponse_sel [simp, zero_sel]:
  "rr_ID zeroResponse = []" "rr_Status zeroResponse = []" "rr_Output zeroResponse = []"
  "rr_Usage zeroResponse = None" "rr_ServiceTier zeroResponse = []"
  "rr_IncompleteDetails zeroResponse = None" "rr_Model zeroResponse = []"
  by (simp_all add: zeroResponse_def)

lemma zeroPart_sel [simp, zero_sel]:
  "rcp_Type zeroPart = []" "rcp_Text zeroPart = []" "rcp_Refusal zeroPart = []"
  by (simp_all add: zeroPart_def)

lemma zeroChatDelta_sel [simp, zero_sel]:
  "cd_Role zeroChatDelta = []" "cd_Content zeroChatDelta = None" "cd_Refusal zeroChatDelta = None"
  "cd_ReasoningContent zeroChatDelta = None" "cd_Reasoning zeroChatDelta = None"
  "cd_ToolCalls zeroChatDelta = []"
  by (simp_all add: zeroChatDelta_def)

lemma zeroToolCall_sel [simp, zero_sel]:
  "ctc_Index zeroToolCall = None" "ctc_ID zeroToolCall = []" "ctc_Type zeroToolCall = []"
  "cfc_Name (ctc_Function zeroToolCall) = []" "cfc_Arguments (ctc_Function zeroToolCall) = []"
  by (simp_all add: zeroToolCall_def)

end
