(* ===== verification/ToolNames.thy ===== *)
theory ToolNames
  imports ApiTypes GoSha256 "HOL-Library.AList"
begin

text \<open>
  Tool identifiers and tool arguments on their way between the protocols: call IDs
  (\<open>anthropic_to_responses.go\<close>), the clean-up of the \<open>Read\<close> tool's arguments
  (\<open>responses_to_anthropic.go\<close>), and the naming of custom, namespaced and tool-search
  tools (\<open>chatcompletions_responses_bridge.go\<close>).

  A Go map that the code iterates over is an association list with distinct keys, whose
  order stands for Go's unspecified iteration order.
\<close>

section \<open>Call IDs\<close>

definition toResponsesCallID :: "string \<Rightarrow> string" where
  "toResponsesCallID i = i"

definition fromResponsesCallID :: "string \<Rightarrow> string" where
  "fromResponsesCallID i =
     (case CutPrefix i ''fc_'' of (after, ok) \<Rightarrow>
        if ok \<and> (HasPrefix after ''toolu_'' \<or> HasPrefix after ''call_'') then after else i)"

section \<open>Tool arguments\<close>

definition sanitizeAnthropicToolUseInput :: "string \<Rightarrow> string \<Rightarrow> string" where
  "sanitizeAnthropicToolUseInput name raw =
     (if name \<noteq> ''Read'' \<or> raw = [] then raw
      else case Unmarshal_object raw of
        None \<Rightarrow> raw
      | Some input \<Rightarrow>
          (case map_of input ''pages'' of
             Some (JStr []) \<Rightarrow> Marshal_object (filter (\<lambda>kv. fst kv \<noteq> ''pages'') input)
           | _ \<Rightarrow> raw))"

definition seedToolArguments :: "string \<Rightarrow> string" where
  "seedToolArguments input =
     (let trimmed = TrimSpace input in
      if trimmed = [] \<or> trimmed = ''{}'' \<or> trimmed = ''null'' then [] else trimmed)"

definition extractCustomToolCallInput :: "string \<Rightarrow> string" where
  "extractCustomToolCallInput arguments =
     (let trimmed = TrimSpace arguments in
      if trimmed = [] then []
      else case Unmarshal_object trimmed of
        None \<Rightarrow> trimmed
      | Some obj \<Rightarrow>
          (case map_of obj ''input'' of
             Some raw \<Rightarrow> (case decode_string raw of Some s \<Rightarrow> s | None \<Rightarrow> trimmed)
           | None \<Rightarrow> if obj = [] then [] else trimmed))"

definition toolSearchCallArgumentsJSON :: "string \<Rightarrow> string" where
  "toolSearchCallArgumentsJSON arguments =
     (let trimmed = TrimSpace arguments in
      if trimmed = [] then ''{}''
      else if Valid trimmed then trimmed else Marshal_string arguments)"

definition args_or_empty_object :: "string \<Rightarrow> string" where
  \<comment> \<open>the \<open>if strings.TrimSpace(arguments) == ""\<close> fallback shared by the chat bridges\<close>
  "args_or_empty_object arguments = (if TrimSpace arguments = [] then ''{}'' else arguments)"

section \<open>Tool names declared by a Responses request\<close>

record NamespacedToolName =
  ntn_Namespace :: string
  ntn_Name :: string

definition toolSearchProxyName :: string where
  "toolSearchProxyName = ''tool_search''"

definition chatToolNameMaxLen :: nat where
  "chatToolNameMaxLen = 64"

definition set_add :: "string \<Rightarrow> string list \<Rightarrow> string list" where
  \<comment> \<open>\<open>m[k] = true\<close> on a \<open>map[string]bool\<close> that holds no false entries\<close>
  "set_add k m = (if k \<in> set m then m else m @ [k])"

definition CustomToolNames :: "ResponsesTool list \<Rightarrow> string list" where
  "CustomToolNames tools =
     fold (\<lambda>t out. if rt_Type t = ''custom'' \<and> rt_Name t \<noteq> [] then set_add (rt_Name t) out else out) tools []"

definition FunctionToolNames :: "ResponsesTool list \<Rightarrow> string list" where
  "FunctionToolNames tools =
     fold (\<lambda>t out. if rt_Type t = ''function'' \<and> rt_Name t \<noteq> [] then set_add (rt_Name t) out else out) tools []"

definition HasToolSearchTool :: "ResponsesTool list \<Rightarrow> bool" where
  "HasToolSearchTool tools = list_ex (\<lambda>t. rt_Type t = ''tool_search'') tools"

text \<open>The longest sequence of whole code points that fits in \<open>n\<close> bytes.\<close>

fun take_runes :: "nat \<Rightarrow> string list \<Rightarrow> string" where
  "take_runes n [] = []"
| "take_runes n (r # rs) = (if n < length r then [] else r @ take_runes (n - length r) rs)"

definition flattenNamespaceToolName :: "string \<Rightarrow> string \<Rightarrow> string" where
  "flattenNamespaceToolName namespace name =
     (let full = namespace @ ''__'' @ name in
      if length full \<le> chatToolNameMaxLen then full
      else (let suffix = ''__'' @ hex_encode (take 4 (sha256 (map byte full)));
                prefixLen = chatToolNameMaxLen - length suffix
            in take_runes prefixLen (runes full) @ suffix))"

definition NamespaceToolNames :: "ResponsesTool list \<Rightarrow> (string \<times> NamespacedToolName) list" where
  "NamespaceToolNames tools =
     fold (\<lambda>t out.
       if rt_Type t \<noteq> ''namespace'' \<or> rt_Name t = [] then out
       else fold (\<lambda>child out.
              if rt_Type child \<noteq> ''function'' \<or> rt_Name child = [] then out
              else AList.update (flattenNamespaceToolName (rt_Name t) (rt_Name child))
                     \<lparr>ntn_Namespace = rt_Name t, ntn_Name = rt_Name child\<rparr> out)
            (if rt_Tools t = [] then rt_Children t else rt_Tools t) out) tools []"

section \<open>Restoring the name of a custom tool\<close>

fun match_custom :: "(string \<times> NamespacedToolName) list \<Rightarrow> string \<Rightarrow> string \<Rightarrow> string \<times> bool" where
  "match_custom [] name m = (m, m \<noteq> [])"
| "match_custom ((customName, ns) # rest) name m =
     (if flattenNamespaceToolName (ntn_Namespace ns) customName \<noteq> name then match_custom rest name m
      else if m \<noteq> [] \<and> m \<noteq> customName then ([], False)
      else match_custom rest name customName)"

definition customToolCallName ::
  "string \<Rightarrow> string list \<Rightarrow> string list \<Rightarrow> (string \<times> NamespacedToolName) list \<Rightarrow> string \<times> bool" where
  "customToolCallName name customTools functionTools namespaceTools =
     (if name \<in> set functionTools then ([], False)
      else if name \<in> set customTools then (name, True)
      else if map_of namespaceTools name \<noteq> None then ([], False)
      else match_custom
             (concat (map (\<lambda>c. map (\<lambda>n. (c, snd n)) namespaceTools) customTools)) name [])"

section \<open>Item IDs of restored client tools\<close>

definition responsesToolCallItemIDPrefixes :: "string list" where
  "responsesToolCallItemIDPrefixes = [''fc_'', ''ctc_'', ''tsc_'']"

definition responsesToolCallItemIDPrefix :: "string \<Rightarrow> string" where
  "responsesToolCallItemIDPrefix itemType =
     (if itemType = ''custom_tool_call'' then ''ctc_''
      else if itemType = ''tool_search_call'' then ''tsc_''
      else if itemType = ''function_call'' then ''fc_'' else [])"

fun retype_known :: "string list \<Rightarrow> string \<Rightarrow> string \<Rightarrow> string" where
  "retype_known [] want i = i"
| "retype_known (known # rest) want i =
     (if known \<noteq> want \<and> HasPrefix i known then want @ TrimPrefix i known else retype_known rest want i)"

definition retypedResponsesToolCallItemID :: "string \<Rightarrow> string \<Rightarrow> string" where
  "retypedResponsesToolCallItemID i itemType =
     (let want = responsesToolCallItemIDPrefix itemType in
      if want = [] \<or> i = [] \<or> HasPrefix i want then i
      else retype_known responsesToolCallItemIDPrefixes want i)"

definition responsesClientToolItemType :: "string \<Rightarrow> string" where
  "responsesClientToolItemType kind = (if kind = ''custom'' then ''custom_tool_call'' else ''tool_search_call'')"

lemma length_take_runes: "length (take_runes n rs) \<le> n"
  by (induction n rs rule: take_runes.induct) auto

end
