(* ===== verification/ResponsesToAnthropic.thy ===== *)
theory ResponsesToAnthropic
  imports ToolNames
begin

text \<open>
  \<open>responses_to_anthropic.go\<close>: Responses answers, whole or streamed, as Anthropic
  Messages.  The converter's state is the record \<open>ra_state\<close>
  (\<open>ResponsesEventToAnthropicState\<close>); each \<open>resToAnth...\<close> handler returns the events it
  emits and the new state.
\<close>

section \<open>Whole responses\<close>

definition anthropicUsageFromResponsesUsage :: "ResponsesUsage option \<Rightarrow> AnthropicUsage" where
  "anthropicUsageFromResponsesUsage usage =
     (case usage of None \<Rightarrow> zeroAnthropicUsage
      | Some u \<Rightarrow>
         (let cachedTokens = (case ru_InputTokensDetails u of None \<Rightarrow> 0 | Some d \<Rightarrow> ritd_CachedTokens d);
              input0 = isub (isub (ru_InputTokens u) cachedTokens) (ru_CacheCreationInputTokens u);
              inputTokens = (if input0 < 0 then 0 else input0)
          in zeroAnthropicUsage\<lparr>au_InputTokens := inputTokens,
               au_OutputTokens := ru_OutputTokens u,
               au_CacheReadInputTokens := cachedTokens,
               au_CacheCreationInputTokens := ru_CacheCreationInputTokens u\<rparr>))"

definition containsAnthropicToolUseBlock :: "AnthropicContentBlock list \<Rightarrow> bool" where
  "containsAnthropicToolUseBlock blocks = list_ex (\<lambda>b. acb_Type b = ''tool_use'') blocks"

definition responsesStatusToAnthropicStopReason ::
  "string \<Rightarrow> ResponsesIncompleteDetails option \<Rightarrow> AnthropicContentBlock list \<Rightarrow> string" where
  "responsesStatusToAnthropicStopReason status details blocks =
     (if status = ''incomplete'' then
        (if (case details of Some d \<Rightarrow> rid_Reason d = ''max_output_tokens'' | None \<Rightarrow> False)
         then ''max_tokens'' else ''end_turn'')
      else if status = ''completed'' then
        (if containsAnthropicToolUseBlock blocks then ''tool_use'' else ''end_turn'')
      else ''end_turn'')"

definition summary_text :: "ResponsesSummary list \<Rightarrow> string" where
  \<comment> \<open>the loop over \<open>item.Summary\<close>\<close>
  "summary_text ss = concat (map (\<lambda>s. if rsum_Type s = ''summary_text'' then rsum_Text s else []) ss)"

definition web_search_query :: "ResponsesOutput \<Rightarrow> string" where
  "web_search_query item = (case ro_Action item of None \<Rightarrow> [] | Some a \<Rightarrow> wsa_Query a)"

definition query_json :: "string \<Rightarrow> string" where
  \<comment> \<open>\<open>json.Marshal(map[string]string{"query": query})\<close>\<close>
  "query_json q = ''{'' @ Marshal_string ''query'' @ '':'' @ Marshal_string q @ ''}''"

definition item_to_anthropic_blocks :: "ResponsesOutput \<Rightarrow> AnthropicContentBlock list" where
  \<comment> \<open>the body of the loop over \<open>resp.Output\<close>\<close>
  "item_to_anthropic_blocks item =
     (if ro_Type item = ''reasoning'' then
        (let summaryText = summary_text (ro_Summary item) in
         if summaryText \<noteq> [] \<or> TrimSpace (ro_EncryptedContent item) \<noteq> [] then
           [zeroBlock\<lparr>acb_Type := ''thinking'', acb_Thinking := summaryText,
              acb_Signature := ro_EncryptedContent item\<rparr>]
         else [])
      else if ro_Type item = ''message'' then
        concat (map (\<lambda>part. if rcp_Type part = ''output_text'' \<and> rcp_Text part \<noteq> [] then
            [zeroBlock\<lparr>acb_Type := ''text'', acb_Text := rcp_Text part\<rparr>] else []) (ro_Content item))
      else if ro_Type item = ''function_call'' then
        [zeroBlock\<lparr>acb_Type := ''tool_use'', acb_ID := fromResponsesCallID (ro_CallID item),
           acb_Name := ro_Name item,
           acb_Input := sanitizeAnthropicToolUseInput (ro_Name item) (ro_Arguments item)\<rparr>]
      else if ro_Type item = ''web_search_call'' then
        (let toolUseID = ''srvtoolu_'' @ ro_ID item in
         [zeroBlock\<lparr>acb_Type := ''server_tool_use'', acb_ID := toolUseID, acb_Name := ''web_search'',
            acb_Input := query_json (web_search_query item)\<rparr>,
          zeroBlock\<lparr>acb_Type := ''web_search_tool_result'', acb_ToolUseID := toolUseID,
            acb_Content := ''[]''\<rparr>])
      else [])"

definition ResponsesToAnthropic :: "ResponsesResponse \<Rightarrow> string \<Rightarrow> AnthropicResponse" where
  "ResponsesToAnthropic resp model =
     (let blocks0 = concat (map item_to_anthropic_blocks (rr_Output resp));
          blocks = (if blocks0 = [] then [zeroBlock\<lparr>acb_Type := ''text''\<rparr>] else blocks0)
      in zeroAnthropicResponse\<lparr>ar_ID := rr_ID resp, ar_Type := ''message'', ar_Role := ''assistant'',
           ar_Model := model, ar_Content := blocks,
           ar_StopReason := AnthropicStopReasonPtr
             (responsesStatusToAnthropicStopReason (rr_Status resp) (rr_IncompleteDetails resp) blocks),
           ar_Usage := (if rr_Usage resp \<noteq> None then anthropicUsageFromResponsesUsage (rr_Usage resp)
                        else zeroAnthropicUsage)\<rparr>)"

section \<open>The stream converter's state\<close>

record responsesTextPart =
  rtp_OutputIndex :: int
  rtp_ContentIndex :: int

record ra_state =
  ra_MessageStartSent :: bool
  ra_MessageStopSent :: bool
  ra_ContentBlockIndex :: int
  ra_ContentBlockOpen :: bool
  ra_CurrentBlockType :: string
  ra_CurrentToolName :: string
  ra_CurrentToolArgs :: string
  ra_CurrentToolHadDelta :: bool
  ra_PendingThinkingSignature :: string
  ra_HasToolCall :: bool
  ra_OutputIndexToBlockIdx :: "int \<rightharpoonup> int"
  ra_textByPart :: "responsesTextPart \<rightharpoonup> string"
  ra_textDelivered :: bool
  ra_InputTokens :: int
  ra_OutputTokens :: int
  ra_CacheReadInputTokens :: int
  ra_CacheCreationInputTokens :: int
  ra_ResponseID :: string
  ra_Model :: string
  ra_Created :: int

definition NewResponsesEventToAnthropicState :: "int \<Rightarrow> ra_state" where
  \<comment> \<open>the argument is \<open>time.Now().Unix()\<close>\<close>
  "NewResponsesEventToAnthropicState now = \<lparr>ra_MessageStartSent = False, ra_MessageStopSent = False,
     ra_ContentBlockIndex = 0, ra_ContentBlockOpen = False, ra_CurrentBlockType = [],
     ra_CurrentToolName = [], ra_CurrentToolArgs = [], ra_CurrentToolHadDelta = False,
     ra_PendingThinkingSignature = [], ra_HasToolCall = False,
     ra_OutputIndexToBlockIdx = Map.empty, ra_textByPart = Map.empty, ra_textDelivered = False,
     ra_InputTokens = 0, ra_OutputTokens = 0, ra_CacheReadInputTokens = 0,
     ra_CacheCreationInputTokens = 0, ra_ResponseID = [], ra_Model = [], ra_Created = now\<rparr>"

definition block_delta :: "int \<Rightarrow> AnthropicDelta \<Rightarrow> AnthropicStreamEvent" where
  "block_delta idx d = zeroASE\<lparr>ase_Type := ''content_block_delta'', ase_Index := Some idx, ase_Delta := Some d\<rparr>"

definition block_start :: "int \<Rightarrow> AnthropicContentBlock \<Rightarrow> AnthropicStreamEvent" where
  "block_start idx b = zeroASE\<lparr>ase_Type := ''content_block_start'', ase_Index := Some idx, ase_ContentBlock := Some b\<rparr>"

definition block_stop :: "int \<Rightarrow> AnthropicStreamEvent" where
  "block_stop idx = zeroASE\<lparr>ase_Type := ''content_block_stop'', ase_Index := Some idx\<rparr>"

definition message_end :: "string \<Rightarrow> AnthropicUsage \<Rightarrow> AnthropicStreamEvent list" where
  \<comment> \<open>the \<open>message_delta\<close> and \<open>message_stop\<close> pair that ends every Anthropic stream\<close>
  "message_end stopReason usage =
     [zeroASE\<lparr>ase_Type := ''message_delta'', ase_Delta := Some (zeroDelta\<lparr>ad_StopReason := stopReason\<rparr>),
        ase_Usage := Some usage\<rparr>,
      zeroASE\<lparr>ase_Type := ''message_stop''\<rparr>]"

definition message_start :: "string \<Rightarrow> string \<Rightarrow> AnthropicStreamEvent" where
  "message_start i model =
     zeroASE\<lparr>ase_Type := ''message_start'',
       ase_Message := Some (zeroAnthropicResponse\<lparr>ar_ID := i, ar_Type := ''message'', ar_Role := ''assistant'',
          ar_Content := [], ar_Model := model, ar_StopReason := None\<rparr>)\<rparr>"

section \<open>The handlers\<close>

definition closeCurrentBlock :: "ra_state \<Rightarrow> AnthropicStreamEvent list \<times> ra_state" where
  "closeCurrentBlock s =
     (if \<not> ra_ContentBlockOpen s then ([], s)
      else
        (let idx = ra_ContentBlockIndex s;
             thinking = (ra_CurrentBlockType s = ''thinking'');
             sig = TrimSpace (ra_PendingThinkingSignature s);
             events = (if thinking \<and> sig \<noteq> [] then
                 [block_delta idx (zeroDelta\<lparr>ad_Type := ''signature_delta'', ad_Signature := sig\<rparr>)] else []);
             s1 = (if thinking then s\<lparr>ra_PendingThinkingSignature := []\<rparr> else s)
         in (events @ [block_stop idx],
             s1\<lparr>ra_ContentBlockOpen := False, ra_ContentBlockIndex := idx + 1, ra_CurrentToolName := [],
                ra_CurrentToolArgs := [], ra_CurrentToolHadDelta := False\<rparr>)))"

definition resToAnthHandleBlockDone :: "ra_state \<Rightarrow> AnthropicStreamEvent list \<times> ra_state" where
  "resToAnthHandleBlockDone s = (if \<not> ra_ContentBlockOpen s then ([], s) else closeCurrentBlock s)"

definition resToAnthHandleCreated ::
  "ResponsesStreamEvent \<Rightarrow> ra_state \<Rightarrow> AnthropicStreamEvent list \<times> ra_state" where
  "resToAnthHandleCreated evt s =
     (let s1 = (case rse_Response evt of None \<Rightarrow> s
        | Some r \<Rightarrow> s\<lparr>ra_ResponseID := rr_ID r,
            ra_Model := (if ra_Model s = [] then rr_Model r else ra_Model s)\<rparr>)
      in if ra_MessageStartSent s1 then ([], s1)
         else ([message_start (ra_ResponseID s1) (ra_Model s1)], s1\<lparr>ra_MessageStartSent := True\<rparr>))"

definition resToAnthHandleOutputItemAdded ::
  "ResponsesStreamEvent \<Rightarrow> ra_state \<Rightarrow> AnthropicStreamEvent list \<times> ra_state" where
  "resToAnthHandleOutputItemAdded evt s =
     (case rse_Item evt of None \<Rightarrow> ([], s)
      | Some item \<Rightarrow>
        if ro_Type item = ''function_call'' \<or> ro_Type item = ''custom_tool_call'' then
          (let (events, s1) = closeCurrentBlock s; idx = ra_ContentBlockIndex s1 in
           (events @ [block_start idx (zeroBlock\<lparr>acb_Type := ''tool_use'',
                acb_ID := fromResponsesCallID (ro_CallID item), acb_Name := ro_Name item, acb_Input := ''{}''\<rparr>)],
            s1\<lparr>ra_OutputIndexToBlockIdx := (ra_OutputIndexToBlockIdx s1)(rse_OutputIndex evt \<mapsto> idx),
               ra_ContentBlockOpen := True, ra_CurrentBlockType := ''tool_use'',
               ra_CurrentToolName := ro_Name item, ra_CurrentToolArgs := [],
               ra_CurrentToolHadDelta := False, ra_HasToolCall := True\<rparr>))
        else if ro_Type item = ''reasoning'' then
          (let (events, s1) = closeCurrentBlock s; idx = ra_ContentBlockIndex s1 in
           (events @ [block_start idx (zeroBlock\<lparr>acb_Type := ''thinking''\<rparr>)],
            s1\<lparr>ra_OutputIndexToBlockIdx := (ra_OutputIndexToBlockIdx s1)(rse_OutputIndex evt \<mapsto> idx),
               ra_ContentBlockOpen := True, ra_CurrentBlockType := ''thinking'',
               ra_PendingThinkingSignature := TrimSpace (ro_EncryptedContent item)\<rparr>))
        else ([], s))"

definition resToAnthEmitText ::
  "string \<Rightarrow> responsesTextPart \<Rightarrow> ra_state \<Rightarrow> AnthropicStreamEvent list \<times> ra_state" where
  "resToAnthEmitText text part s =
     (if text = [] then ([], s)
      else
        (let (opening, s1) =
               (if \<not> ra_ContentBlockOpen s \<or> ra_CurrentBlockType s \<noteq> ''text'' then
                  (let (events, s0) = closeCurrentBlock s in
                   (events @ [block_start (ra_ContentBlockIndex s0) (zeroBlock\<lparr>acb_Type := ''text''\<rparr>)],
                    s0\<lparr>ra_ContentBlockOpen := True, ra_CurrentBlockType := ''text''\<rparr>))
                else ([], s));
             delivered = get_or (ra_textByPart s1) [] part
         in (opening @ [block_delta (ra_ContentBlockIndex s1)
                          (zeroDelta\<lparr>ad_Type := ''text_delta'', ad_Text := text\<rparr>)],
             s1\<lparr>ra_textByPart := (ra_textByPart s1)(part \<mapsto> delivered @ text), ra_textDelivered := True\<rparr>)))"

definition resToAnthTextPartOf :: "ResponsesStreamEvent \<Rightarrow> responsesTextPart" where
  "resToAnthTextPartOf evt = \<lparr>rtp_OutputIndex = rse_OutputIndex evt, rtp_ContentIndex = rse_ContentIndex evt\<rparr>"

definition resToAnthHandleTextDelta ::
  "ResponsesStreamEvent \<Rightarrow> ra_state \<Rightarrow> AnthropicStreamEvent list \<times> ra_state" where
  "resToAnthHandleTextDelta evt s = resToAnthEmitText (rse_Delta evt) (resToAnthTextPartOf evt) s"

definition resToAnthRecoverText ::
  "string \<Rightarrow> responsesTextPart \<Rightarrow> ra_state \<Rightarrow> AnthropicStreamEvent list \<times> ra_state" where
  "resToAnthRecoverText text part s =
     (let known = (ra_textByPart s part \<noteq> None) in
      if \<not> known \<and> ra_textDelivered s then ([], s)
      else
        (let delivered = get_or (ra_textByPart s) [] part in
         if text = delivered \<or> \<not> HasPrefix text delivered then ([], s)
         else resToAnthEmitText (drop (length delivered) text) part s))"

definition resToAnthHandleTextDone ::
  "ResponsesStreamEvent \<Rightarrow> ra_state \<Rightarrow> AnthropicStreamEvent list \<times> ra_state" where
  "resToAnthHandleTextDone evt s =
     (if ra_MessageStopSent s then resToAnthHandleBlockDone s
      else
        (let (events, s1) = resToAnthRecoverText (rse_Text evt) (resToAnthTextPartOf evt) s;
             (closing, s2) = resToAnthHandleBlockDone s1
         in (events @ closing, s2)))"

definition json_args_delta :: "int \<Rightarrow> string \<Rightarrow> AnthropicStreamEvent" where
  "json_args_delta idx partial = block_delta idx (zeroDelta\<lparr>ad_Type := ''input_json_delta'', ad_PartialJSON := partial\<rparr>)"

definition resToAnthHandleFuncArgsDelta ::
  "ResponsesStreamEvent \<Rightarrow> ra_state \<Rightarrow> AnthropicStreamEvent list \<times> ra_state" where
  "resToAnthHandleFuncArgsDelta evt s =
     (if rse_Delta evt = [] then ([], s)
      else if ra_CurrentBlockType s = ''tool_use'' \<and> ra_CurrentToolName s = ''Read'' then
        (let s1 = s\<lparr>ra_CurrentToolArgs := ra_CurrentToolArgs s @ rse_Delta evt\<rparr> in
         if ra_CurrentToolHadDelta s1 \<or> \<not> Valid (ra_CurrentToolArgs s1) then ([], s1)
         else (case ra_OutputIndexToBlockIdx s1 (rse_OutputIndex evt) of
             None \<Rightarrow> ([], s1)
           | Some blockIdx \<Rightarrow>
               ([json_args_delta blockIdx
                   (sanitizeAnthropicToolUseInput (ra_CurrentToolName s1) (ra_CurrentToolArgs s1))],
                s1\<lparr>ra_CurrentToolHadDelta := True\<rparr>)))
      else
        (let s1 = (if ra_CurrentBlockType s = ''tool_use'' then s\<lparr>ra_CurrentToolHadDelta := True\<rparr> else s) in
         case ra_OutputIndexToBlockIdx s1 (rse_OutputIndex evt) of
           None \<Rightarrow> ([], s1)
         | Some blockIdx \<Rightarrow> ([json_args_delta blockIdx (rse_Delta evt)], s1)))"

definition resToAnthHandleFuncArgsDone ::
  "ResponsesStreamEvent \<Rightarrow> ra_state \<Rightarrow> AnthropicStreamEvent list \<times> ra_state" where
  "resToAnthHandleFuncArgsDone evt s =
     (if \<not> ra_ContentBlockOpen s then ([], s)
      else if ra_CurrentBlockType s \<noteq> ''tool_use'' then resToAnthHandleBlockDone s
      else
        (let raw = (if rse_Arguments evt = [] then ra_CurrentToolArgs s else rse_Arguments evt) in
         if raw = [] \<or> ra_CurrentToolHadDelta s then closeCurrentBlock s
         else
           (let read = (ra_CurrentToolName s = ''Read'');
                sanitized = sanitizeAnthropicToolUseInput (ra_CurrentToolName s) raw
            in if read \<and> sanitized = [] then closeCurrentBlock s
               else
                 (let raw' = (if read then sanitized else raw);
                      blockIdx = get_or (ra_OutputIndexToBlockIdx s) (ra_ContentBlockIndex s) (rse_OutputIndex evt)
                  in if \<not> ra_ContentBlockOpen s \<or> blockIdx \<noteq> ra_ContentBlockIndex s then ([], s)
                     else
                       (let (closing, s1) = closeCurrentBlock s
                        in (json_args_delta blockIdx raw' # closing, s1))))))"

definition resToAnthHandleReasoningDelta ::
  "ResponsesStreamEvent \<Rightarrow> ra_state \<Rightarrow> AnthropicStreamEvent list \<times> ra_state" where
  "resToAnthHandleReasoningDelta evt s =
     (if rse_Delta evt = [] then ([], s)
      else case ra_OutputIndexToBlockIdx s (rse_OutputIndex evt) of
        None \<Rightarrow> ([], s)
      | Some blockIdx \<Rightarrow>
          ([block_delta blockIdx (zeroDelta\<lparr>ad_Type := ''thinking_delta'', ad_Thinking := rse_Delta evt\<rparr>)], s))"

definition resToAnthHandleWebSearchDone ::
  "ResponsesOutput \<Rightarrow> ra_state \<Rightarrow> AnthropicStreamEvent list \<times> ra_state" where
  \<comment> \<open>the argument is \<open>evt.Item\<close>, which the caller has checked to be non-nil\<close>
  "resToAnthHandleWebSearchDone item s =
     (let (events, s1) = closeCurrentBlock s;
          toolUseID = ''srvtoolu_'' @ ro_ID item;
          idx1 = ra_ContentBlockIndex s1;
          idx2 = idx1 + 1
      in (events @
          [block_start idx1 (zeroBlock\<lparr>acb_Type := ''server_tool_use'', acb_ID := toolUseID,
              acb_Name := ''web_search'', acb_Input := query_json (web_search_query item)\<rparr>),
           block_stop idx1,
           block_start idx2 (zeroBlock\<lparr>acb_Type := ''web_search_tool_result'', acb_ToolUseID := toolUseID,
              acb_Content := ''[]''\<rparr>),
           block_stop idx2],
          s1\<lparr>ra_ContentBlockIndex := idx2 + 1\<rparr>))"

definition resToAnthHandleOutputItemDone ::
  "ResponsesStreamEvent \<Rightarrow> ra_state \<Rightarrow> AnthropicStreamEvent list \<times> ra_state" where
  "resToAnthHandleOutputItemDone evt s =
     (case rse_Item evt of None \<Rightarrow> ([], s)
      | Some item \<Rightarrow>
        if ro_Type item = ''web_search_call'' \<and> ro_Status item = ''completed''
        then resToAnthHandleWebSearchDone item s
        else
          (let sig = TrimSpace (ro_EncryptedContent item);
               s1 = (if ro_Type item = ''reasoning'' \<and> sig \<noteq> [] then s\<lparr>ra_PendingThinkingSignature := sig\<rparr> else s)
           in if ra_ContentBlockOpen s1 then closeCurrentBlock s1 else ([], s1)))"

text \<open>
  The two nested loops of \<open>resToAnthRecoverTerminalText\<close>: over the content parts of one
  item, and over the items.
\<close>

fun recover_parts :: "int \<Rightarrow> int \<Rightarrow> ResponsesContentPart list \<Rightarrow> ra_state \<Rightarrow> AnthropicStreamEvent list \<times> ra_state" where
  "recover_parts outputIndex contentIndex [] s = ([], s)"
| "recover_parts outputIndex contentIndex (content # rest) s =
     (let (e1, s1) = (if rcp_Type content \<noteq> ''output_text'' then ([], s)
            else resToAnthEmitText (rcp_Text content)
                   \<lparr>rtp_OutputIndex = outputIndex, rtp_ContentIndex = contentIndex\<rparr> s);
          (e2, s2) = recover_parts outputIndex (contentIndex + 1) rest s1
      in (e1 @ e2, s2))"

fun recover_items :: "int \<Rightarrow> ResponsesOutput list \<Rightarrow> ra_state \<Rightarrow> AnthropicStreamEvent list \<times> ra_state" where
  "recover_items outputIndex [] s = ([], s)"
| "recover_items outputIndex (item # rest) s =
     (let (e1, s1) = (if ro_Type item \<noteq> ''message'' then ([], s)
            else recover_parts outputIndex 0 (ro_Content item) s);
          (e2, s2) = recover_items (outputIndex + 1) rest s1
      in (e1 @ e2, s2))"

definition resToAnthRecoverTerminalText ::
  "ResponsesStreamEvent \<Rightarrow> ra_state \<Rightarrow> AnthropicStreamEvent list \<times> ra_state" where
  "resToAnthRecoverTerminalText evt s =
     (case rse_Response evt of None \<Rightarrow> ([], s)
      | Some r \<Rightarrow>
        if ra_textDelivered s then ([], s)
        else
          (let (events, s1) = recover_items 0 (rr_Output r) s in
           if events \<noteq> [] then (let (closing, s2) = closeCurrentBlock s1 in (events @ closing, s2))
           else (events, s1)))"

definition ra_set_usage :: "ResponsesUsage option \<Rightarrow> ra_state \<Rightarrow> ra_state" where
  \<comment> \<open>\<open>if usage != nil\<close>, copy it into the state's counters\<close>
  "ra_set_usage u s =
     (if u = None then s
      else (let usage = anthropicUsageFromResponsesUsage u in
        s\<lparr>ra_InputTokens := au_InputTokens usage, ra_OutputTokens := au_OutputTokens usage,
          ra_CacheReadInputTokens := au_CacheReadInputTokens usage,
          ra_CacheCreationInputTokens := au_CacheCreationInputTokens usage\<rparr>))"

definition ra_usage :: "ra_state \<Rightarrow> AnthropicUsage" where
  "ra_usage s = zeroAnthropicUsage\<lparr>au_InputTokens := ra_InputTokens s, au_OutputTokens := ra_OutputTokens s,
     au_CacheReadInputTokens := ra_CacheReadInputTokens s,
     au_CacheCreationInputTokens := ra_CacheCreationInputTokens s\<rparr>"

definition ra_stop_reason :: "ResponsesStreamEvent \<Rightarrow> bool \<Rightarrow> string" where
  \<comment> \<open>the \<open>switch evt.Response.Status\<close>; the flag is \<open>state.HasToolCall\<close>\<close>
  "ra_stop_reason evt hasToolCall =
     (case rse_Response evt of None \<Rightarrow> ''end_turn''
      | Some r \<Rightarrow>
        if rr_Status r = ''incomplete'' then
          (if (case rr_IncompleteDetails r of Some d \<Rightarrow> rid_Reason d = ''max_output_tokens'' | None \<Rightarrow> False)
           then ''max_tokens'' else ''end_turn'')
        else if rr_Status r = ''completed'' \<and> hasToolCall then ''tool_use''
        else ''end_turn'')"

definition resToAnthHandleCompleted ::
  "ResponsesStreamEvent \<Rightarrow> ra_state \<Rightarrow> AnthropicStreamEvent list \<times> ra_state" where
  "resToAnthHandleCompleted evt s =
     (if ra_MessageStopSent s then ([], s)
      else
        (let (e1, s1) = closeCurrentBlock s;
             (e2, s2) = resToAnthRecoverTerminalText evt s1;
             s3 = ra_set_usage (rse_Usage evt) s2;
             s4 = (case rse_Response evt of None \<Rightarrow> s3 | Some r \<Rightarrow> ra_set_usage (rr_Usage r) s3)
         in (e1 @ e2 @ message_end (ra_stop_reason evt (ra_HasToolCall s4)) (ra_usage s4),
             s4\<lparr>ra_MessageStopSent := True\<rparr>)))"

definition ResponsesEventToAnthropicEvents ::
  "ResponsesStreamEvent \<Rightarrow> ra_state \<Rightarrow> AnthropicStreamEvent list \<times> ra_state" where
  "ResponsesEventToAnthropicEvents evt s =
     (let t = rse_Type evt in
      if t = ''response.created'' then resToAnthHandleCreated evt s
      else if t = ''response.output_item.added'' then resToAnthHandleOutputItemAdded evt s
      else if t = ''response.output_text.delta'' then resToAnthHandleTextDelta evt s
      else if t = ''response.output_text.done'' then resToAnthHandleTextDone evt s
      else if t = ''response.function_call_arguments.delta'' \<or> t = ''response.custom_tool_call_input.delta''
        then resToAnthHandleFuncArgsDelta evt s
      else if t = ''response.function_call_arguments.done'' then resToAnthHandleFuncArgsDone evt s
      else if t = ''response.output_item.done'' then resToAnthHandleOutputItemDone evt s
      else if t = ''response.reasoning_summary_text.delta'' \<or> t = ''response.reasoning_text.delta''
        then resToAnthHandleReasoningDelta evt s
      else if t = ''response.reasoning_summary_text.done'' then ([], s)
      else if t = ''response.completed'' \<or> t = ''response.done'' \<or> t = ''response.incomplete'' \<or> t = ''response.failed''
        then resToAnthHandleCompleted evt s
      else ([], s))"

definition FinalizeResponsesAnthropicStream :: "ra_state \<Rightarrow> AnthropicStreamEvent list \<times> ra_state" where
  "FinalizeResponsesAnthropicStream s =
     (if \<not> ra_MessageStartSent s \<or> ra_MessageStopSent s then ([], s)
      else
        (let (events, s1) = closeCurrentBlock s;
             stopReason = (if ra_HasToolCall s1 then ''tool_use'' else ''end_turn'')
         in (events @ message_end stopReason (ra_usage s1), s1\<lparr>ra_MessageStopSent := True\<rparr>)))"

end
