(* ===== verification/Protocols.thy ===== *)
theory Protocols
  imports ApiTypes
begin

text \<open>
  Abstract specifications of the event streams the gateway produces and consumes, as
  acceptors: partial transition functions on a small protocol state.  They state what a
  client of the Anthropic Messages stream and of the OpenAI Responses stream may rely on,
  independently of any converter.
\<close>

section \<open>The Anthropic Messages stream\<close>

text \<open>
  A stream is \<open>message_start\<close>, then content blocks one after the other, each opened with
  the next index, filled by deltas of its own kind and closed before the next one, then
  one \<open>message_delta\<close> with a stop reason and \<open>message_stop\<close>.
\<close>

record anth_view =
  av_started :: bool
  av_ended :: bool
  av_stopped :: bool
  av_next :: int
  av_open :: "string option"

definition anth_initial :: anth_view where
  "anth_initial = \<lparr>av_started = False, av_ended = False, av_stopped = False, av_next = 0, av_open = None\<rparr>"

definition delta_fits :: "string \<Rightarrow> string \<Rightarrow> bool" where
  "delta_fits block delta =
     (if block = ''text'' then delta = ''text_delta''
      else if block = ''thinking'' then delta = ''thinking_delta'' \<or> delta = ''signature_delta''
      else if block = ''tool_use'' then delta = ''input_json_delta''
      else False)"

definition anth_accept :: "anth_view \<Rightarrow> AnthropicStreamEvent \<Rightarrow> anth_view option" where
  "anth_accept v e =
     (if ase_Type e = ''message_start'' then
        (if \<not> av_started v \<and> ase_Message e \<noteq> None then Some (v\<lparr>av_started := True\<rparr>) else None)
      else if \<not> av_started v \<or> av_stopped v then None
      else if ase_Type e = ''message_stop'' then
        (if av_ended v then Some (v\<lparr>av_stopped := True\<rparr>) else None)
      else if av_ended v then None
      else if ase_Type e = ''content_block_start'' then
        (case (ase_Index e, ase_ContentBlock e) of
           (Some i, Some b) \<Rightarrow> if av_open v = None \<and> i = av_next v
             then Some (v\<lparr>av_open := Some (acb_Type b)\<rparr>) else None
         | _ \<Rightarrow> None)
      else if ase_Type e = ''content_block_delta'' then
        (case (ase_Index e, av_open v, ase_Delta e) of
           (Some i, Some t, Some d) \<Rightarrow> if i = av_next v \<and> delta_fits t (ad_Type d) then Some v else None
         | _ \<Rightarrow> None)
      else if ase_Type e = ''content_block_stop'' then
        (case ase_Index e of
           Some i \<Rightarrow> if av_open v \<noteq> None \<and> i = av_next v
             then Some (v\<lparr>av_open := None, av_next := i + 1\<rparr>) else None
         | None \<Rightarrow> None)
      else if ase_Type e = ''message_delta'' then
        (case ase_Delta e of
           Some d \<Rightarrow> if av_open v = None \<and> ad_StopReason d \<noteq> [] then Some (v\<lparr>av_ended := True\<rparr>) else None
         | None \<Rightarrow> None)
      else None)"

definition anth_complete :: "anth_view \<Rightarrow> bool" where
  "anth_complete v \<longleftrightarrow> av_started v \<and> av_stopped v \<and> av_open v = None"

text \<open>
  The weaker contract that needs no assumption on the upstream: blocks are opened and
  closed one after the other with consecutive indices, and a delta names a block that has
  been opened (though possibly closed since).
\<close>

record nest_view =
  nv_next :: int
  nv_open :: bool

definition nest_accept :: "nest_view \<Rightarrow> AnthropicStreamEvent \<Rightarrow> nest_view option" where
  "nest_accept v e =
     (if ase_Type e = ''content_block_start'' then
        (if \<not> nv_open v \<and> ase_Index e = Some (nv_next v) then Some (v\<lparr>nv_open := True\<rparr>) else None)
      else if ase_Type e = ''content_block_delta'' then
        (case ase_Index e of
           Some i \<Rightarrow> if 0 \<le> i \<and> (i < nv_next v \<or> i = nv_next v \<and> nv_open v) then Some v else None
         | None \<Rightarrow> None)
      else if ase_Type e = ''content_block_stop'' then
        (if nv_open v \<and> ase_Index e = Some (nv_next v)
         then Some (v\<lparr>nv_open := False, nv_next := nv_next v + 1\<rparr>) else None)
      else Some v)"

text \<open>
  What a converter has to know about the block indices it remembers (\<open>m\<close>) for its deltas
  to meet that contract: each belongs to a block below \<open>n\<close>, or to block \<open>n\<close> while it is open.
\<close>

definition known_blocks :: "('k \<rightharpoonup> int) \<Rightarrow> int \<Rightarrow> bool \<Rightarrow> bool" where
  "known_blocks m n opn \<longleftrightarrow> 0 \<le> n \<and> (\<forall>k v. m k = Some v \<longrightarrow> 0 \<le> v \<and> (v < n \<or> v = n \<and> opn))"

lemma known_blocks_next [intro]: "known_blocks m n opn \<Longrightarrow> known_blocks m (n + 1) opn'"
  by (fastforce simp: known_blocks_def)

lemma known_blocks_later: "known_blocks m n opn \<Longrightarrow> n < k \<Longrightarrow> known_blocks m k opn'"
  by (fastforce simp: known_blocks_def)

lemma known_blocks_open [intro]: "known_blocks m n opn \<Longrightarrow> known_blocks m n True"
  by (fastforce simp: known_blocks_def)

lemma known_blocks_bind [intro]: "known_blocks m n opn \<Longrightarrow> known_blocks (m(k \<mapsto> n)) n True"
  by (fastforce simp: known_blocks_def)

lemma known_blocks_get:
  "known_blocks m n opn \<Longrightarrow> m k = Some v \<Longrightarrow> 0 \<le> v \<and> (v < n \<or> v = n \<and> opn)"
  by (auto simp: known_blocks_def)

lemma known_blocks_nonneg [dest]: "known_blocks m n opn \<Longrightarrow> 0 \<le> n"
  by (simp add: known_blocks_def)

lemma known_blocks_empty [simp]: "known_blocks Map.empty 0 opn"
  by (simp add: known_blocks_def)

section \<open>The OpenAI Responses stream\<close>

text \<open>
  A stream is \<open>response.created\<close>, then output items, then one terminal event when no item
  is open.  An item is added under the next output index and done under the same index with
  the type it was added with.  Inside a message item, text deltas go to the text part that
  is open; inside a function call, argument deltas come before the arguments are done; and
  so on.  Several items may be open at once.
\<close>

record resp_item =
  ri_type :: string
  ri_part :: bool
  ri_parts :: int
  ri_done :: bool

record resp_view =
  rv_created :: bool
  rv_completed :: bool
  rv_nextOut :: int
  rv_items :: "int \<rightharpoonup> resp_item"
  rv_nopen :: nat

definition resp_initial :: resp_view where
  "resp_initial = \<lparr>rv_created = False, rv_completed = False, rv_nextOut = 0, rv_items = Map.empty, rv_nopen = 0\<rparr>"

definition is_terminal_type :: "string \<Rightarrow> bool" where
  "is_terminal_type t \<longleftrightarrow> t = ''response.completed'' \<or> t = ''response.done''
     \<or> t = ''response.incomplete'' \<or> t = ''response.failed''"

definition new_item :: "string \<Rightarrow> resp_item" where
  "new_item t = \<lparr>ri_type = t, ri_part = False, ri_parts = 0, ri_done = False\<rparr>"

text \<open>What an event does to the open item it names; None when the item does not admit it.\<close>

definition item_accept :: "resp_item \<Rightarrow> ResponsesStreamEvent \<Rightarrow> resp_item option" where
  "item_accept i e =
     (let t = rse_Type e; here = (ri_type i = ''message'' \<and> ri_part i \<and> rse_ContentIndex e = ri_parts i) in
      if t = ''response.content_part.added'' then
        (if ri_type i = ''message'' \<and> \<not> ri_part i \<and> rse_ContentIndex e = ri_parts i
         then Some (i\<lparr>ri_part := True, ri_done := False\<rparr>) else None)
      else if t = ''response.output_text.delta'' then (if here \<and> \<not> ri_done i then Some i else None)
      else if t = ''response.output_text.done'' then
        (if here \<and> \<not> ri_done i then Some (i\<lparr>ri_done := True\<rparr>) else None)
      else if t = ''response.content_part.done'' then
        (if here \<and> ri_done i then Some (i\<lparr>ri_part := False, ri_done := False, ri_parts := ri_parts i + 1\<rparr>) else None)
      else if t = ''response.reasoning_summary_part.added'' \<or> t = ''response.reasoning_summary_part.done''
        then (if ri_type i = ''reasoning'' then Some i else None)
      else if t = ''response.reasoning_summary_text.delta'' then
        (if ri_type i = ''reasoning'' \<and> \<not> ri_done i then Some i else None)
      else if t = ''response.reasoning_summary_text.done'' then
        (if ri_type i = ''reasoning'' \<and> \<not> ri_done i then Some (i\<lparr>ri_done := True\<rparr>) else None)
      else if t = ''response.function_call_arguments.delta'' then
        (if ri_type i = ''function_call'' \<and> \<not> ri_done i then Some i else None)
      else if t = ''response.function_call_arguments.done'' then
        (if ri_type i = ''function_call'' \<and> \<not> ri_done i then Some (i\<lparr>ri_done := True\<rparr>) else None)
      else if t = ''response.custom_tool_call_input.delta'' then
        (if ri_type i = ''custom_tool_call'' \<and> \<not> ri_done i then Some i else None)
      else if t = ''response.custom_tool_call_input.done'' then
        (if ri_type i = ''custom_tool_call'' \<and> \<not> ri_done i then Some (i\<lparr>ri_done := True\<rparr>) else None)
      else None)"

definition resp_accept :: "resp_view \<Rightarrow> ResponsesStreamEvent \<Rightarrow> resp_view option" where
  "resp_accept v e =
     (let o_idx = rse_OutputIndex e in
      if rse_Type e = ''response.created'' then
        (if \<not> rv_created v then Some (v\<lparr>rv_created := True\<rparr>) else None)
      else if \<not> rv_created v \<or> rv_completed v then None
      else if rse_Type e = ''response.output_item.added'' then
        (case rse_Item e of
           Some it \<Rightarrow> if o_idx = rv_nextOut v
             then Some (v\<lparr>rv_items := (rv_items v)(o_idx \<mapsto> new_item (ro_Type it)),
                         rv_nextOut := o_idx + 1, rv_nopen := Suc (rv_nopen v)\<rparr>) else None
         | None \<Rightarrow> None)
      else if rse_Type e = ''response.output_item.done'' then
        (case (rse_Item e, rv_items v o_idx) of
           (Some it, Some i) \<Rightarrow> if ro_Type it = ri_type i \<and> \<not> ri_part i
             then Some (v\<lparr>rv_items := (rv_items v)(o_idx := None), rv_nopen := rv_nopen v - 1\<rparr>) else None
         | _ \<Rightarrow> None)
      else if is_terminal_type (rse_Type e) then
        (if rv_nopen v = 0 then Some (v\<lparr>rv_completed := True\<rparr>) else None)
      else (case rv_items v o_idx of None \<Rightarrow> None
        | Some i \<Rightarrow> (case item_accept i e of None \<Rightarrow> None
            | Some i' \<Rightarrow> Some (v\<lparr>rv_items := (rv_items v)(o_idx \<mapsto> i')\<rparr>))))"

definition resp_complete :: "resp_view \<Rightarrow> bool" where
  "resp_complete v \<longleftrightarrow> rv_created v \<and> rv_completed v \<and> rv_nopen v = 0"

text \<open>A stream whose items are not interleaved: at most one is open at a time.\<close>

definition seq_resp_accept :: "resp_view \<Rightarrow> ResponsesStreamEvent \<Rightarrow> resp_view option" where
  "seq_resp_accept v e =
     (if rse_Type e = ''response.output_item.added'' \<and> rv_nopen v \<noteq> 0 then None else resp_accept v e)"

lemma seq_resp_accept_resp: "seq_resp_accept v e = Some v' \<Longrightarrow> resp_accept v e = Some v'"
  by (simp add: seq_resp_accept_def split: if_splits)

lemma seq_run_resp: "run_acc seq_resp_accept v es = Some v' \<Longrightarrow> run_acc resp_accept v es = Some v'"
  by (induction es arbitrary: v) (auto dest: seq_resp_accept_resp split: option.splits)

section \<open>What the streams carry\<close>

definition anth_text_of :: "AnthropicStreamEvent \<Rightarrow> string" where
  "anth_text_of e = (if ase_Type e = ''content_block_delta''
     then (case ase_Delta e of Some d \<Rightarrow> (if ad_Type d = ''text_delta'' then ad_Text d else []) | None \<Rightarrow> [])
     else [])"

definition anth_text :: "AnthropicStreamEvent list \<Rightarrow> string" where
  "anth_text es = concat (map anth_text_of es)"

definition resp_text_of :: "ResponsesStreamEvent \<Rightarrow> string" where
  "resp_text_of e = (if rse_Type e = ''response.output_text.delta'' then rse_Delta e else [])"

definition resp_text :: "ResponsesStreamEvent list \<Rightarrow> string" where
  "resp_text es = concat (map resp_text_of es)"

lemma anth_text_append [simp]: "anth_text (xs @ ys) = anth_text xs @ anth_text ys"
  by (simp add: anth_text_def)

lemma anth_text_Nil [simp]: "anth_text [] = []"
  by (simp add: anth_text_def)

lemma anth_text_Cons [simp]: "anth_text (x # xs) = anth_text_of x @ anth_text xs"
  by (simp add: anth_text_def)

lemma resp_text_append [simp]: "resp_text (xs @ ys) = resp_text xs @ resp_text ys"
  by (simp add: resp_text_def)

lemma resp_text_Nil [simp]: "resp_text [] = []"
  by (simp add: resp_text_def)

lemma resp_text_Cons [simp]: "resp_text (x # xs) = resp_text_of x @ resp_text xs"
  by (simp add: resp_text_def)

end
