(* ===== verification/ResponsesToAnthropicCorrect.thy ===== *)
theory ResponsesToAnthropicCorrect
  imports ResponsesToAnthropic Protocols
begin

text \<open>
  Correctness of the Responses to Anthropic stream converter.  \<open>nests\<close> is the
  unconditional contract (block nesting, whatever the upstream sends); \<open>conforms\<close> the full
  Messages protocol, for an upstream whose items are not interleaved.
\<close>

section \<open>Blocks nest, whatever the upstream sends\<close>

definition ra_nest :: "ra_state \<Rightarrow> nest_view" where
  "ra_nest s = \<lparr>nv_next = ra_ContentBlockIndex s, nv_open = ra_ContentBlockOpen s\<rparr>"

definition ra_known :: "ra_state \<Rightarrow> bool" where
  \<comment> \<open>every block index the converter remembers belongs to a block it has opened\<close>
  "ra_known s = known_blocks (ra_OutputIndexToBlockIdx s) (ra_ContentBlockIndex s) (ra_ContentBlockOpen s)"

lemmas ra_events = block_delta_def block_start_def block_stop_def json_args_delta_def message_start_def message_end_def

lemma nest_accept_events [simp]:
  "nest_accept v (block_delta i d) = (if 0 \<le> i \<and> (i < nv_next v \<or> i = nv_next v \<and> nv_open v) then Some v else None)"
  "nest_accept v (json_args_delta i p) = (if 0 \<le> i \<and> (i < nv_next v \<or> i = nv_next v \<and> nv_open v) then Some v else None)"
  "nest_accept v (block_start i b) = (if \<not> nv_open v \<and> i = nv_next v then Some (v\<lparr>nv_open := True\<rparr>) else None)"
  "nest_accept v (block_stop i) = (if nv_open v \<and> i = nv_next v then Some (v\<lparr>nv_open := False, nv_next := nv_next v + 1\<rparr>) else None)"
  "nest_accept v (message_start m k) = Some v"
  "run_acc nest_accept v (message_end r u) = Some v"
  by (auto simp: nest_accept_def ra_events)

definition nests :: "ra_state \<Rightarrow> AnthropicStreamEvent list \<times> ra_state \<Rightarrow> bool" where
  "nests s r \<longleftrightarrow> (ra_known s \<longrightarrow>
     run_acc nest_accept (ra_nest s) (fst r) = Some (ra_nest (snd r)) \<and> ra_known (snd r))"

lemmas nests_simps = nests_def ra_nest_def ra_known_def

lemma nests_Nil [simp]: "nests s ([], s)"
  by (simp add: nests_def)

lemma nests_append: "nests s (e1, s1) \<Longrightarrow> nests s1 (e2, s2) \<Longrightarrow> nests s (e1 @ e2, s2)"
  by (auto simp: nests_def)

lemma nests_close: "nests s (closeCurrentBlock s)"
  by (auto simp: closeCurrentBlock_def nests_simps Let_def)

lemma closed_close: "closeCurrentBlock s = (es, s') \<Longrightarrow> \<not> ra_ContentBlockOpen s'"
  by (auto simp: closeCurrentBlock_def Let_def split: if_splits)

lemma nests_close_then:
  assumes "closeCurrentBlock s = (e1, s1)" and "\<not> ra_ContentBlockOpen s1 \<Longrightarrow> nests s1 (e2, s2)"
  shows "nests s (e1 @ e2, s2)"
  using nests_append [of s e1 s1 e2 s2] nests_close [of s] assms closed_close [of s e1 s1] by simp

lemma nests_emit: "nests s (resToAnthEmitText t p s)"
proof -
  obtain e1 s1 where c: "closeCurrentBlock s = (e1, s1)" by fastforce
  have 1: "nests s (e1 @ [block_start (ra_ContentBlockIndex s1) b], s1\<lparr>ra_ContentBlockOpen := True, ra_CurrentBlockType := t\<rparr>)" for b t
    by (rule nests_close_then [OF c]) (auto simp: nests_simps)
  have 2: "nests s0 ([block_delta (ra_ContentBlockIndex s0) d], s0\<lparr>ra_textByPart := m, ra_textDelivered := True\<rparr>)"
    if "ra_ContentBlockOpen s0" for s0 d m
    using that by (auto simp: nests_simps)
  show ?thesis
    using nests_append [OF 1 2] 2 [of s] by (auto simp: resToAnthEmitText_def Let_def c)
qed

lemma nests_created: "nests s (resToAnthHandleCreated evt s)"
  by (auto simp: resToAnthHandleCreated_def nests_simps Let_def split: option.splits)

lemma nests_added: "nests s (resToAnthHandleOutputItemAdded evt s)"
proof -
  obtain e1 s1 where c: "closeCurrentBlock s = (e1, s1)" by fastforce
  show ?thesis
    by (auto simp: resToAnthHandleOutputItemAdded_def Let_def c split: option.split intro!: nests_close_then [OF c])
       (auto simp: nests_simps)
qed

lemma nests_recover: "nests s (resToAnthRecoverText t p s)"
  by (simp add: resToAnthRecoverText_def Let_def nests_emit)

lemma nests_block_done: "nests s (resToAnthHandleBlockDone s)"
  by (simp add: resToAnthHandleBlockDone_def nests_close)

lemma nests_text_done: "nests s (resToAnthHandleTextDone evt s)"
  using nests_recover [of s "rse_Text evt" "resToAnthTextPartOf evt"]
  by (auto simp: resToAnthHandleTextDone_def nests_block_done intro: nests_append split: prod.split) (metis nests_append nests_block_done)

lemma nests_args_delta: "nests s (resToAnthHandleFuncArgsDelta evt s)"
  by (auto simp: resToAnthHandleFuncArgsDelta_def Let_def nests_simps split: option.split dest: known_blocks_get)

lemma nests_args_done: "nests s (resToAnthHandleFuncArgsDone evt s)"
proof -
  obtain e1 s1 where c: "closeCurrentBlock s = (e1, s1)" by fastforce
  have "nests s (json_args_delta (ra_ContentBlockIndex s) p # e1, s1)" if "ra_ContentBlockOpen s" for p
    using nests_append [of s "[json_args_delta (ra_ContentBlockIndex s) p]" s e1 s1] nests_close [of s] c that
    by (auto simp: nests_simps)
  then show ?thesis
    using nests_close [of s] by (auto simp: resToAnthHandleFuncArgsDone_def Let_def c nests_block_done)
qed

lemma nests_reasoning: "nests s (resToAnthHandleReasoningDelta evt s)"
  by (auto simp: resToAnthHandleReasoningDelta_def nests_simps split: option.split dest: known_blocks_get)

lemma nests_web: "nests s (resToAnthHandleWebSearchDone item s)"
proof -
  obtain e1 s1 where c: "closeCurrentBlock s = (e1, s1)" by fastforce
  show ?thesis
    by (auto simp: resToAnthHandleWebSearchDone_def Let_def c intro!: nests_close_then [OF c])
       (auto simp: nests_simps intro: known_blocks_later)
qed

lemma nests_item_done: "nests s (resToAnthHandleOutputItemDone evt s)"
  using nests_close [of s] nests_close [of "s\<lparr>ra_PendingThinkingSignature := x\<rparr>" for x] nests_web
  by (auto simp: resToAnthHandleOutputItemDone_def Let_def nests_simps split: option.split)

lemma nests_recover_parts: "nests s (recover_parts o_idx c_idx parts s)"
proof (induction o_idx c_idx parts s rule: recover_parts.induct)
  case (2 outputIndex contentIndex content rest s)
  let ?r = "if rcp_Type content \<noteq> ''output_text'' then ([], s)
            else resToAnthEmitText (rcp_Text content) \<lparr>rtp_OutputIndex = outputIndex, rtp_ContentIndex = contentIndex\<rparr> s"
  have "nests s ?r" by (simp add: nests_emit)
  with "2.IH" show ?case by (auto intro: nests_append split: prod.split)
qed simp

lemma nests_recover_items: "nests s (recover_items o_idx items s)"
proof (induction o_idx items s rule: recover_items.induct)
  case (2 outputIndex item rest s)
  let ?r = "if ro_Type item \<noteq> ''message'' then ([], s) else recover_parts outputIndex 0 (ro_Content item) s"
  have "nests s ?r" by (simp add: nests_recover_parts)
  with "2.IH" show ?case by (auto intro: nests_append split: prod.split)
qed simp

lemma nests_terminal_text: "nests s (resToAnthRecoverTerminalText evt s)"
proof -
  obtain items where items: "items = (case rse_Response evt of None \<Rightarrow> [] | Some r \<Rightarrow> rr_Output r)" by blast
  obtain e1 s1 where 1: "recover_items 0 items s = (e1, s1)" by fastforce
  obtain e2 s2 where 2: "closeCurrentBlock s1 = (e2, s2)" by fastforce
  from 1 nests_recover_items [of s 0 items] have n1: "nests s (e1, s1)" by simp
  from 2 nests_close [of s1] have "nests s1 (e2, s2)" by simp
  with n1 have "nests s (e1 @ e2, s2)" by (rule nests_append)
  with n1 1 2 items show ?thesis
    by (auto simp: resToAnthRecoverTerminalText_def Let_def split: option.splits)
qed

lemma ra_set_usage_frame [simp]:
  "ra_ContentBlockIndex (ra_set_usage u s) = ra_ContentBlockIndex s"
  "ra_ContentBlockOpen (ra_set_usage u s) = ra_ContentBlockOpen s"
  "ra_CurrentBlockType (ra_set_usage u s) = ra_CurrentBlockType s"
  "ra_OutputIndexToBlockIdx (ra_set_usage u s) = ra_OutputIndexToBlockIdx s"
  "ra_MessageStartSent (ra_set_usage u s) = ra_MessageStartSent s"
  "ra_MessageStopSent (ra_set_usage u s) = ra_MessageStopSent s"
  "ra_HasToolCall (ra_set_usage u s) = ra_HasToolCall s"
  "ra_textByPart (ra_set_usage u s) = ra_textByPart s"
  "ra_textDelivered (ra_set_usage u s) = ra_textDelivered s"
  by (simp_all add: ra_set_usage_def Let_def)

lemma nests_completed: "nests s (resToAnthHandleCompleted evt s)"
proof -
  obtain e1 s1 where 1: "closeCurrentBlock s = (e1, s1)" by fastforce
  obtain e2 s2 where 2: "resToAnthRecoverTerminalText evt s1 = (e2, s2)" by fastforce
  have "nests s (e1 @ e2, s2)"
    using nests_append [of s e1 s1 e2 s2] nests_close [of s] nests_terminal_text [of s1 evt] 1 2 by simp
  moreover have "nests s2 (message_end r u, s3)"
    if "ra_ContentBlockIndex s3 = ra_ContentBlockIndex s2" "ra_ContentBlockOpen s3 = ra_ContentBlockOpen s2"
       "ra_OutputIndexToBlockIdx s3 = ra_OutputIndexToBlockIdx s2" for r u s3
    using that by (simp add: nests_simps)
  ultimately show ?thesis
    using nests_append [of s "e1 @ e2" s2]
    by (auto simp: resToAnthHandleCompleted_def Let_def 1 2 split: option.split)
qed

lemma nests_step: "nests s (ResponsesEventToAnthropicEvents evt s)"
  by (simp add: ResponsesEventToAnthropicEvents_def Let_def nests_created nests_added nests_text_done
      nests_args_delta nests_args_done nests_item_done nests_reasoning nests_completed
      resToAnthHandleTextDelta_def nests_emit)

lemma nests_finalize: "nests s (FinalizeResponsesAnthropicStream s)"
proof -
  obtain e1 s1 where c: "closeCurrentBlock s = (e1, s1)" by fastforce
  show ?thesis
    by (auto simp: FinalizeResponsesAnthropicStream_def Let_def c intro!: nests_close_then [OF c])
       (auto simp: nests_simps)
qed

interpretation ra_nesting: translator ResponsesEventToAnthropicEvents "\<lambda>_ _. Some ()" nest_accept
    "\<lambda>u::unit. ra_known" "\<lambda>_. ra_nest"
proof unfold_locales
  fix s i es s' 
  assume "ra_known s" "ResponsesEventToAnthropicEvents i s = (es, s')"
  with nests_step [of s i] show "run_acc nest_accept (ra_nest s) es = Some (ra_nest s')" and "ra_known s'"
    by (auto simp: nests_def)
qed

section \<open>The Messages protocol, for a sequential upstream\<close>

definition ra_view :: "ra_state \<Rightarrow> anth_view" where
  "ra_view s = \<lparr>av_started = ra_MessageStartSent s, av_ended = ra_MessageStopSent s,
     av_stopped = ra_MessageStopSent s, av_next = ra_ContentBlockIndex s,
     av_open = (if ra_ContentBlockOpen s then Some (ra_CurrentBlockType s) else None)\<rparr>"

lemma ra_view_sel [simp]:
  "av_started (ra_view s) = ra_MessageStartSent s" "av_ended (ra_view s) = ra_MessageStopSent s"
  "av_stopped (ra_view s) = ra_MessageStopSent s" "av_next (ra_view s) = ra_ContentBlockIndex s"
  "av_open (ra_view s) = (if ra_ContentBlockOpen s then Some (ra_CurrentBlockType s) else None)"
  by (simp_all add: ra_view_def)

lemma anth_accept_events:
  "anth_accept v (block_delta i d) =
     (if av_started v \<and> \<not> av_stopped v \<and> \<not> av_ended v \<and> i = av_next v
         \<and> (\<exists>t. av_open v = Some t \<and> delta_fits t (ad_Type d)) then Some v else None)"
  "anth_accept v (json_args_delta i p) =
     (if av_started v \<and> \<not> av_stopped v \<and> \<not> av_ended v \<and> i = av_next v \<and> av_open v = Some ''tool_use''
      then Some v else None)"
  "anth_accept v (block_start i b) =
     (if av_started v \<and> \<not> av_stopped v \<and> \<not> av_ended v \<and> i = av_next v \<and> av_open v = None
      then Some (v\<lparr>av_open := Some (acb_Type b)\<rparr>) else None)"
  "anth_accept v (block_stop i) =
     (if av_started v \<and> \<not> av_stopped v \<and> \<not> av_ended v \<and> i = av_next v \<and> av_open v \<noteq> None
      then Some (v\<lparr>av_open := None, av_next := i + 1\<rparr>) else None)"
  "anth_accept v (message_start m k) = (if \<not> av_started v then Some (v\<lparr>av_started := True\<rparr>) else None)"
  by (auto simp: anth_accept_def ra_events delta_fits_def split: option.splits)

lemma run_message_end:
  "av_started v \<Longrightarrow> \<not> av_stopped v \<Longrightarrow> \<not> av_ended v \<Longrightarrow> av_open v = None \<Longrightarrow> r \<noteq> [] \<Longrightarrow>
   run_acc anth_accept v (message_end r u) = Some (v\<lparr>av_ended := True, av_stopped := True\<rparr>)"
  by (simp add: anth_accept_def message_end_def)

text \<open>The converter is between \<open>message_start\<close> and \<open>message_stop\<close>.\<close>

definition ra_live :: "ra_state \<Rightarrow> bool" where
  "ra_live s \<longleftrightarrow> ra_MessageStartSent s \<and> \<not> ra_MessageStopSent s
     \<and> (ra_ContentBlockOpen s \<longrightarrow> ra_CurrentBlockType s \<in> {''text'', ''thinking'', ''tool_use''})"

definition conforms :: "ra_state \<Rightarrow> AnthropicStreamEvent list \<times> ra_state \<Rightarrow> bool" where
  "conforms s r \<longleftrightarrow> (ra_live s \<longrightarrow>
     run_acc anth_accept (ra_view s) (fst r) = Some (ra_view (snd r)) \<and> ra_live (snd r))"

lemmas conforms_simps = conforms_def ra_live_def ra_view_def anth_accept_events delta_fits_def

lemma conforms_Nil [simp]: "conforms s ([], s)"
  by (simp add: conforms_def)

lemma conforms_append: "conforms s (e1, s1) \<Longrightarrow> conforms s1 (e2, s2) \<Longrightarrow> conforms s (e1 @ e2, s2)"
  by (auto simp: conforms_def)

lemma conforms_close: "conforms s (closeCurrentBlock s)"
  by (auto simp: closeCurrentBlock_def conforms_simps Let_def)

lemma conforms_close_then:
  assumes "closeCurrentBlock s = (e1, s1)" and "\<not> ra_ContentBlockOpen s1 \<Longrightarrow> conforms s1 (e2, s2)"
  shows "conforms s (e1 @ e2, s2)"
  using conforms_append [of s e1 s1 e2 s2] conforms_close [of s] assms closed_close [of s e1 s1] by simp

lemma conforms_emit: "conforms s (resToAnthEmitText t p s)"
proof -
  obtain e1 s1 where c: "closeCurrentBlock s = (e1, s1)" by fastforce
  have 1: "conforms s (e1 @ [block_start (ra_ContentBlockIndex s1) (zeroBlock\<lparr>acb_Type := ''text''\<rparr>)],
             s1\<lparr>ra_ContentBlockOpen := True, ra_CurrentBlockType := ''text''\<rparr>)"
    by (rule conforms_close_then [OF c]) (auto simp: conforms_simps)
  have 2: "conforms s0 ([block_delta (ra_ContentBlockIndex s0) (zeroDelta\<lparr>ad_Type := ''text_delta'', ad_Text := t\<rparr>)],
             s0\<lparr>ra_textByPart := m, ra_textDelivered := True\<rparr>)"
    if "ra_ContentBlockOpen s0" "ra_CurrentBlockType s0 = ''text''" for s0 m
    using that by (auto simp: conforms_simps)
  show ?thesis
    using conforms_append [OF 1 2] 2 [of s] by (auto simp: resToAnthEmitText_def Let_def c)
qed

lemma conforms_added: "conforms s (resToAnthHandleOutputItemAdded evt s)"
proof -
  obtain e1 s1 where c: "closeCurrentBlock s = (e1, s1)" by fastforce
  show ?thesis
    by (auto simp: resToAnthHandleOutputItemAdded_def Let_def c split: option.split intro!: conforms_close_then [OF c])
       (auto simp: conforms_simps)
qed

lemma conforms_recover: "conforms s (resToAnthRecoverText t p s)"
  by (simp add: resToAnthRecoverText_def Let_def conforms_emit)

lemma conforms_block_done: "conforms s (resToAnthHandleBlockDone s)"
  by (simp add: resToAnthHandleBlockDone_def conforms_close)

lemma conforms_text_done: "conforms s (resToAnthHandleTextDone evt s)"
proof -
  obtain e1 s1 where 1: "resToAnthRecoverText (rse_Text evt) (resToAnthTextPartOf evt) s = (e1, s1)" by fastforce
  obtain e2 s2 where 2: "resToAnthHandleBlockDone s1 = (e2, s2)" by fastforce
  have "conforms s (e1 @ e2, s2)"
    by (rule conforms_append [of _ _ s1]) (simp_all add: 1 [symmetric] 2 [symmetric] conforms_recover conforms_block_done)
  then show ?thesis by (simp add: resToAnthHandleTextDone_def 1 2 conforms_block_done)
qed

text \<open>The two handlers that name a remembered block need to know it is the open one.\<close>

lemma conforms_args_delta:
  assumes "ra_ContentBlockOpen s" "ra_CurrentBlockType s = ''tool_use''"
    and "ra_OutputIndexToBlockIdx s (rse_OutputIndex evt) = Some (ra_ContentBlockIndex s)"
  shows "conforms s (resToAnthHandleFuncArgsDelta evt s)"
  using assms by (auto simp: resToAnthHandleFuncArgsDelta_def Let_def conforms_simps)

lemma conforms_reasoning:
  assumes "ra_ContentBlockOpen s" "ra_CurrentBlockType s = ''thinking''"
    and "ra_OutputIndexToBlockIdx s (rse_OutputIndex evt) = Some (ra_ContentBlockIndex s)"
  shows "conforms s (resToAnthHandleReasoningDelta evt s)"
  using assms by (auto simp: resToAnthHandleReasoningDelta_def conforms_simps)

lemma conforms_args_done: "conforms s (resToAnthHandleFuncArgsDone evt s)"
proof -
  obtain e1 s1 where c: "closeCurrentBlock s = (e1, s1)" by fastforce
  have "conforms s (json_args_delta (ra_ContentBlockIndex s) p # e1, s1)"
    if "ra_ContentBlockOpen s" "ra_CurrentBlockType s = ''tool_use''" for p
    using conforms_append [of s "[json_args_delta (ra_ContentBlockIndex s) p]" s e1 s1] conforms_close [of s] c that
    by (auto simp: conforms_simps)
  then show ?thesis
    using conforms_close [of s] by (auto simp: resToAnthHandleFuncArgsDone_def Let_def c conforms_block_done)
qed

lemma conforms_web: "conforms s (resToAnthHandleWebSearchDone item s)"
proof -
  obtain e1 s1 where c: "closeCurrentBlock s = (e1, s1)" by fastforce
  show ?thesis
    by (auto simp: resToAnthHandleWebSearchDone_def Let_def c intro!: conforms_close_then [OF c])
       (auto simp: conforms_simps)
qed

lemma conforms_same_view:
  "ra_view s1 = ra_view s \<Longrightarrow> ra_live s1 = ra_live s \<Longrightarrow> conforms s1 r \<Longrightarrow> conforms s r"
  by (simp add: conforms_def)

lemma conforms_item_done: "conforms s (resToAnthHandleOutputItemDone evt s)"
proof (cases "rse_Item evt")
  case (Some item)
  let ?s1 = "if ro_Type item = ''reasoning'' \<and> TrimSpace (ro_EncryptedContent item) \<noteq> []
             then s\<lparr>ra_PendingThinkingSignature := TrimSpace (ro_EncryptedContent item)\<rparr> else s"
  have "conforms ?s1 (if ra_ContentBlockOpen ?s1 then closeCurrentBlock ?s1 else ([], ?s1))"
    by (simp only: conforms_close conforms_Nil split: if_split) simp
  then have "conforms s (if ra_ContentBlockOpen ?s1 then closeCurrentBlock ?s1 else ([], ?s1))"
    by (rule conforms_same_view [rotated 2]) (simp_all add: ra_view_def ra_live_def)
  then show ?thesis
    by (simp only: resToAnthHandleOutputItemDone_def Some option.case Let_def conforms_web split: if_split) simp
qed (simp add: resToAnthHandleOutputItemDone_def)

lemma conforms_recover_parts: "conforms s (recover_parts o_idx c_idx parts s)"
proof (induction o_idx c_idx parts s rule: recover_parts.induct)
  case (2 outputIndex contentIndex content rest s)
  let ?r = "if rcp_Type content \<noteq> ''output_text'' then ([], s)
            else resToAnthEmitText (rcp_Text content) \<lparr>rtp_OutputIndex = outputIndex, rtp_ContentIndex = contentIndex\<rparr> s"
  have "conforms s ?r" by (simp add: conforms_emit)
  with "2.IH" show ?case by (auto intro: conforms_append split: prod.split)
qed simp

lemma conforms_recover_items: "conforms s (recover_items o_idx items s)"
proof (induction o_idx items s rule: recover_items.induct)
  case (2 outputIndex item rest s)
  let ?r = "if ro_Type item \<noteq> ''message'' then ([], s) else recover_parts outputIndex 0 (ro_Content item) s"
  have "conforms s ?r" by (simp add: conforms_recover_parts)
  with "2.IH" show ?case by (auto intro: conforms_append split: prod.split)
qed simp

lemma emit_silent: "resToAnthEmitText t p s = ([], s') \<Longrightarrow> s' = s"
  by (auto simp: resToAnthEmitText_def Let_def split: prod.splits if_splits)

lemma recover_parts_silent: "recover_parts o_idx c_idx parts s = ([], s') \<Longrightarrow> s' = s"
  by (induction o_idx c_idx parts s arbitrary: s' rule: recover_parts.induct)
     (auto split: prod.splits if_splits dest: emit_silent)

lemma recover_items_silent: "recover_items o_idx items s = ([], s') \<Longrightarrow> s' = s"
proof (induction items arbitrary: o_idx s s')
  case (Cons item rest)
  obtain e1 s1 where 1: "(if ro_Type item \<noteq> ''message'' then ([], s)
      else recover_parts o_idx 0 (ro_Content item) s) = (e1, s1)" by fastforce
  obtain e2 s2 where 2: "recover_items (o_idx + 1) rest s1 = (e2, s2)" by fastforce
  from Cons.prems have e: "e1 = []" "e2 = []" "s' = s2" by (simp_all add: 1 2 Let_def)
  from 1 e(1) have "s1 = s" by (auto split: if_splits dest: recover_parts_silent)
  moreover from 2 [unfolded e(2)] have "s2 = s1" by (rule Cons.IH)
  ultimately show ?case using e(3) by simp
qed simp

lemma terminal_text_live:
  assumes "\<not> ra_ContentBlockOpen s" and "resToAnthRecoverTerminalText evt s = (es, s')"
  shows "conforms s (es, s') \<and> \<not> ra_ContentBlockOpen s'"
proof -
  define items where "items = (case rse_Response evt of None \<Rightarrow> [] | Some r \<Rightarrow> rr_Output r)"
  obtain e1 s1 where 1: "recover_items 0 items s = (e1, s1)" by fastforce
  obtain e2 s2 where 2: "closeCurrentBlock s1 = (e2, s2)" by fastforce
  from 1 conforms_recover_items [of s 0 items] have n1: "conforms s (e1, s1)" by simp
  from 2 conforms_close [of s1] have "conforms s1 (e2, s2)" by simp
  with n1 have n2: "conforms s (e1 @ e2, s2)" by (rule conforms_append)
  have "(es, s') = ([], s) \<or> (es, s') = (if e1 = [] then (e1, s1) else (e1 @ e2, s2))"
    using assms(2) 1 2
    by (simp add: resToAnthRecoverTerminalText_def Let_def items_def split: option.splits if_splits)
  moreover have "e1 = [] \<Longrightarrow> s1 = s" using 1 recover_items_silent by blast
  ultimately show ?thesis
    using n2 assms(1) closed_close [OF 2] by (cases "e1 = []") (elim disjE; simp)+
qed

lemma ra_set_usage_view [simp]: "ra_view (ra_set_usage u s) = ra_view s"
  by (simp add: ra_view_def)

lemma ra_stop_reason_set [simp]: "ra_stop_reason evt h \<noteq> []"
  by (auto simp: ra_stop_reason_def split: option.split)

text \<open>A terminal event ends a live stream, whatever it holds.\<close>

lemma completed_ends:
  assumes "ra_live s" and "resToAnthHandleCompleted evt s = (es, s')"
  shows "run_acc anth_accept (ra_view s) es = Some (ra_view s') \<and> ra_MessageStartSent s'
           \<and> ra_MessageStopSent s' \<and> \<not> ra_ContentBlockOpen s'"
proof -
  obtain e1 s1 where 1: "closeCurrentBlock s = (e1, s1)" by fastforce
  obtain e2 s2 where 2: "resToAnthRecoverTerminalText evt s1 = (e2, s2)" by fastforce
  have c1: "\<not> ra_ContentBlockOpen s1" using 1 by (rule closed_close)
  from terminal_text_live [OF this 2] conforms_close [of s] 1 assms(1)
  have a: "run_acc anth_accept (ra_view s) (e1 @ e2) = Some (ra_view s2)" "ra_live s2" "\<not> ra_ContentBlockOpen s2"
    by (auto simp: conforms_def)
  define s4 where "s4 = (case rse_Response evt of None \<Rightarrow> ra_set_usage (rse_Usage evt) s2
    | Some r \<Rightarrow> ra_set_usage (rr_Usage r) (ra_set_usage (rse_Usage evt) s2))"
  let ?fin = "message_end (ra_stop_reason evt (ra_HasToolCall s4)) (ra_usage s4)"
  have "\<not> ra_MessageStopSent s" using assms(1) by (simp add: ra_live_def)
  with assms(2) have es: "es = (e1 @ e2) @ ?fin" and s': "s' = s4\<lparr>ra_MessageStopSent := True\<rparr>"
    by (auto simp: resToAnthHandleCompleted_def Let_def 1 2 s4_def)
  have "run_acc anth_accept (ra_view s2) ?fin = Some ((ra_view s2)\<lparr>av_ended := True, av_stopped := True\<rparr>)"
    using a by (intro run_message_end) (auto simp: ra_live_def)
  moreover have "ra_view s' = (ra_view s2)\<lparr>av_ended := True, av_stopped := True\<rparr>"
    by (simp add: s' ra_view_def s4_def split: option.split)
  moreover have "ra_MessageStartSent s2" "\<not> ra_ContentBlockOpen s2" using a by (auto simp: ra_live_def)
  moreover have "ra_MessageStartSent s4 = ra_MessageStartSent s2" "ra_ContentBlockOpen s4 = ra_ContentBlockOpen s2"
    by (simp_all add: s4_def split: option.split)
  moreover from a(1) calculation(1) have "run_acc anth_accept (ra_view s) es = Some ((ra_view s2)\<lparr>av_ended := True, av_stopped := True\<rparr>)"
    unfolding es by (rule run_acc_append_Some)
  ultimately show ?thesis by (simp add: s')
qed

text \<open>
  \<open>ra_item\<close>: what the converter knows of the one open upstream item \<open>i\<close> at output index \<open>k\<close>.
\<close>

definition ra_item :: "int \<Rightarrow> resp_item \<Rightarrow> ra_state \<Rightarrow> bool" where
  "ra_item k i s =
     (if ri_type i = ''function_call'' \<or> ri_type i = ''custom_tool_call'' then
        (\<not> ri_done i \<longrightarrow> ra_ContentBlockOpen s \<and> ra_CurrentBlockType s = ''tool_use''
            \<and> ra_OutputIndexToBlockIdx s k = Some (ra_ContentBlockIndex s))
      else if ri_type i = ''reasoning'' then
        ra_ContentBlockOpen s \<and> ra_CurrentBlockType s = ''thinking''
            \<and> ra_OutputIndexToBlockIdx s k = Some (ra_ContentBlockIndex s)
      else if ri_type i = ''message'' then True
      else \<not> ra_ContentBlockOpen s)"

definition ra_rel :: "resp_view \<Rightarrow> ra_state \<Rightarrow> bool" where
  "ra_rel v s \<longleftrightarrow> ra_MessageStartSent s = rv_created v \<and> ra_MessageStopSent s = rv_completed v
     \<and> (rv_completed v \<longrightarrow> rv_created v) \<and> (rv_created v \<and> \<not> rv_completed v \<longrightarrow> ra_live s)
     \<and> (if rv_created v \<and> \<not> rv_completed v
        then (rv_nopen v = 0 \<and> rv_items v = Map.empty \<and> \<not> ra_ContentBlockOpen s)
             \<or> (rv_nopen v = 1 \<and> (\<exists>k i. rv_items v = [k \<mapsto> i] \<and> ra_item k i s))
        else rv_nopen v = 0 \<and> rv_items v = Map.empty \<and> \<not> ra_ContentBlockOpen s)"

lemma ra_rel_live: "ra_rel v s \<Longrightarrow> rv_created v \<Longrightarrow> \<not> rv_completed v \<Longrightarrow> ra_live s"
  by (simp add: ra_rel_def)

lemma ra_rel_open_item:
  assumes "ra_rel v s" "rv_created v" "\<not> rv_completed v" "rv_items v k = Some i"
  shows "rv_nopen v = 1 \<and> rv_items v = [k \<mapsto> i] \<and> ra_item k i s"
  using assms by (auto simp: ra_rel_def split: if_splits)

lemma ra_rel_item:
  "ra_live s \<Longrightarrow> rv_created v \<Longrightarrow> \<not> rv_completed v \<Longrightarrow> rv_nopen v = 1 \<Longrightarrow> rv_items v = [k \<mapsto> i]
   \<Longrightarrow> ra_item k i s \<Longrightarrow> ra_rel v s"
  by (auto simp: ra_rel_def ra_live_def)

lemma ra_rel_closed:
  "ra_live s \<Longrightarrow> rv_created v \<Longrightarrow> \<not> rv_completed v \<Longrightarrow> rv_nopen v = 0 \<Longrightarrow> rv_items v = Map.empty
   \<Longrightarrow> \<not> ra_ContentBlockOpen s \<Longrightarrow> ra_rel v s"
  by (auto simp: ra_rel_def ra_live_def)

lemma added_item:
  assumes "\<not> ra_ContentBlockOpen s" "rse_Item evt = Some it"
    and "resToAnthHandleOutputItemAdded evt s = (es, s')"
  shows "ra_item (rse_OutputIndex evt) (new_item (ro_Type it)) s'"
  using assms by (auto simp: resToAnthHandleOutputItemAdded_def closeCurrentBlock_def ra_item_def new_item_def Let_def)

lemma item_done_closed:
  assumes "rse_Item evt = Some it" and "resToAnthHandleOutputItemDone evt s = (es, s')"
  shows "\<not> ra_ContentBlockOpen s'"
proof (cases "ro_Type it = ''web_search_call'' \<and> ro_Status it = ''completed''")
  case True
  then show ?thesis using assms
    by (auto simp: resToAnthHandleOutputItemDone_def resToAnthHandleWebSearchDone_def Let_def
             split: prod.splits dest: closed_close)
next
  case False
  then show ?thesis using assms
    by (auto simp: resToAnthHandleOutputItemDone_def Let_def dest: closed_close split: if_splits)
qed

lemma args_delta_frame:
  assumes "resToAnthHandleFuncArgsDelta evt s = (es, s')"
  shows "ra_item k i s' = ra_item k i s"
  using assms by (auto simp: resToAnthHandleFuncArgsDelta_def Let_def ra_item_def split: if_splits option.splits)

lemma reasoning_frame: "resToAnthHandleReasoningDelta evt s = (es, s') \<Longrightarrow> s' = s"
  by (auto simp: resToAnthHandleReasoningDelta_def split: if_splits option.splits)

text \<open>An event inside the open item.\<close>

lemma item_step:
  assumes "ra_live s" "ra_item (rse_OutputIndex e) i s" "item_accept i e = Some i'"
    and "ResponsesEventToAnthropicEvents e s = (es, s')"
  shows "conforms s (es, s') \<and> ra_item (rse_OutputIndex e) i' s'"
proof -
  note step = assms(4) [unfolded ResponsesEventToAnthropicEvents_def]
  note acc = assms(3) [unfolded item_accept_def]
  consider (ignored) "rse_Type e \<in> {''response.content_part.added'', ''response.content_part.done'',
      ''response.reasoning_summary_part.added'', ''response.reasoning_summary_part.done'',
      ''response.reasoning_summary_text.done'', ''response.custom_tool_call_input.done''}"
    | (delta) "rse_Type e = ''response.output_text.delta''"
    | (text_done) "rse_Type e = ''response.output_text.done''"
    | (reasoning) "rse_Type e = ''response.reasoning_summary_text.delta''"
    | (args) "rse_Type e = ''response.function_call_arguments.delta''"
    | (custom) "rse_Type e = ''response.custom_tool_call_input.delta''"
    | (args_done) "rse_Type e = ''response.function_call_arguments.done''"
    using acc by (fastforce simp: Let_def split: if_splits)
  then show ?thesis
  proof cases
    case ignored
    then have "s' = s" "es = []" using step by (auto simp: Let_def)
    then show ?thesis using ignored acc assms(2) by (auto simp: Let_def ra_item_def split: if_splits)
  next
    case delta
    then have "conforms s (es, s')" using step conforms_emit [of s "rse_Delta e" "resToAnthTextPartOf e"]
      by (simp add: Let_def resToAnthHandleTextDelta_def)
    then show ?thesis using delta acc by (auto simp: Let_def ra_item_def split: if_splits)
  next
    case text_done
    then have "resToAnthHandleTextDone e s = (es, s')" using step by (simp add: Let_def)
    then have "conforms s (es, s')" using conforms_text_done [of s e] by simp
    then show ?thesis using text_done acc by (auto simp: Let_def ra_item_def split: if_splits)
  next
    case reasoning
    then have r: "resToAnthHandleReasoningDelta e s = (es, s')" "ri_type i = ''reasoning''" "i' = i"
      using step acc by (auto simp: Let_def split: if_splits)
    with conforms_reasoning [of s e] assms(2) have "conforms s (es, s')" by (simp add: ra_item_def)
    with r reasoning_frame [of e s] assms(2) show ?thesis by simp
  next
    case args
    then have r: "resToAnthHandleFuncArgsDelta e s = (es, s')" "ri_type i = ''function_call''" "\<not> ri_done i" "i' = i"
      using step acc by (auto simp: Let_def split: if_splits)
    with conforms_args_delta [of s e] assms(2) have "conforms s (es, s')" by (simp add: ra_item_def)
    with r args_delta_frame [of e s] assms(2) show ?thesis by simp
  next
    case custom
    then have r: "resToAnthHandleFuncArgsDelta e s = (es, s')" "ri_type i = ''custom_tool_call''" "\<not> ri_done i" "i' = i"
      using step acc by (auto simp: Let_def split: if_splits)
    with conforms_args_delta [of s e] assms(2) have "conforms s (es, s')" by (simp add: ra_item_def)
    with r args_delta_frame [of e s] assms(2) show ?thesis by simp
  next
    case args_done
    then have "resToAnthHandleFuncArgsDone e s = (es, s')" using step by (simp add: Let_def)
    then have "conforms s (es, s')" using conforms_args_done [of s e] by simp
    then show ?thesis using args_done acc by (auto simp: Let_def ra_item_def split: if_splits)
  qed
qed

lemma terminal_step:
  "is_terminal_type (rse_Type e) \<Longrightarrow> ResponsesEventToAnthropicEvents e s = resToAnthHandleCompleted e s"
  by (auto simp: ResponsesEventToAnthropicEvents_def is_terminal_type_def Let_def)

lemma ra_rel_step:
  assumes rel: "ra_rel v s" and acc: "seq_resp_accept v e = Some v'"
    and step: "ResponsesEventToAnthropicEvents e s = (es, s')"
  shows "run_acc anth_accept (ra_view s) es = Some (ra_view s') \<and> ra_rel v' s'"
proof (cases "rse_Type e = ''response.created''")
  case True
  with acc have v: "\<not> rv_created v" "v' = v\<lparr>rv_created := True\<rparr>"
    by (auto simp: seq_resp_accept_def resp_accept_def split: if_splits)
  with rel have s: "\<not> ra_MessageStartSent s" "\<not> ra_MessageStopSent s" "\<not> ra_ContentBlockOpen s"
      "rv_nopen v = 0" "rv_items v = Map.empty" "\<not> rv_completed v"
    by (auto simp: ra_rel_def)
  from True step have "resToAnthHandleCreated e s = (es, s')"
    by (simp add: ResponsesEventToAnthropicEvents_def)
  with s v show ?thesis
    by (auto simp: resToAnthHandleCreated_def Let_def ra_rel_def ra_live_def ra_view_def anth_accept_events
             split: option.splits)
next
  case not_created: False
  with acc have r: "resp_accept v e = Some v'" and live: "rv_created v" "\<not> rv_completed v"
    by (auto simp: seq_resp_accept_def resp_accept_def Let_def split: if_splits)
  from rel live have ra: "ra_live s" by (rule ra_rel_live)
  consider (added) "rse_Type e = ''response.output_item.added''"
    | (fin) "rse_Type e = ''response.output_item.done''"
    | (terminal) "rse_Type e \<noteq> ''response.output_item.added''" "rse_Type e \<noteq> ''response.output_item.done''"
        "is_terminal_type (rse_Type e)"
    | (inside) "rse_Type e \<noteq> ''response.output_item.added''" "rse_Type e \<noteq> ''response.output_item.done''"
        "\<not> is_terminal_type (rse_Type e)"
    by blast
  then show ?thesis
  proof cases
    case added
    then obtain it where it: "rse_Item e = Some it" "rv_nopen v = 0"
        "v' = v\<lparr>rv_items := (rv_items v)(rse_OutputIndex e \<mapsto> new_item (ro_Type it)),
                rv_nextOut := rse_OutputIndex e + 1, rv_nopen := Suc (rv_nopen v)\<rparr>"
      using acc r live not_created by (auto simp: seq_resp_accept_def resp_accept_def Let_def split: if_splits option.splits)
    with rel live have s: "\<not> ra_ContentBlockOpen s" "rv_items v = Map.empty" by (auto simp: ra_rel_def)
    from added step have h: "resToAnthHandleOutputItemAdded e s = (es, s')"
      by (simp add: ResponsesEventToAnthropicEvents_def)
    have "conforms s (es, s')" using conforms_added [of s e] h by simp
    moreover have "ra_item (rse_OutputIndex e) (new_item (ro_Type it)) s'" using s(1) it(1) h by (rule added_item)
    ultimately show ?thesis using ra it s live by (auto simp: conforms_def intro!: ra_rel_item)
  next
    case fin
    then obtain it i where it: "rse_Item e = Some it" "rv_items v (rse_OutputIndex e) = Some i"
        "v' = v\<lparr>rv_items := (rv_items v)(rse_OutputIndex e := None), rv_nopen := rv_nopen v - 1\<rparr>"
      using r live not_created by (auto simp: resp_accept_def Let_def split: if_splits option.splits)
    from ra_rel_open_item [OF rel live it(2)] have i: "rv_nopen v = 1" "rv_items v = [rse_OutputIndex e \<mapsto> i]" by auto
    from fin step have h: "resToAnthHandleOutputItemDone e s = (es, s')"
      by (simp add: ResponsesEventToAnthropicEvents_def)
    have "conforms s (es, s')" using conforms_item_done [of s e] h by simp
    moreover have "\<not> ra_ContentBlockOpen s'" using it(1) h by (rule item_done_closed)
    ultimately show ?thesis using ra it i live by (auto simp: conforms_def intro!: ra_rel_closed)
  next
    case terminal
    with r live not_created have v: "rv_nopen v = 0" "v' = v\<lparr>rv_completed := True\<rparr>"
      by (auto simp: resp_accept_def Let_def split: if_splits)
    from terminal_step [OF terminal(3)] step have "resToAnthHandleCompleted e s = (es, s')" by simp
    from completed_ends [OF ra this] v rel live show ?thesis by (auto simp: ra_rel_def)
  next
    case inside
    then obtain i i' where i: "rv_items v (rse_OutputIndex e) = Some i" "item_accept i e = Some i'"
        "v' = v\<lparr>rv_items := (rv_items v)(rse_OutputIndex e \<mapsto> i')\<rparr>"
      using r live not_created by (auto simp: resp_accept_def Let_def split: if_splits option.splits)
    from ra_rel_open_item [OF rel live i(1)] have o1: "rv_nopen v = 1" "rv_items v = [rse_OutputIndex e \<mapsto> i]"
      "ra_item (rse_OutputIndex e) i s" by auto
    from item_step [OF ra o1(3) i(2) step] ra o1 i live show ?thesis
      by (auto simp: conforms_def intro!: ra_rel_item)
  qed
qed

definition ra_closable :: "ra_state \<Rightarrow> bool" where
  "ra_closable s \<longleftrightarrow> ra_MessageStartSent s"

lemma finalize_ends:
  assumes "ra_rel v s" "ra_closable s" "FinalizeResponsesAnthropicStream s = (es, s')"
  shows "run_acc anth_accept (ra_view s) es = Some (ra_view s') \<and> anth_complete (ra_view s')"
proof (cases "ra_MessageStopSent s")
  case True
  with assms show ?thesis
    by (auto simp: FinalizeResponsesAnthropicStream_def anth_complete_def ra_rel_def ra_closable_def split: if_splits)
next
  case False
  obtain e1 s1 where 1: "closeCurrentBlock s = (e1, s1)" by fastforce
  let ?fin = "message_end (if ra_HasToolCall s1 then ''tool_use'' else ''end_turn'') (ra_usage s1)"
  from assms False have live: "ra_live s" by (auto simp: ra_rel_def ra_closable_def)
  from assms(2,3) False have es: "es = e1 @ ?fin" "s' = s1\<lparr>ra_MessageStopSent := True\<rparr>"
    by (auto simp: FinalizeResponsesAnthropicStream_def 1 ra_closable_def Let_def)
  from conforms_close [of s] 1 live have a: "run_acc anth_accept (ra_view s) e1 = Some (ra_view s1)" "ra_live s1"
    by (auto simp: conforms_def)
  have "\<not> ra_ContentBlockOpen s1" using 1 by (rule closed_close)
  then have "run_acc anth_accept (ra_view s1) ?fin = Some ((ra_view s1)\<lparr>av_ended := True, av_stopped := True\<rparr>)"
    using a(2) by (intro run_message_end) (auto simp: ra_live_def)
  also have "(ra_view s1)\<lparr>av_ended := True, av_stopped := True\<rparr> = ra_view s'"
    by (simp add: es(2) ra_view_def)
  finally show ?thesis
    using a \<open>\<not> ra_ContentBlockOpen s1\<close> unfolding es(1)
    by (auto simp: es(2) anth_complete_def ra_live_def)
qed

interpretation ra_protocol: closing_translator ResponsesEventToAnthropicEvents seq_resp_accept anth_accept
    ra_rel "\<lambda>_. ra_view" FinalizeResponsesAnthropicStream "\<lambda>_. ra_closable" anth_complete
proof unfold_locales
  fix v s e v' es s'
  assume "ra_rel v s" "seq_resp_accept v e = Some v'" "ResponsesEventToAnthropicEvents e s = (es, s')"
  from ra_rel_step [OF this] show "run_acc anth_accept (ra_view s) es = Some (ra_view s')" and "ra_rel v' s'" by auto
qed (blast dest: finalize_ends)

lemma ra_initial: "ra_rel resp_initial (NewResponsesEventToAnthropicState now)"
    "ra_view (NewResponsesEventToAnthropicState now) = anth_initial"
  by (simp_all add: ra_rel_def resp_initial_def NewResponsesEventToAnthropicState_def ra_view_def anth_initial_def)

section \<open>Text and arguments are delivered exactly once\<close>

definition anth_json_of :: "AnthropicStreamEvent \<Rightarrow> string" where
  "anth_json_of e = (if ase_Type e = ''content_block_delta''
     then (case ase_Delta e of Some d \<Rightarrow> (if ad_Type d = ''input_json_delta'' then ad_PartialJSON d else []) | None \<Rightarrow> [])
     else [])"

definition anth_json :: "AnthropicStreamEvent list \<Rightarrow> string" where
  "anth_json es = concat (map anth_json_of es)"

lemma anth_json_simps [simp]:
  "anth_json [] = []" "anth_json (x # xs) = anth_json_of x @ anth_json xs"
  "anth_json (xs @ ys) = anth_json xs @ anth_json ys"
  by (simp_all add: anth_json_def)

lemma carried_events [simp]:
  "anth_text_of (block_start i b) = []" "anth_text_of (block_stop i) = []"
  "anth_text_of (block_delta i d) = (if ad_Type d = ''text_delta'' then ad_Text d else [])"
  "anth_text_of (json_args_delta i p) = []" "anth_text_of (message_start m k) = []"
  "anth_text (message_end r u) = []"
  "anth_json_of (block_start i b) = []" "anth_json_of (block_stop i) = []"
  "anth_json_of (block_delta i d) = (if ad_Type d = ''input_json_delta'' then ad_PartialJSON d else [])"
  "anth_json_of (json_args_delta i p) = p" "anth_json_of (message_start m k) = []"
  "anth_json (message_end r u) = []"
  by (simp_all add: ra_events anth_text_of_def anth_json_of_def)

lemma close_carries:
  assumes "closeCurrentBlock s = (es, s')"
  shows "anth_text es = []" "anth_json es = []" "ra_textByPart s' = ra_textByPart s"
    "ra_textDelivered s' = ra_textDelivered s" "ra_MessageStopSent s' = ra_MessageStopSent s"
    "ra_HasToolCall s' = ra_HasToolCall s"
  using assms by (auto simp: closeCurrentBlock_def Let_def split: if_splits)

lemma emit_carries:
  assumes "resToAnthEmitText t p s = (es, s')"
  shows "anth_text es = t"
    "ra_textByPart s' = (if t = [] then ra_textByPart s
       else (ra_textByPart s)(p \<mapsto> get_or (ra_textByPart s) [] p @ t))"
    "ra_textDelivered s' = (ra_textDelivered s \<or> t \<noteq> [])" "ra_MessageStopSent s' = ra_MessageStopSent s"
  using assms
  by (auto simp: resToAnthEmitText_def Let_def close_carries split: prod.splits if_splits)

lemma block_done_carries:
  assumes "resToAnthHandleBlockDone s = (es, s')"
  shows "anth_text es = []" "ra_textByPart s' = ra_textByPart s"
    "ra_textDelivered s' = ra_textDelivered s" "ra_MessageStopSent s' = ra_MessageStopSent s"
  using assms by (auto simp: resToAnthHandleBlockDone_def close_carries split: if_splits)

lemma text_delta_step:
  "rse_Type e = ''response.output_text.delta'' \<Longrightarrow>
   ResponsesEventToAnthropicEvents e s = resToAnthEmitText (rse_Delta e) (resToAnthTextPartOf e) s"
  by (simp add: ResponsesEventToAnthropicEvents_def resToAnthHandleTextDelta_def)

text \<open>The part \<open>p\<close> is the only one that has been delivered, up to the text \<open>D\<close>.\<close>

definition delivered_only :: "responsesTextPart \<Rightarrow> string \<Rightarrow> ra_state \<Rightarrow> bool" where
  "delivered_only p D s \<longleftrightarrow> get_or (ra_textByPart s) [] p = D \<and> (ra_textDelivered s \<longrightarrow> D \<noteq> [])
     \<and> \<not> ra_MessageStopSent s \<and> (D \<noteq> [] \<longrightarrow> ra_textDelivered s)"

lemma emit_delivered:
  "delivered_only p D s \<Longrightarrow> resToAnthEmitText t p s = (es, s') \<Longrightarrow> delivered_only p (D @ t) s' \<and> anth_text es = t"
  by (auto simp: delivered_only_def emit_carries)

lemma deltas_delivered:
  assumes "delivered_only p D s"
    and "\<forall>e\<in>set ds. rse_Type e = ''response.output_text.delta'' \<and> resToAnthTextPartOf e = p"
    and "run_conv ResponsesEventToAnthropicEvents ds s = (es, s')"
  shows "delivered_only p (D @ resp_text ds) s' \<and> anth_text es = resp_text ds"
  using assms
proof (induction ds arbitrary: D s es)
  case (Cons d ds)
  obtain e1 s1 where 1: "resToAnthEmitText (rse_Delta d) p s = (e1, s1)" by fastforce
  obtain e2 s2 where 2: "run_conv ResponsesEventToAnthropicEvents ds s1 = (e2, s2)" by fastforce
  have d: "rse_Type d = ''response.output_text.delta''" "resToAnthTextPartOf d = p" using Cons.prems(2) by auto
  from Cons.prems(3) d 1 2 have es: "es = e1 @ e2" "s2 = s'"
    by (auto simp: text_delta_step)
  from emit_delivered [OF Cons.prems(1) 1] have 3: "delivered_only p (D @ rse_Delta d) s1" "anth_text e1 = rse_Delta d" by auto
  from Cons.IH [OF 3(1)] Cons.prems(2) 2 es(2)
  have "delivered_only p ((D @ rse_Delta d) @ resp_text ds) s' \<and> anth_text e2 = resp_text ds" by simp
  then show ?case using es(1) 3(2) d(1) by (simp add: resp_text_of_def)
qed simp

lemma done_delivered:
  assumes "delivered_only p D s" "HasPrefix (rse_Text e) D"
    and "rse_Type e = ''response.output_text.done''" "resToAnthTextPartOf e = p"
    and "ResponsesEventToAnthropicEvents e s = (es, s')"
  shows "D @ anth_text es = rse_Text e \<and> delivered_only p (rse_Text e) s'"
proof -
  obtain e1 s1 where 1: "resToAnthRecoverText (rse_Text e) p s = (e1, s1)" by fastforce
  obtain e2 s2 where 2: "resToAnthHandleBlockDone s1 = (e2, s2)" by fastforce
  have es: "es = e1 @ e2" "s' = s2" using assms 1 2
    by (auto simp: ResponsesEventToAnthropicEvents_def resToAnthHandleTextDone_def delivered_only_def)
  have r: "(if rse_Text e = D then ([], s) else resToAnthEmitText (drop (length D) (rse_Text e)) p s) = (e1, s1)"
    using 1 assms(1,2) by (auto simp: resToAnthRecoverText_def Let_def delivered_only_def get_or_def split: if_splits option.splits)
  have "D @ anth_text e1 = rse_Text e \<and> delivered_only p (rse_Text e) s1"
  proof (cases "rse_Text e = D")
    case True
    with r assms(1) show ?thesis by auto
  next
    case False
    with r emit_delivered [OF assms(1), of "drop (length D) (rse_Text e)"] HasPrefix_drop [OF assms(2)]
    show ?thesis by auto
  qed
  then show ?thesis unfolding es using block_done_carries [OF 2] by (auto simp: delivered_only_def)
qed

text \<open>The terminal event repeats the text only when none was delivered.\<close>

definition part_text :: "ResponsesContentPart \<Rightarrow> string" where
  "part_text p = (if rcp_Type p = ''output_text'' then rcp_Text p else [])"

definition output_text :: "ResponsesOutput list \<Rightarrow> string" where
  \<comment> \<open>all the text of the message items\<close>
  "output_text items = concat (map (\<lambda>i. if ro_Type i = ''message'' then concat (map part_text (ro_Content i)) else []) items)"

lemma recover_parts_text: "recover_parts k j parts s = (es, s') \<Longrightarrow> anth_text es = concat (map part_text parts)"
proof (induction parts arbitrary: j s es)
  case (Cons c rest)
  obtain e1 s1 where 1: "(if rcp_Type c \<noteq> ''output_text'' then ([], s)
      else resToAnthEmitText (rcp_Text c) \<lparr>rtp_OutputIndex = k, rtp_ContentIndex = j\<rparr> s) = (e1, s1)" by fastforce
  obtain e2 s2 where 2: "recover_parts k (j + 1) rest s1 = (e2, s2)" by fastforce
  from Cons.prems have "es = e1 @ e2" by (simp add: 1 2 Let_def)
  moreover have "anth_text e1 = part_text c" using 1 by (auto simp: part_text_def emit_carries split: if_splits)
  ultimately show ?case using Cons.IH 2 Cons.prems by (auto simp: 1 Let_def)
qed simp

lemma recover_items_text: "recover_items k items s = (es, s') \<Longrightarrow> anth_text es = output_text items"
proof (induction items arbitrary: k s es)
  case (Cons item rest)
  obtain e1 s1 where 1: "(if ro_Type item \<noteq> ''message'' then ([], s)
      else recover_parts k 0 (ro_Content item) s) = (e1, s1)" by fastforce
  obtain e2 s2 where 2: "recover_items (k + 1) rest s1 = (e2, s2)" by fastforce
  from Cons.prems have "es = e1 @ e2" "s2 = s'" by (simp_all add: 1 2 Let_def)
  moreover have "anth_text e1 = output_text [item]"
    using 1 by (auto simp: output_text_def recover_parts_text split: if_splits)
  moreover from 2 [unfolded \<open>s2 = s'\<close>] have "anth_text e2 = output_text rest" by (rule Cons.IH)
  ultimately show ?case by (simp add: output_text_def)
qed (simp add: output_text_def)

definition terminal_items :: "ResponsesStreamEvent \<Rightarrow> ResponsesOutput list" where
  "terminal_items e = (case rse_Response e of None \<Rightarrow> [] | Some r \<Rightarrow> rr_Output r)"

lemma completed_text:
  assumes "is_terminal_type (rse_Type e)" "\<not> ra_MessageStopSent s"
    and "ResponsesEventToAnthropicEvents e s = (es, s')"
  shows "anth_text es = (if ra_textDelivered s then [] else output_text (terminal_items e))"
proof -
  obtain e1 s1 where 1: "closeCurrentBlock s = (e1, s1)" by fastforce
  obtain e2 s2 where 2: "resToAnthRecoverTerminalText e s1 = (e2, s2)" by fastforce
  obtain e3 s3 where 3: "recover_items 0 (terminal_items e) s1 = (e3, s3)" by fastforce
  obtain e4 s4 where 4: "closeCurrentBlock s3 = (e4, s4)" by fastforce
  from assms have h: "resToAnthHandleCompleted e s = (es, s')" by (simp add: terminal_step)
  then obtain r u where "es = e1 @ e2 @ message_end r u"
    using assms(2) by (auto simp: resToAnthHandleCompleted_def Let_def 1 2)
  then have "anth_text es = anth_text e2" by (simp add: close_carries(1) [OF 1])
  also have "\<dots> = (if ra_textDelivered s1 then [] else anth_text e3)"
    using 2 3 4 close_carries(1) [OF 4]
    by (auto simp: resToAnthRecoverTerminalText_def Let_def terminal_items_def split: option.splits if_splits)
  finally show ?thesis by (simp add: close_carries(4) [OF 1] recover_items_text [OF 3])
qed

text \<open>A tool block (other than \<open>Read\<close>, whose arguments are buffered) is open for output item \<open>k\<close>.\<close>

definition tool_open :: "int \<Rightarrow> bool \<Rightarrow> ra_state \<Rightarrow> bool" where
  "tool_open k had s \<longleftrightarrow> ra_ContentBlockOpen s \<and> ra_CurrentBlockType s = ''tool_use''
     \<and> ra_CurrentToolName s \<noteq> ''Read'' \<and> ra_CurrentToolArgs s = []
     \<and> ra_OutputIndexToBlockIdx s k = Some (ra_ContentBlockIndex s) \<and> ra_CurrentToolHadDelta s = had"

lemma added_tool_open:
  assumes "rse_Item e = Some it" "ro_Type it = ''function_call''" "ro_Name it \<noteq> ''Read''"
    and "rse_Type e = ''response.output_item.added''"
    and "ResponsesEventToAnthropicEvents e s = (es, s')"
  shows "tool_open (rse_OutputIndex e) False s' \<and> anth_json es = []"
proof -
  obtain e1 s1 where 1: "closeCurrentBlock s = (e1, s1)" by fastforce
  with assms show ?thesis
    by (auto simp: ResponsesEventToAnthropicEvents_def resToAnthHandleOutputItemAdded_def Let_def tool_open_def close_carries)
qed

lemma args_delta_step:
  assumes "rse_Type e = ''response.function_call_arguments.delta''" "rse_OutputIndex e = k" "tool_open k had s"
    and "ResponsesEventToAnthropicEvents e s = (es, s')"
  shows "tool_open k (had \<or> rse_Delta e \<noteq> []) s' \<and> anth_json es = rse_Delta e"
  using assms by (auto simp: ResponsesEventToAnthropicEvents_def resToAnthHandleFuncArgsDelta_def Let_def tool_open_def
    split: if_splits)

lemma args_deltas:
  assumes "\<forall>e\<in>set ds. rse_Type e = ''response.function_call_arguments.delta'' \<and> rse_OutputIndex e = k"
    and "tool_open k had s" and "run_conv ResponsesEventToAnthropicEvents ds s = (es, s')"
  shows "tool_open k (had \<or> concat (map rse_Delta ds) \<noteq> []) s' \<and> anth_json es = concat (map rse_Delta ds)"
  using assms
proof (induction ds arbitrary: had s es)
  case (Cons d ds)
  obtain e1 s1 where 1: "ResponsesEventToAnthropicEvents d s = (e1, s1)" by fastforce
  obtain e2 s2 where 2: "run_conv ResponsesEventToAnthropicEvents ds s1 = (e2, s2)" by fastforce
  from Cons.prems(3) 1 2 have es: "es = e1 @ e2" "s2 = s'" by auto
  from args_delta_step [OF _ _ Cons.prems(2) 1] Cons.prems(1)
  have 3: "tool_open k (had \<or> rse_Delta d \<noteq> []) s1" "anth_json e1 = rse_Delta d" by auto
  from Cons.IH [OF _ 3(1)] Cons.prems(1) 2 es(2)
  have "tool_open k ((had \<or> rse_Delta d \<noteq> []) \<or> concat (map rse_Delta ds) \<noteq> []) s'"
    "anth_json e2 = concat (map rse_Delta ds)" by auto
  then show ?case using es(1) 3(2) by auto
qed simp

lemma args_done_step:
  assumes "rse_Type e = ''response.function_call_arguments.done''" "rse_OutputIndex e = k" "tool_open k had s"
    and "ResponsesEventToAnthropicEvents e s = (es, s')"
  shows "anth_json es = (if had then [] else rse_Arguments e) \<and> \<not> ra_ContentBlockOpen s'"
proof -
  obtain e1 s1 where 1: "closeCurrentBlock s = (e1, s1)" by fastforce
  with closed_close [OF 1] assms show ?thesis
    by (auto simp: ResponsesEventToAnthropicEvents_def resToAnthHandleFuncArgsDone_def Let_def tool_open_def
        close_carries get_or_def split: if_splits)
qed

section \<open>Token usage\<close>

lemma usage_from_responses:
  "anthropicUsageFromResponsesUsage None = zeroAnthropicUsage"
  by (simp add: anthropicUsageFromResponsesUsage_def)

definition cached_of :: "ResponsesUsage \<Rightarrow> int" where
  "cached_of u = (case ru_InputTokensDetails u of None \<Rightarrow> 0 | Some d \<Rightarrow> ritd_CachedTokens d)"

lemma usage_split:
  assumes "in64 (ru_InputTokens u)" "0 \<le> cached_of u" "0 \<le> ru_CacheCreationInputTokens u"
    and "cached_of u + ru_CacheCreationInputTokens u \<le> ru_InputTokens u"
  shows "let a = anthropicUsageFromResponsesUsage (Some u) in
     au_InputTokens a = ru_InputTokens u - cached_of u - ru_CacheCreationInputTokens u
     \<and> au_CacheReadInputTokens a = cached_of u
     \<and> au_CacheCreationInputTokens a = ru_CacheCreationInputTokens u
     \<and> au_OutputTokens a = ru_OutputTokens u"
proof -
  let ?d = "ru_InputTokens u - cached_of u"
  from assms have "in64 ?d" and "in64 (?d - ru_CacheCreationInputTokens u)" by (auto simp: in64_def)
  then have "isub (ru_InputTokens u) (cached_of u) = ?d"
    and "isub ?d (ru_CacheCreationInputTokens u) = ?d - ru_CacheCreationInputTokens u"
    by (simp_all add: isub_exact)
  with assms show ?thesis
    by (auto simp: anthropicUsageFromResponsesUsage_def Let_def cached_of_def split: option.splits)
qed

text \<open>Events that carry no text and leave the text bookkeeping alone.\<close>

definition silent_event :: "ResponsesStreamEvent \<Rightarrow> bool" where
  "silent_event e \<longleftrightarrow> rse_Type e \<in> {''response.created'', ''response.output_item.added'', ''response.content_part.added'',
     ''response.content_part.done'', ''response.output_item.done''}"

definition keeps_text :: "ra_state \<Rightarrow> AnthropicStreamEvent list \<times> ra_state \<Rightarrow> bool" where
  "keeps_text s r \<longleftrightarrow> anth_text (fst r) = [] \<and> ra_textByPart (snd r) = ra_textByPart s
     \<and> ra_textDelivered (snd r) = ra_textDelivered s \<and> ra_MessageStopSent (snd r) = ra_MessageStopSent s"

lemma keeps_text_Nil [simp]: "keeps_text s ([], s)"
  by (simp add: keeps_text_def)

lemma keeps_text_close: "keeps_text s (closeCurrentBlock s)"
  using close_carries [of s "fst (closeCurrentBlock s)" "snd (closeCurrentBlock s)"] by (simp add: keeps_text_def)

lemma keeps_text_created: "keeps_text s (resToAnthHandleCreated e s)"
  by (simp add: resToAnthHandleCreated_def Let_def keeps_text_def split: option.split)

lemma keeps_text_added: "keeps_text s (resToAnthHandleOutputItemAdded e s)"
proof -
  obtain e1 s1 where 1: "closeCurrentBlock s = (e1, s1)" by fastforce
  from close_carries [OF 1] show ?thesis
    by (simp add: resToAnthHandleOutputItemAdded_def Let_def 1 keeps_text_def split: option.split)
qed

lemma keeps_text_item_done: "keeps_text s (resToAnthHandleOutputItemDone e s)"
proof (cases "rse_Item e")
  case None
  then show ?thesis by (simp add: resToAnthHandleOutputItemDone_def)
next
  case (Some it)
  obtain e1 s1 where 1: "closeCurrentBlock s = (e1, s1)" by fastforce
  note keeps_text_close [of "s\<lparr>ra_PendingThinkingSignature := TrimSpace (ro_EncryptedContent it)\<rparr>"]
  moreover have "keeps_text s (resToAnthHandleWebSearchDone it s)"
    using close_carries [OF 1] by (simp add: resToAnthHandleWebSearchDone_def Let_def 1 keeps_text_def)
  ultimately show ?thesis using keeps_text_close [of s]
    by (simp add: resToAnthHandleOutputItemDone_def Let_def Some keeps_text_def)
qed

lemma silent_step:
  assumes "silent_event e"
  shows "keeps_text s (ResponsesEventToAnthropicEvents e s)"
proof -
  from assms consider "ResponsesEventToAnthropicEvents e s = resToAnthHandleCreated e s"
    | "ResponsesEventToAnthropicEvents e s = resToAnthHandleOutputItemAdded e s"
    | "ResponsesEventToAnthropicEvents e s = resToAnthHandleOutputItemDone e s"
    | "ResponsesEventToAnthropicEvents e s = ([], s)"
    by (auto simp: silent_event_def ResponsesEventToAnthropicEvents_def)
  then show ?thesis by cases (simp_all add: keeps_text_created keeps_text_added keeps_text_item_done)
qed

lemma silent_delivered:
  "silent_event e \<Longrightarrow> delivered_only p D s \<Longrightarrow> ResponsesEventToAnthropicEvents e s = (es, s') \<Longrightarrow>
   delivered_only p D s' \<and> anth_text es = []"
  using silent_step [of e s] by (simp add: delivered_only_def keeps_text_def)

definition text_event :: "responsesTextPart \<Rightarrow> ResponsesStreamEvent \<Rightarrow> bool" where
  \<comment> \<open>a text delta of part \<open>p\<close>, or an event without text\<close>
  "text_event p e \<longleftrightarrow> silent_event e \<or> rse_Type e = ''response.output_text.delta'' \<and> resToAnthTextPartOf e = p"

lemma silent_no_text: "silent_event e \<Longrightarrow> resp_text_of e = []"
  by (auto simp: silent_event_def resp_text_of_def)

lemma text_events_delivered:
  assumes "delivered_only p D s" and "list_all (text_event p) ds"
    and "run_conv ResponsesEventToAnthropicEvents ds s = (es, s')"
  shows "delivered_only p (D @ resp_text ds) s' \<and> anth_text es = resp_text ds"
  using assms
proof (induction ds arbitrary: D s es)
  case (Cons d ds)
  obtain e1 s1 where 1: "ResponsesEventToAnthropicEvents d s = (e1, s1)" by fastforce
  obtain e2 s2 where 2: "run_conv ResponsesEventToAnthropicEvents ds s1 = (e2, s2)" by fastforce
  from Cons.prems(3) 1 2 have es: "es = e1 @ e2" "s2 = s'" by auto
  have "delivered_only p (D @ resp_text_of d) s1 \<and> anth_text e1 = resp_text_of d"
  proof (cases "silent_event d")
    case True
    from silent_delivered [OF True Cons.prems(1) 1] show ?thesis by (simp add: silent_no_text [OF True])
  next
    case False
    with Cons.prems(2) have t: "rse_Type d = ''response.output_text.delta''" "resToAnthTextPartOf d = p"
      by (auto simp: text_event_def)
    have r: "run_conv ResponsesEventToAnthropicEvents [d] s = (e1, s1)" by (simp add: 1)
    from deltas_delivered [OF Cons.prems(1) _ r] t show ?thesis by (simp add: resp_text_of_def)
  qed
  with Cons.IH [of "D @ resp_text_of d" s1 e2] Cons.prems(2) 2 es show ?case by simp
qed simp

lemma completed_stops:
  "is_terminal_type (rse_Type e) \<Longrightarrow> ra_MessageStopSent (snd (ResponsesEventToAnthropicEvents e s))"
  by (auto simp: terminal_step resToAnthHandleCompleted_def Let_def split: prod.split)

lemma ra_finalize_twice:
  "FinalizeResponsesAnthropicStream (snd (FinalizeResponsesAnthropicStream s)) = ([], snd (FinalizeResponsesAnthropicStream s))"
  by (auto simp: FinalizeResponsesAnthropicStream_def Let_def split: prod.split)

end
