(* ===== verification/ClaudeModels.thy ===== *)
theory ClaudeModels
  imports GoStrings
begin

text \<open>
  Recognition of Claude model identifiers and their reasoning-effort levels
  (\<open>internal/pkg/claude/effort_catalog.go\<close>).
\<close>

section \<open>unicode.IsDigit\<close>

definition digit_zeros :: "nat list" where
  \<comment> \<open>the digit zero of every block of ten decimal digits outside ASCII\<close>
  "digit_zeros = [0x0660, 0x06F0, 0x07C0, 0x0966, 0x09E6, 0x0A66, 0x0AE6, 0x0B66, 0x0BE6, 0x0C66,
     0x0CE6, 0x0D66, 0x0DE6, 0x0E50, 0x0ED0, 0x0F20, 0x1040, 0x1090, 0x17E0, 0x1810, 0x1946, 0x19D0,
     0x1A80, 0x1A90, 0x1B50, 0x1BB0, 0x1C40, 0x1C50, 0xA620, 0xA8D0, 0xA900, 0xA9D0, 0xA9F0, 0xAA50,
     0xABF0, 0xFF10, 0x104A0, 0x10D30, 0x11066, 0x110F0, 0x11136, 0x111D0, 0x112F0, 0x11450, 0x114D0,
     0x11650, 0x116C0, 0x11730, 0x118E0, 0x11950, 0x11C50, 0x11D50, 0x11DA0, 0x11F50, 0x16A60,
     0x16AC0, 0x16B50, 0x1D7CE, 0x1D7D8, 0x1D7E2, 0x1D7EC, 0x1D7F6, 0x1E140, 0x1E2F0, 0x1E4F0,
     0x1E950, 0x1FBF0]"

definition digits_from :: "nat \<Rightarrow> string list" where
  "digits_from z = map (\<lambda>k. encode_rune (z + k)) [0..<10]"

fun rune_is_digit :: "string \<Rightarrow> bool" where
  "rune_is_digit [] = False"
| "rune_is_digit [c] = is_digit c"
| "rune_is_digit (c # d # r) = list_ex (\<lambda>z. (c # d # r) \<in> set (digits_from z)) digit_zeros"

section \<open>Effort families\<close>

definition effortLowMediumHigh :: "string list" where
  "effortLowMediumHigh = [''low'', ''medium'', ''high'']"

definition effortLowMediumHighMax :: "string list" where
  "effortLowMediumHighMax = [''low'', ''medium'', ''high'', ''max'']"

definition effortLowMediumHighXHighMax :: "string list" where
  "effortLowMediumHighXHighMax = [''low'', ''medium'', ''high'', ''xhigh'', ''max'']"

definition effortFamilies :: "(string \<times> string list) list" where
  "effortFamilies = [
     (''claude-mythos-preview'', effortLowMediumHighMax),
     (''claude-mythos-5'', effortLowMediumHighXHighMax),
     (''claude-fable-5'', effortLowMediumHighXHighMax),
     (''claude-sonnet-4-6'', effortLowMediumHighMax),
     (''claude-sonnet-5-5'', effortLowMediumHighXHighMax),
     (''claude-sonnet-5'', effortLowMediumHighXHighMax),
     (''claude-opus-4-8'', effortLowMediumHighXHighMax),
     (''claude-opus-4-7'', effortLowMediumHighXHighMax),
     (''claude-opus-4-6'', effortLowMediumHighMax),
     (''claude-opus-4-5'', effortLowMediumHigh),
     (''claude-opus-5-5'', effortLowMediumHighXHighMax),
     (''claude-opus-5'', effortLowMediumHighXHighMax),
     (''claude-haiku-5-5'', effortLowMediumHighXHighMax)]"

definition ModelIDReverseOverrides :: "(string \<times> string) list" where
  "ModelIDReverseOverrides = [
     (''claude-sonnet-4-5-20250929'', ''claude-sonnet-4-5''),
     (''claude-opus-4-5-20251101'', ''claude-opus-4-5''),
     (''claude-haiku-4-5-20251001'', ''claude-haiku-4-5'')]"

definition ModelIDOverrides :: "(string \<times> string) list" where
  "ModelIDOverrides = [
     (''claude-sonnet-4-5'', ''claude-sonnet-4-5-20250929''),
     (''claude-opus-4-5'', ''claude-opus-4-5-20251101''),
     (''claude-haiku-4-5'', ''claude-haiku-4-5-20251001'')]"

definition NormalizeModelID :: "string \<Rightarrow> string" where
  "NormalizeModelID i = (if i = [] then i
     else case map_of ModelIDOverrides i of Some m \<Rightarrow> m | None \<Rightarrow> i)"

definition DenormalizeModelID :: "string \<Rightarrow> string" where
  "DenormalizeModelID i = (if i = [] then i
     else case map_of ModelIDReverseOverrides i of Some m \<Rightarrow> m | None \<Rightarrow> i)"

definition strip_date_suffix :: "string \<Rightarrow> string" where
  \<comment> \<open>a final hyphen followed by eight bytes of digits\<close>
  "strip_date_suffix i =
     (if 9 \<le> length i then
        (let suffix = drop (length i - 9) i in
         if hd suffix = CHR ''-'' \<and> list_all rune_is_digit (runes (tl suffix))
         then take (length i - 9) i else i)
      else i)"

definition dotted_minor :: "string \<Rightarrow> string" where
  "dotted_minor i =
     (if i = ''claude-opus-5.5'' then ''claude-opus-5-5''
      else if i = ''claude-sonnet-5.5'' then ''claude-sonnet-5-5''
      else if i = ''claude-haiku-5.5'' then ''claude-haiku-5-5'' else i)"

definition normalizeEffortModelID :: "string \<Rightarrow> string" where
  "normalizeEffortModelID model =
     (let i1 = TrimPrefix (ToLower (TrimSpace model)) ''models/'';
          i2 = (case IndexByte i1 CHR ''/'' of
                  Some slash \<Rightarrow> TrimPrefix (TrimSpace (drop (slash + 1) i1)) ''models/''
                | None \<Rightarrow> i1);
          i3 = foldl TrimPrefix i2 [''us.'', ''eu.'', ''apac.'', ''jp.'', ''au.'', ''us-gov.'', ''global.''];
          i4 = TrimSuffix (TrimPrefix i3 ''anthropic.'') ''-thinking'';
          i5 = dotted_minor i4;
          i6 = (case map_of ModelIDReverseOverrides i5 of Some m \<Rightarrow> m | None \<Rightarrow> i5)
      in strip_date_suffix i6)"

fun find_family :: "(string \<times> string list) list \<Rightarrow> string \<Rightarrow> string list" where
  "find_family [] i = []"
| "find_family ((family, levels) # rest) i =
     (if i = family \<or> HasPrefix i (family @ ''-'') then levels else find_family rest i)"

definition EffortLevelsForModel :: "string \<Rightarrow> string list" where
  "EffortLevelsForModel model = find_family effortFamilies (normalizeEffortModelID model)"

definition IsOpus55 :: "string \<Rightarrow> bool" where
  "IsOpus55 model = (normalizeEffortModelID model = ''claude-opus-5-5'')"

definition IsSonnet55 :: "string \<Rightarrow> bool" where
  "IsSonnet55 model = (normalizeEffortModelID model = ''claude-sonnet-5-5'')"

definition IsHaiku55 :: "string \<Rightarrow> bool" where
  "IsHaiku55 model = (normalizeEffortModelID model = ''claude-haiku-5-5'')"

section \<open>Properties\<close>

lemma find_family_levels: "find_family fs i \<in> insert [] (set (map snd fs))"
  by (induction fs i rule: find_family.induct) auto

text \<open>The model-ID overrides are a bijection between short and dated names.\<close>

lemma denormalize_normalize:
  "i \<notin> set (map fst ModelIDReverseOverrides) \<Longrightarrow> DenormalizeModelID (NormalizeModelID i) = i"
  by (auto simp: DenormalizeModelID_def NormalizeModelID_def ModelIDOverrides_def ModelIDReverseOverrides_def)

end
