(* ===== verification/AnthropicToResponses.thy ===== *)
theory AnthropicToResponses
  imports ToolNames ClaudeModels
begin

text \<open>
  \<open>anthropic_to_responses_response.go\<close>: Anthropic Messages answers, whole or streamed, as
  Responses.  The converter's state is \<open>as_state\<close> (\<open>AnthropicEventToResponsesState\<close>) with
  the process's entropy source as a last field, since fresh item IDs are drawn from it.
\<close>

section \<open>Fresh identifiers\<close>

definition generate_id :: "string \<Rightarrow> rng \<Rightarrow> string \<times> rng" where
  "generate_id prefix g = (let (b, g') = draw12 g in (prefix @ hex_encode b, g'))"

definition generateResponsesID :: "rng \<Rightarrow> string \<times> rng" where
  "generateResponsesID g = generate_id ''resp_'' g"

definition generateItemID :: "rng \<Rightarrow> string \<times> rng" where
  "generateItemID g = generate_id ''item_'' g"

section \<open>The envelope of a signed thinking block\<close>

definition anthropicThinkingEnvelopePrefix :: string where
  "anthropicThinkingEnvelopePrefix = ''anthropic-thinking-v1:''"

definition json_field :: "string \<Rightarrow> string \<Rightarrow> string" where
  "json_field k v = Marshal_string k @ '':'' @ Marshal_string v"

definition thinking_payload :: "AnthropicContentBlock \<Rightarrow> string" where
  \<comment> \<open>\<open>json.Marshal\<close> of the anonymous struct; the last two fields are \<open>omitempty\<close>\<close>
  "thinking_payload block =
     ''{'' @ json_field ''type'' (acb_Type block) @ '','' @ json_field ''thinking'' (acb_Thinking block)
       @ (if acb_Signature block = [] then [] else '','' @ json_field ''signature'' (acb_Signature block))
       @ (if acb_Data block = [] then [] else '','' @ json_field ''data'' (acb_Data block)) @ ''}''"

definition encodeAnthropicThinking :: "AnthropicContentBlock \<Rightarrow> string" where
  "encodeAnthropicThinking block =
     anthropicThinkingEnvelopePrefix @ b64_encode (thinking_payload block)"

definition keeps_signatures :: "string \<Rightarrow> bool" where
  \<comment> \<open>\<open>claude.IsOpus55(m) || claude.IsSonnet55(m) || claude.IsHaiku55(m)\<close>\<close>
  "keeps_signatures model \<longleftrightarrow> IsOpus55 model \<or> IsSonnet55 model \<or> IsHaiku55 model"

section \<open>Whole responses\<close>

definition anthropicStopReasonToResponsesStatus :: "string \<Rightarrow> string" where
  \<comment> \<open>the code does not read its second argument, the blocks\<close>
  "anthropicStopReasonToResponsesStatus stopReason =
     (if stopReason = ''max_tokens'' then ''incomplete'' else ''completed'')"

definition summary_of :: "string \<Rightarrow> ResponsesSummary list" where
  "summary_of t = [\<lparr>rsum_Type = ''summary_text'', rsum_Text = t\<rparr>]"

definition text_part :: "string \<Rightarrow> ResponsesContentPart" where
  "text_part t = zeroPart\<lparr>rcp_Type := ''output_text'', rcp_Text := t\<rparr>"

definition message_item :: "string \<Rightarrow> ResponsesContentPart list \<Rightarrow> ResponsesOutput" where
  "message_item i parts = zeroOutput\<lparr>ro_Type := ''message'', ro_ID := i, ro_Role := ''assistant'',
     ro_Content := parts, ro_Status := ''completed''\<rparr>"

text \<open>One iteration of the loop over \<open>resp.Content\<close>, on \<open>outputs\<close> and \<open>msgParts\<close>.\<close>

definition block_to_output :: "string \<Rightarrow> AnthropicContentBlock
    \<Rightarrow> ResponsesOutput list \<times> ResponsesContentPart list \<times> rng
    \<Rightarrow> ResponsesOutput list \<times> ResponsesContentPart list \<times> rng" where
  "block_to_output model block acc = (case acc of (outputs, msgParts, g) \<Rightarrow>
     if acb_Type block = ''thinking'' \<or> acb_Type block = ''redacted_thinking'' then
       (if keeps_signatures model \<and> (acb_Signature block \<noteq> [] \<or> acb_Data block \<noteq> []) then
          (let (i, g') = generateItemID g in
           (outputs @ [zeroOutput\<lparr>ro_Type := ''reasoning'', ro_ID := i,
              ro_EncryptedContent := encodeAnthropicThinking block,
              ro_Summary := (if acb_Thinking block \<noteq> [] then summary_of (acb_Thinking block) else [])\<rparr>],
            msgParts, g'))
        else if acb_Thinking block \<noteq> [] then
          (let (i, g') = generateItemID g in
           (outputs @ [zeroOutput\<lparr>ro_Type := ''reasoning'', ro_ID := i,
              ro_Summary := summary_of (acb_Thinking block)\<rparr>], msgParts, g'))
        else acc)
     else if acb_Type block = ''text'' then
       (if keeps_signatures model \<and> acb_Text block \<noteq> [] then
          (let (i, g') = generateItemID g in
           (outputs @ [message_item i [text_part (acb_Text block)]], msgParts, g'))
        else if acb_Text block \<noteq> [] then (outputs, msgParts @ [text_part (acb_Text block)], g)
        else acc)
     else if acb_Type block = ''tool_use'' then
       (let (i, g') = generateItemID g in
        (outputs @ [zeroOutput\<lparr>ro_Type := ''function_call'', ro_ID := i,
           ro_CallID := toResponsesCallID (acb_ID block), ro_Name := acb_Name block,
           ro_Arguments := (if acb_Input block \<noteq> [] then acb_Input block else ''{}''),
           ro_Status := ''completed''\<rparr>], msgParts, g'))
     else acc)"

definition responses_usage :: "int \<Rightarrow> int \<Rightarrow> int \<Rightarrow> int \<Rightarrow> ResponsesUsage" where
  \<comment> \<open>input, output, cache-read and cache-creation tokens, as both converters assemble them\<close>
  "responses_usage inp out cacheRead cacheCreation =
     (let total = iadd (iadd inp cacheRead) cacheCreation in
      zeroResponsesUsage\<lparr>ru_InputTokens := total, ru_OutputTokens := out,
        ru_TotalTokens := iadd total out, ru_CacheCreationInputTokens := cacheCreation,
        ru_InputTokensDetails := (if cacheRead > 0 then Some (zeroInputDetails\<lparr>ritd_CachedTokens := cacheRead\<rparr>)
           else None)\<rparr>)"

definition AnthropicToResponsesResponse :: "AnthropicResponse \<Rightarrow> int \<Rightarrow> rng \<Rightarrow> ResponsesResponse \<times> rng" where
  "AnthropicToResponsesResponse resp now g =
     (let (i, g1) = (if ar_ID resp = [] then generateResponsesID g else (ar_ID resp, g));
          (outputs1, msgParts, g2) = fold (block_to_output (ar_Model resp)) (ar_Content resp) ([], [], g1);
          (outputs2, g3) = (if msgParts \<noteq> [] then
              (let (j, g') = generateItemID g2 in (outputs1 @ [message_item j msgParts], g'))
            else (outputs1, g2));
          (outputs, g4) = (if outputs2 = [] then
              (let (j, g') = generateItemID g3 in ([message_item j [text_part []]], g'))
            else (outputs2, g3));
          status = anthropicStopReasonToResponsesStatus (AnthropicStopReasonString (ar_StopReason resp));
          u = ar_Usage resp
      in (zeroResponse\<lparr>rr_ID := i, rr_Object := ''response'', rr_CreatedAt := now, rr_Model := ar_Model resp,
            rr_Output := outputs, rr_Status := status,
            rr_IncompleteDetails := (if status = ''incomplete''
               then Some \<lparr>rid_Reason = ''max_output_tokens''\<rparr> else None),
            rr_Usage := Some (responses_usage (au_InputTokens u) (au_OutputTokens u)
               (au_CacheReadInputTokens u) (au_CacheCreationInputTokens u))\<rparr>, g4))"

section \<open>The stream converter's state\<close>

record as_state =
  as_ResponseID :: string
  as_Model :: string
  as_Created :: int
  as_SequenceNumber :: int
  as_CreatedSent :: bool
  as_CompletedSent :: bool
  as_OutputIndex :: int
  as_CurrentItemID :: string
  as_CurrentItemType :: string
  as_ContentIndex :: int
  as_TextAccum :: string
  as_CurrentCallID :: string
  as_CurrentName :: string
  as_CurrentContent :: "ResponsesContentPart list"
  as_CurrentArgs :: string
  as_CurrentSummary :: string
  as_CurrentThinking :: AnthropicContentBlock
  as_PreserveThinkingSignatures :: bool
  as_PendingToolInput :: string
  as_Outputs :: "ResponsesOutput list"
  as_InputTokens :: int
  as_OutputTokens :: int
  as_CacheReadInputTokens :: int
  as_CacheCreationInputTokens :: int
  as_StopReason :: string
  as_rand :: rng

definition NewAnthropicEventToResponsesState :: "int \<Rightarrow> rng \<Rightarrow> as_state" where
  "NewAnthropicEventToResponsesState now g = \<lparr>as_ResponseID = [], as_Model = [], as_Created = now,
     as_SequenceNumber = 0, as_CreatedSent = False, as_CompletedSent = False, as_OutputIndex = 0,
     as_CurrentItemID = [], as_CurrentItemType = [], as_ContentIndex = 0, as_TextAccum = [],
     as_CurrentCallID = [], as_CurrentName = [], as_CurrentContent = [], as_CurrentArgs = [],
     as_CurrentSummary = [], as_CurrentThinking = zeroBlock, as_PreserveThinkingSignatures = False,
     as_PendingToolInput = [], as_Outputs = [], as_InputTokens = 0, as_OutputTokens = 0,
     as_CacheReadInputTokens = 0, as_CacheCreationInputTokens = 0, as_StopReason = [], as_rand = g\<rparr>"

section \<open>Event constructors\<close>

definition makeResponsesEvent ::
  "string \<Rightarrow> ResponsesStreamEvent \<Rightarrow> as_state \<Rightarrow> ResponsesStreamEvent \<times> as_state" where
  "makeResponsesEvent eventType template s =
     (template\<lparr>rse_Type := eventType, rse_SequenceNumber := as_SequenceNumber s\<rparr>,
      s\<lparr>as_SequenceNumber := as_SequenceNumber s + 1\<rparr>)"

definition makeResponsesCreatedEvent :: "as_state \<Rightarrow> ResponsesStreamEvent \<times> as_state" where
  "makeResponsesCreatedEvent s =
     (zeroRSE\<lparr>rse_Type := ''response.created'', rse_SequenceNumber := as_SequenceNumber s,
        rse_Response := Some (zeroResponse\<lparr>rr_ID := as_ResponseID s, rr_Object := ''response'',
          rr_CreatedAt := as_Created s, rr_Model := as_Model s, rr_Status := ''in_progress'',
          rr_Output := []\<rparr>)\<rparr>,
      s\<lparr>as_SequenceNumber := as_SequenceNumber s + 1\<rparr>)"

definition makeResponsesCompletedEvent ::
  "string \<Rightarrow> ResponsesIncompleteDetails option \<Rightarrow> as_state \<Rightarrow> ResponsesStreamEvent \<times> as_state" where
  "makeResponsesCompletedEvent status incompleteDetails s =
     (zeroRSE\<lparr>rse_Type := (if status = ''incomplete'' then ''response.incomplete'' else ''response.completed''),
        rse_SequenceNumber := as_SequenceNumber s,
        rse_Response := Some (zeroResponse\<lparr>rr_ID := as_ResponseID s, rr_Object := ''response'',
          rr_CreatedAt := as_Created s, rr_Model := as_Model s, rr_Status := status,
          rr_Output := as_Outputs s,
          rr_Usage := Some (responses_usage (as_InputTokens s) (as_OutputTokens s)
             (as_CacheReadInputTokens s) (as_CacheCreationInputTokens s)),
          rr_IncompleteDetails := incompleteDetails\<rparr>)\<rparr>,
      s\<lparr>as_SequenceNumber := as_SequenceNumber s + 1\<rparr>)"

definition anthropicResponsesStreamTerminalState :: "string \<Rightarrow> string \<times> ResponsesIncompleteDetails option" where
  "anthropicResponsesStreamTerminalState stopReason =
     (if stopReason = ''max_tokens'' then (''incomplete'', Some \<lparr>rid_Reason = ''max_output_tokens''\<rparr>)
      else (''completed'', None))"

section \<open>The handlers\<close>

definition current_thinking :: "as_state \<Rightarrow> AnthropicContentBlock" where
  \<comment> \<open>\<open>state.CurrentThinking\<close> after its thinking text has been set to the summary\<close>
  "current_thinking s = (as_CurrentThinking s)\<lparr>acb_Thinking := as_CurrentSummary s\<rparr>"

definition current_item :: "as_state \<Rightarrow> ResponsesOutput" where
  \<comment> \<open>the item \<open>closeCurrentResponsesItem\<close> assembles\<close>
  "current_item s =
     (let item = zeroOutput\<lparr>ro_Type := as_CurrentItemType s, ro_ID := as_CurrentItemID s,
            ro_Status := ''completed''\<rparr>
      in if as_CurrentItemType s = ''message'' then
           item\<lparr>ro_Role := ''assistant'', ro_Content := as_CurrentContent s\<rparr>
         else if as_CurrentItemType s = ''function_call'' then
           item\<lparr>ro_CallID := as_CurrentCallID s, ro_Name := as_CurrentName s,
             ro_Arguments := (if as_CurrentArgs s = [] then ''{}'' else as_CurrentArgs s)\<rparr>
         else if as_CurrentItemType s = ''reasoning'' then
           item\<lparr>ro_EncryptedContent :=
               (if as_PreserveThinkingSignatures s
                   \<and> (acb_Signature (as_CurrentThinking s) \<noteq> [] \<or> acb_Data (as_CurrentThinking s) \<noteq> [])
                then encodeAnthropicThinking (current_thinking s) else []),
             ro_Summary := (if as_CurrentSummary s \<noteq> [] then summary_of (as_CurrentSummary s) else [])\<rparr>
         else item)"

definition closeCurrentResponsesItem :: "as_state \<Rightarrow> ResponsesStreamEvent list \<times> as_state" where
  "closeCurrentResponsesItem s =
     (if as_CurrentItemType s = [] then ([], s)
      else
        (let item = current_item s;
             s1 = s\<lparr>as_Outputs := as_Outputs s @ [item], as_CurrentItemType := [], as_CurrentItemID := [],
               as_CurrentCallID := [], as_CurrentName := [], as_CurrentContent := [], as_CurrentArgs := [],
               as_PendingToolInput := [], as_CurrentSummary := [], as_CurrentThinking := zeroBlock,
               as_TextAccum := [], as_OutputIndex := as_OutputIndex s + 1, as_ContentIndex := 0\<rparr>;
             (e, s2) = makeResponsesEvent ''response.output_item.done''
               (zeroRSE\<lparr>rse_OutputIndex := as_OutputIndex s1 - 1, rse_Item := Some item\<rparr>) s1
         in ([e], s2)))"

definition anthToResHandleMessageStart ::
  "AnthropicStreamEvent \<Rightarrow> as_state \<Rightarrow> ResponsesStreamEvent list \<times> as_state" where
  "anthToResHandleMessageStart evt s =
     (let s1 = (case ase_Message evt of None \<Rightarrow> s
        | Some m \<Rightarrow> (let u = ar_Usage m in
            s\<lparr>as_ResponseID := ar_ID m,
              as_PreserveThinkingSignatures := as_PreserveThinkingSignatures s \<or> keeps_signatures (ar_Model m),
              as_Model := (if as_Model s = [] then ar_Model m else as_Model s),
              as_InputTokens := (if au_InputTokens u > 0 then au_InputTokens u else as_InputTokens s),
              as_CacheReadInputTokens := (if au_CacheReadInputTokens u > 0 then au_CacheReadInputTokens u
                 else as_CacheReadInputTokens s),
              as_CacheCreationInputTokens := (if au_CacheCreationInputTokens u > 0
                 then au_CacheCreationInputTokens u else as_CacheCreationInputTokens s)\<rparr>))
      in if as_CreatedSent s1 then ([], s1)
         else (let (e, s2) = makeResponsesCreatedEvent (s1\<lparr>as_CreatedSent := True\<rparr>) in ([e], s2)))"

definition draw_item_id :: "as_state \<Rightarrow> as_state" where
  \<comment> \<open>\<open>state.CurrentItemID = generateItemID()\<close>\<close>
  "draw_item_id s = (let (i, g) = generateItemID (as_rand s) in s\<lparr>as_CurrentItemID := i, as_rand := g\<rparr>)"

definition open_text_item :: "as_state \<Rightarrow> ResponsesStreamEvent list \<times> as_state" where
  \<comment> \<open>the \<open>if state.CurrentItemType != "message"\<close> branch of the text case\<close>
  "open_text_item s =
     (if as_CurrentItemType s = ''message'' then ([], s)
      else
        (let (e1, s1) = closeCurrentResponsesItem s;
             s2 = (draw_item_id s1)\<lparr>as_CurrentItemType := ''message'', as_ContentIndex := 0\<rparr>;
             (e2, s3) = makeResponsesEvent ''response.output_item.added''
               (zeroRSE\<lparr>rse_OutputIndex := as_OutputIndex s2,
                  rse_Item := Some (zeroOutput\<lparr>ro_Type := ''message'', ro_ID := as_CurrentItemID s2,
                    ro_Role := ''assistant'', ro_Status := ''in_progress''\<rparr>)\<rparr>) s2
         in (e1 @ [e2], s3)))"

definition anthToResHandleContentBlockStart ::
  "AnthropicStreamEvent \<Rightarrow> as_state \<Rightarrow> ResponsesStreamEvent list \<times> as_state" where
  "anthToResHandleContentBlockStart evt s =
     (case ase_ContentBlock evt of None \<Rightarrow> ([], s)
      | Some b \<Rightarrow>
        if acb_Type b = ''thinking'' \<or> acb_Type b = ''redacted_thinking'' then
          (let (e1, s1) = closeCurrentResponsesItem s;
               s2 = (draw_item_id s1)\<lparr>as_CurrentItemType := ''reasoning'', as_CurrentThinking := b,
                 as_CurrentSummary := acb_Thinking b, as_ContentIndex := 0\<rparr>;
               (e2, s3) = makeResponsesEvent ''response.output_item.added''
                 (zeroRSE\<lparr>rse_OutputIndex := as_OutputIndex s2,
                    rse_Item := Some (zeroOutput\<lparr>ro_Type := ''reasoning'', ro_ID := as_CurrentItemID s2\<rparr>)\<rparr>) s2
           in (e1 @ [e2], s3))
        else if acb_Type b = ''text'' then
          (let (e1, s1) = open_text_item s;
               (e2, s2) = makeResponsesEvent ''response.content_part.added''
                 (zeroRSE\<lparr>rse_OutputIndex := as_OutputIndex s1, rse_ContentIndex := as_ContentIndex s1,
                    rse_ItemID := as_CurrentItemID s1, rse_Part := Some (text_part [])\<rparr>) s1
           in (e1 @ [e2], s2\<lparr>as_TextAccum := []\<rparr>))
        else if acb_Type b = ''tool_use'' then
          (let (e1, s1) = closeCurrentResponsesItem s;
               s2 = (draw_item_id s1)\<lparr>as_CurrentItemType := ''function_call'',
                 as_CurrentCallID := toResponsesCallID (acb_ID b), as_CurrentName := acb_Name b,
                 as_PendingToolInput := seedToolArguments (acb_Input b)\<rparr>;
               (e2, s3) = makeResponsesEvent ''response.output_item.added''
                 (zeroRSE\<lparr>rse_OutputIndex := as_OutputIndex s2,
                    rse_Item := Some (zeroOutput\<lparr>ro_Type := ''function_call'', ro_ID := as_CurrentItemID s2,
                      ro_CallID := as_CurrentCallID s2, ro_Name := as_CurrentName s2,
                      ro_Status := ''in_progress''\<rparr>)\<rparr>) s2
           in (e1 @ [e2], s3))
        else ([], s))"

definition one_event :: "ResponsesStreamEvent \<times> as_state \<Rightarrow> ResponsesStreamEvent list \<times> as_state" where
  "one_event r = (case r of (e, s) \<Rightarrow> ([e], s))"

definition call_template :: "as_state \<Rightarrow> ResponsesStreamEvent" where
  "call_template s = zeroRSE\<lparr>rse_OutputIndex := as_OutputIndex s, rse_ItemID := as_CurrentItemID s,
     rse_CallID := as_CurrentCallID s, rse_Name := as_CurrentName s\<rparr>"

definition anthToResHandleContentBlockDelta ::
  "AnthropicStreamEvent \<Rightarrow> as_state \<Rightarrow> ResponsesStreamEvent list \<times> as_state" where
  "anthToResHandleContentBlockDelta evt s =
     (case ase_Delta evt of None \<Rightarrow> ([], s)
      | Some d \<Rightarrow>
        if ad_Type d = ''text_delta'' then
          (if ad_Text d = [] then ([], s)
           else one_event (makeResponsesEvent ''response.output_text.delta''
             (zeroRSE\<lparr>rse_OutputIndex := as_OutputIndex s, rse_ContentIndex := as_ContentIndex s,
                rse_Delta := ad_Text d, rse_ItemID := as_CurrentItemID s\<rparr>)
             (s\<lparr>as_TextAccum := as_TextAccum s @ ad_Text d\<rparr>)))
        else if ad_Type d = ''thinking_delta'' then
          (if ad_Thinking d = [] then ([], s)
           else one_event (makeResponsesEvent ''response.reasoning_summary_text.delta''
             (zeroRSE\<lparr>rse_OutputIndex := as_OutputIndex s, rse_SummaryIndex := 0,
                rse_Delta := ad_Thinking d, rse_ItemID := as_CurrentItemID s\<rparr>)
             (s\<lparr>as_CurrentSummary := as_CurrentSummary s @ ad_Thinking d\<rparr>)))
        else if ad_Type d = ''input_json_delta'' then
          (if ad_PartialJSON d = [] then ([], s)
           else one_event (makeResponsesEvent ''response.function_call_arguments.delta''
             ((call_template s)\<lparr>rse_Delta := ad_PartialJSON d\<rparr>)
             (s\<lparr>as_PendingToolInput := [], as_CurrentArgs := as_CurrentArgs s @ ad_PartialJSON d\<rparr>)))
        else if ad_Type d = ''signature_delta'' then
          ([], if as_PreserveThinkingSignatures s
               then s\<lparr>as_CurrentThinking := (as_CurrentThinking s)
                  \<lparr>acb_Signature := acb_Signature (as_CurrentThinking s) @ ad_Signature d\<rparr>\<rparr>
               else s)
        else ([], s))"

definition anthToResHandleContentBlockStop :: "as_state \<Rightarrow> ResponsesStreamEvent list \<times> as_state" where
  "anthToResHandleContentBlockStop s =
     (if as_CurrentItemType s = ''reasoning'' then
        (let (e1, s1) = makeResponsesEvent ''response.reasoning_summary_text.done''
               (zeroRSE\<lparr>rse_OutputIndex := as_OutputIndex s, rse_SummaryIndex := 0,
                  rse_ItemID := as_CurrentItemID s\<rparr>) s;
             (e2, s2) = closeCurrentResponsesItem s1
         in (e1 # e2, s2))
      else if as_CurrentItemType s = ''function_call'' then
        (let (e0, s0) =
               (if as_CurrentArgs s = [] \<and> as_PendingToolInput s \<noteq> [] then
                  (let pending = as_PendingToolInput s; s' = s\<lparr>as_CurrentArgs := pending\<rparr> in
                   one_event (makeResponsesEvent ''response.function_call_arguments.delta''
                     ((call_template s')\<lparr>rse_Delta := pending\<rparr>) s'))
                else ([], s));
             s1 = s0\<lparr>as_PendingToolInput := []\<rparr>;
             (e1, s2) = makeResponsesEvent ''response.function_call_arguments.done''
               ((call_template s1)\<lparr>rse_Arguments := as_CurrentArgs s1\<rparr>) s1;
             (e2, s3) = closeCurrentResponsesItem s2
         in (e0 @ [e1] @ e2, s3))
      else if as_CurrentItemType s = ''message'' then
        (let text = as_TextAccum s; contentIndex = as_ContentIndex s;
             s1 = s\<lparr>as_TextAccum := [], as_CurrentContent := as_CurrentContent s @ [text_part text],
               as_ContentIndex := contentIndex + 1\<rparr>;
             (e1, s2) = makeResponsesEvent ''response.output_text.done''
               (zeroRSE\<lparr>rse_OutputIndex := as_OutputIndex s1, rse_ContentIndex := contentIndex,
                  rse_ItemID := as_CurrentItemID s1, rse_Text := text\<rparr>) s1;
             (e2, s3) = makeResponsesEvent ''response.content_part.done''
               (zeroRSE\<lparr>rse_OutputIndex := as_OutputIndex s2, rse_ContentIndex := contentIndex,
                  rse_ItemID := as_CurrentItemID s2, rse_Part := Some (text_part text)\<rparr>) s2
         in ([e1, e2], s3))
      else ([], s))"

definition anthToResHandleMessageDelta ::
  "AnthropicStreamEvent \<Rightarrow> as_state \<Rightarrow> ResponsesStreamEvent list \<times> as_state" where
  "anthToResHandleMessageDelta evt s =
     (let s1 = (case ase_Usage evt of None \<Rightarrow> s
        | Some u \<Rightarrow> s\<lparr>as_OutputTokens := au_OutputTokens u,
            as_InputTokens := (if au_InputTokens u > 0 then au_InputTokens u else as_InputTokens s),
            as_CacheReadInputTokens := (if au_CacheReadInputTokens u > 0 then au_CacheReadInputTokens u
               else as_CacheReadInputTokens s),
            as_CacheCreationInputTokens := (if au_CacheCreationInputTokens u > 0
               then au_CacheCreationInputTokens u else as_CacheCreationInputTokens s)\<rparr>)
      in ([], case ase_Delta evt of None \<Rightarrow> s1
              | Some d \<Rightarrow> if ad_StopReason d \<noteq> [] then s1\<lparr>as_StopReason := ad_StopReason d\<rparr> else s1))"

definition finish_response :: "as_state \<Rightarrow> ResponsesStreamEvent list \<times> as_state" where
  \<comment> \<open>the common tail of \<open>anthToResHandleMessageStop\<close> and the finaliser\<close>
  "finish_response s =
     (let (e1, s1) = closeCurrentResponsesItem s;
          (status, details) = anthropicResponsesStreamTerminalState (as_StopReason s1);
          (e2, s2) = makeResponsesCompletedEvent status details s1
      in (e1 @ [e2], s2\<lparr>as_CompletedSent := True\<rparr>))"

definition anthToResHandleMessageStop :: "as_state \<Rightarrow> ResponsesStreamEvent list \<times> as_state" where
  "anthToResHandleMessageStop s = (if as_CompletedSent s then ([], s) else finish_response s)"

definition AnthropicEventToResponsesEvents ::
  "AnthropicStreamEvent \<Rightarrow> as_state \<Rightarrow> ResponsesStreamEvent list \<times> as_state" where
  "AnthropicEventToResponsesEvents evt s =
     (let t = ase_Type evt in
      if t = ''message_start'' then anthToResHandleMessageStart evt s
      else if t = ''content_block_start'' then anthToResHandleContentBlockStart evt s
      else if t = ''content_block_delta'' then anthToResHandleContentBlockDelta evt s
      else if t = ''content_block_stop'' then anthToResHandleContentBlockStop s
      else if t = ''message_delta'' then anthToResHandleMessageDelta evt s
      else if t = ''message_stop'' then anthToResHandleMessageStop s
      else ([], s))"

definition FinalizeAnthropicResponsesStream :: "as_state \<Rightarrow> ResponsesStreamEvent list \<times> as_state" where
  "FinalizeAnthropicResponsesStream s =
     (if \<not> as_CreatedSent s \<or> as_CompletedSent s then ([], s) else finish_response s)"

end
