(* ===== verification/AnthropicToResponsesCorrect.thy ===== *)
theory AnthropicToResponsesCorrect
  imports AnthropicToResponses Protocols
begin

text \<open>
  Correctness of the Anthropic to Responses stream converter: an upstream that follows the
  Messages protocol, with blocks the converter handles, becomes a Responses stream that
  follows the Responses protocol and keeps its ledger (sequence numbers, texts, arguments
  and items agree with each other).
\<close>

section \<open>The ledger\<close>

text \<open>
  What the events of a Responses stream promise about each other: they are numbered
  consecutively; the text (arguments) an event declares done is the concatenation of the
  deltas of that part (item); a message item that is done has the parts that were done; a
  terminal event's output is the list of the items that were done.
\<close>

record ledger =
  lg_next :: int
  lg_text :: string
  lg_args :: string
  lg_parts :: "string list"
  lg_items :: "ResponsesOutput list"

definition ledger_accept :: "ledger \<Rightarrow> ResponsesStreamEvent \<Rightarrow> ledger option" where
  "ledger_accept l0 e =
     (let t = rse_Type e; l = l0\<lparr>lg_next := lg_next l0 + 1\<rparr> in
      if rse_SequenceNumber e \<noteq> lg_next l0 then None
      else if t = ''response.output_item.added'' then Some (l\<lparr>lg_args := [], lg_text := [], lg_parts := []\<rparr>)
      else if t = ''response.content_part.added'' then Some (l\<lparr>lg_text := []\<rparr>)
      else if t = ''response.output_text.delta'' then Some (l\<lparr>lg_text := lg_text l @ rse_Delta e\<rparr>)
      else if t = ''response.output_text.done'' then
        (if rse_Text e = lg_text l then Some (l\<lparr>lg_text := [], lg_parts := lg_parts l @ [lg_text l]\<rparr>) else None)
      else if t = ''response.function_call_arguments.delta'' then Some (l\<lparr>lg_args := lg_args l @ rse_Delta e\<rparr>)
      else if t = ''response.function_call_arguments.done'' then
        (if rse_Arguments e = lg_args l then Some l else None)
      else if t = ''response.output_item.done'' then
        (case rse_Item e of None \<Rightarrow> None
         | Some it \<Rightarrow>
           if (ro_Type it = ''message'' \<longrightarrow> map rcp_Text (ro_Content it) = lg_parts l)
              \<and> (ro_Type it = ''function_call'' \<longrightarrow> ro_Arguments it = (if lg_args l = [] then ''{}'' else lg_args l))
           then Some (l\<lparr>lg_items := lg_items l @ [it], lg_text := [], lg_args := [], lg_parts := []\<rparr>) else None)
      else if is_terminal_type t then
        (case rse_Response e of None \<Rightarrow> None
         | Some r \<Rightarrow> if rr_Output r = lg_items l then Some l else None)
      else Some l)"

definition as_ledger :: "as_state \<Rightarrow> ledger" where
  "as_ledger s = \<lparr>lg_next = as_SequenceNumber s, lg_text = as_TextAccum s, lg_args = as_CurrentArgs s,
     lg_parts = map rcp_Text (as_CurrentContent s), lg_items = as_Outputs s\<rparr>"

definition as_view :: "bool \<Rightarrow> as_state \<Rightarrow> resp_view" where
  \<comment> \<open>the flag: a text block, hence a content part, is open\<close>
  "as_view part s =
     (let opn = (as_CurrentItemType s \<noteq> []) in
      \<lparr>rv_created = as_CreatedSent s, rv_completed = as_CompletedSent s,
       rv_nextOut = (if opn then as_OutputIndex s + 1 else as_OutputIndex s),
       rv_items = (if opn then [as_OutputIndex s \<mapsto> \<lparr>ri_type = as_CurrentItemType s, ri_part = part,
           ri_parts = as_ContentIndex s, ri_done = False\<rparr>] else Map.empty),
       rv_nopen = (if opn then 1 else 0)\<rparr>)"

text \<open>The blocks the converter handles, and the item each becomes.\<close>

definition block_item :: "string \<Rightarrow> string option" where
  "block_item t = (if t = ''text'' then Some ''message''
     else if t = ''thinking'' \<or> t = ''redacted_thinking'' then Some ''reasoning''
     else if t = ''tool_use'' then Some ''function_call'' else None)"

definition handled_accept :: "anth_view \<Rightarrow> AnthropicStreamEvent \<Rightarrow> anth_view option" where
  "handled_accept v e =
     (if ase_Type e = ''content_block_start''
         \<and> (case ase_ContentBlock e of None \<Rightarrow> True | Some b \<Rightarrow> block_item (acb_Type b) = None) then None
      else anth_accept v e)"

definition as_item_ok :: "as_state \<Rightarrow> bool" where
  "as_item_ok s \<longleftrightarrow> as_CurrentItemType s \<in> {[], ''message'', ''reasoning'', ''function_call''}
     \<and> (as_CurrentItemType s \<noteq> ''message'' \<longrightarrow> as_CurrentContent s = [] \<and> as_ContentIndex s = 0 \<and> as_TextAccum s = [])
     \<and> (as_CurrentItemType s \<noteq> ''function_call'' \<longrightarrow> as_CurrentArgs s = [] \<and> as_PendingToolInput s = [])"

definition as_rel :: "anth_view \<Rightarrow> as_state \<Rightarrow> bool" where
  "as_rel a s \<longleftrightarrow> as_CreatedSent s = av_started a \<and> as_CompletedSent s = av_stopped a
     \<and> (av_stopped a \<longrightarrow> av_started a) \<and> (av_ended a \<longrightarrow> av_open a = None)
     \<and> (\<not> av_started a \<or> av_stopped a \<longrightarrow> as_CurrentItemType s = [])
     \<and> as_item_ok s \<and> (av_open a \<noteq> Some ''text'' \<longrightarrow> as_TextAccum s = [])
     \<and> (case av_open a of None \<Rightarrow> as_CurrentItemType s \<in> {[], ''message''}
        | Some t \<Rightarrow> block_item t = Some (as_CurrentItemType s))"

abbreviation "resp_both \<equiv> acc_both seq_resp_accept ledger_accept"

definition as_both :: "bool \<Rightarrow> as_state \<Rightarrow> resp_view \<times> ledger" where
  "as_both part s = (as_view part s, as_ledger s)"

lemmas as_acc = acc_both_def seq_resp_accept_def resp_accept_def item_accept_def ledger_accept_def
  is_terminal_type_def new_item_def

definition as_live :: "as_state \<Rightarrow> bool" where
  "as_live s \<longleftrightarrow> as_CreatedSent s \<and> \<not> as_CompletedSent s \<and> as_item_ok s"

lemma close_item:
  assumes "as_live s" "closeCurrentResponsesItem s = (es, s')"
  shows "run_acc resp_both (as_both False s) es = Some (as_both False s')"
    and "as_live s'" "as_CurrentItemType s' = []" "as_TextAccum s' = []"
    and "as_both p s' = as_both False s'"
    and "as_StopReason s' = as_StopReason s"
  using assms
  by (auto simp: closeCurrentResponsesItem_def as_both_def as_view_def as_ledger_def as_live_def as_item_ok_def
      makeResponsesEvent_def Let_def as_acc current_item_def split: if_splits)

lemma draw_frame [simp]:
  "as_CurrentItemType (draw_item_id s) = as_CurrentItemType s" "as_TextAccum (draw_item_id s) = as_TextAccum s"
  "as_CreatedSent (draw_item_id s) = as_CreatedSent s" "as_CompletedSent (draw_item_id s) = as_CompletedSent s"
  "as_OutputIndex (draw_item_id s) = as_OutputIndex s" "as_SequenceNumber (draw_item_id s) = as_SequenceNumber s"
  "as_CurrentArgs (draw_item_id s) = as_CurrentArgs s" "as_CurrentContent (draw_item_id s) = as_CurrentContent s"
  "as_Outputs (draw_item_id s) = as_Outputs s" "as_ContentIndex (draw_item_id s) = as_ContentIndex s"
  "as_PendingToolInput (draw_item_id s) = as_PendingToolInput s"
  "as_CurrentSummary (draw_item_id s) = as_CurrentSummary s"
  "as_StopReason (draw_item_id s) = as_StopReason s"
  by (simp_all add: draw_item_id_def Let_def split: prod.split)

text \<open>Announcing an item when none is open.\<close>

lemma add_item:
  assumes "as_live s0" "as_CurrentItemType s0 = []" "as_CurrentItemType s2 \<noteq> []"
    and "as_both False (s2\<lparr>as_CurrentItemType := []\<rparr>) = as_both False s0"
    and "as_ContentIndex s2 = 0" "ro_Type it = as_CurrentItemType s2"
    and "makeResponsesEvent ''response.output_item.added''
           (zeroRSE\<lparr>rse_OutputIndex := as_OutputIndex s2, rse_Item := Some it\<rparr>) s2 = (e, s3)"
  shows "run_acc resp_both (as_both False s0) [e] = Some (as_both False s3)"
    and "s3 = s2\<lparr>as_SequenceNumber := as_SequenceNumber s2 + 1\<rparr>"
proof -
  from assms(7) show "s3 = s2\<lparr>as_SequenceNumber := as_SequenceNumber s2 + 1\<rparr>" by (simp add: makeResponsesEvent_def)
  from assms(1,2,4) have "as_CurrentArgs s2 = []" "as_TextAccum s2 = []" "as_CurrentContent s2 = []"
    by (auto simp: as_both_def as_ledger_def as_live_def as_item_ok_def)
  with assms show "run_acc resp_both (as_both False s0) [e] = Some (as_both False s3)"
    by (auto simp: as_both_def as_view_def as_ledger_def as_live_def makeResponsesEvent_def Let_def as_acc)
qed

lemma open_text_ok:
  assumes "as_live s" "as_TextAccum s = []" "open_text_item s = (es, s')"
  shows "run_acc resp_both (as_both False s) es = Some (as_both False s') \<and> as_live s'
    \<and> as_CurrentItemType s' = ''message'' \<and> as_TextAccum s' = []"
proof (cases "as_CurrentItemType s = ''message''")
  case True
  with assms show ?thesis by (simp add: open_text_item_def)
next
  case False
  obtain e1 s1 where 1: "closeCurrentResponsesItem s = (e1, s1)" by fastforce
  let ?s2 = "(draw_item_id s1)\<lparr>as_CurrentItemType := ''message'', as_ContentIndex := 0\<rparr>"
  let ?it = "zeroOutput\<lparr>ro_Type := ''message'', ro_ID := as_CurrentItemID ?s2, ro_Role := ''assistant'',
               ro_Status := ''in_progress''\<rparr>"
  obtain e2 s3 where 2: "makeResponsesEvent ''response.output_item.added''
      (zeroRSE\<lparr>rse_OutputIndex := as_OutputIndex ?s2, rse_Item := Some ?it\<rparr>) ?s2 = (e2, s3)" by fastforce
  note c = close_item [OF assms(1) 1]
  have ci: "as_ContentIndex s1 = 0" using c(2,3) by (simp add: as_live_def as_item_ok_def)
  have a: "run_acc resp_both (as_both False s1) [e2] = Some (as_both False s3)"
      "s3 = ?s2\<lparr>as_SequenceNumber := as_SequenceNumber ?s2 + 1\<rparr>"
    using add_item [OF c(2,3) _ _ _ _ 2] c(3) ci
    by (simp_all add: as_both_def as_view_def as_ledger_def)
  have es: "es = e1 @ [e2]" "s' = s3" using assms(3) False 2
    by (simp_all add: open_text_item_def 1 Let_def)
  have "as_live s3" using c(2,3,4) unfolding a(2) by (simp add: as_live_def as_item_ok_def)
  with a c es show ?thesis by auto
qed

lemma block_start_ok:
  assumes live: "as_live s" and tx: "as_TextAccum s = []" and b: "ase_ContentBlock evt = Some b"
    and bt: "block_item (acb_Type b) = Some t"
    and step: "anthToResHandleContentBlockStart evt s = (es, s')"
  shows "run_acc resp_both (as_both False s) es = Some (as_both (acb_Type b = ''text'') s') \<and> as_live s'
    \<and> as_CurrentItemType s' = t \<and> as_TextAccum s' = []"
proof (cases "acb_Type b = ''text''")
  case True
  obtain e1 s1 where 1: "open_text_item s = (e1, s1)" by fastforce
  note o1 = open_text_ok [OF live tx 1]
  define e2 where "e2 = zeroRSE\<lparr>rse_OutputIndex := as_OutputIndex s1, rse_ContentIndex := as_ContentIndex s1,
     rse_ItemID := as_CurrentItemID s1, rse_Part := Some (text_part []), rse_Type := ''response.content_part.added'',
     rse_SequenceNumber := as_SequenceNumber s1\<rparr>"
  define s2 where "s2 = s1\<lparr>as_SequenceNumber := as_SequenceNumber s1 + 1, as_TextAccum := []\<rparr>"
  have es: "es = e1 @ [e2]" "s' = s2" using step b True
    by (simp_all add: anthToResHandleContentBlockStart_def 1 e2_def s2_def Let_def makeResponsesEvent_def)
  have "run_acc resp_both (as_both False s1) [e2] = Some (as_both True s2)"
    using o1 by (simp add: as_both_def as_view_def as_ledger_def as_live_def e2_def s2_def Let_def as_acc)
  moreover have "as_live s2" "as_CurrentItemType s2 = ''message''" "as_TextAccum s2 = []"
    using o1 by (auto simp: s2_def as_live_def as_item_ok_def)
  ultimately show ?thesis using o1 es bt True by (auto simp: block_item_def)
next
  case False
  obtain e1 s1 where 1: "closeCurrentResponsesItem s = (e1, s1)" by fastforce
  note c = close_item [OF live 1]
  have ci: "as_ContentIndex s1 = 0" using c(2,3) by (simp add: as_live_def as_item_ok_def)
  obtain s2 it where s2: "as_CurrentItemType s2 = t" "ro_Type it = t" "as_ContentIndex s2 = 0"
      "as_both False (s2\<lparr>as_CurrentItemType := []\<rparr>) = as_both False s1"
      "as_live s1 \<longrightarrow> as_live s2" "as_TextAccum s2 = []"
    and es: "(es, s') = (case makeResponsesEvent ''response.output_item.added''
           (zeroRSE\<lparr>rse_OutputIndex := as_OutputIndex s2, rse_Item := Some it\<rparr>) s2 of (e, s3) \<Rightarrow> (e1 @ [e], s3))"
  proof (cases "acb_Type b = ''tool_use''")
    case True
    let ?s2 = "(draw_item_id s1)\<lparr>as_CurrentItemType := ''function_call'',
                 as_CurrentCallID := toResponsesCallID (acb_ID b), as_CurrentName := acb_Name b,
                 as_PendingToolInput := seedToolArguments (acb_Input b)\<rparr>"
    show ?thesis
      using that [of ?s2 "zeroOutput\<lparr>ro_Type := ''function_call'', ro_ID := as_CurrentItemID ?s2,
                      ro_CallID := as_CurrentCallID ?s2, ro_Name := as_CurrentName ?s2,
                      ro_Status := ''in_progress''\<rparr>"] step b bt True c(3,4) ci
      by (simp add: anthToResHandleContentBlockStart_def 1 Let_def block_item_def as_both_def as_view_def
          as_ledger_def as_live_def as_item_ok_def)
  next
    case False
    with \<open>acb_Type b \<noteq> ''text''\<close> bt have th: "acb_Type b = ''thinking'' \<or> acb_Type b = ''redacted_thinking''"
      by (auto simp: block_item_def split: if_splits)
    let ?s2 = "(draw_item_id s1)\<lparr>as_CurrentItemType := ''reasoning'', as_CurrentThinking := b,
                 as_CurrentSummary := acb_Thinking b, as_ContentIndex := 0\<rparr>"
    have "t = ''reasoning''" using th bt by (auto simp: block_item_def)
    with th show ?thesis
      using that [of ?s2 "zeroOutput\<lparr>ro_Type := ''reasoning'', ro_ID := as_CurrentItemID ?s2\<rparr>"] step b c(3,4) ci
      by (simp add: anthToResHandleContentBlockStart_def 1 Let_def as_both_def as_view_def
          as_ledger_def as_live_def as_item_ok_def)
  qed
  obtain e s3 where e: "makeResponsesEvent ''response.output_item.added''
      (zeroRSE\<lparr>rse_OutputIndex := as_OutputIndex s2, rse_Item := Some it\<rparr>) s2 = (e, s3)" by fastforce
  have t: "t \<noteq> []" using bt by (auto simp: block_item_def split: if_splits)
  have a: "run_acc resp_both (as_both False s1) [e] = Some (as_both False s3)"
      "s3 = s2\<lparr>as_SequenceNumber := as_SequenceNumber s2 + 1\<rparr>"
    using add_item [OF c(2,3) _ s2(4,3) _ e] s2(1,2) t by auto
  have "as_live s3" "as_CurrentItemType s3 = t" "as_TextAccum s3 = []"
    using s2 c(2) unfolding a(2) by (auto simp: as_live_def as_item_ok_def)
  with a(1) c(1) es e False show ?thesis by auto
qed

lemma block_delta_ok:
  assumes live: "as_live s" and t: "block_item t = Some (as_CurrentItemType s)" and d: "ase_Delta evt = Some d"
    and fits: "delta_fits t (ad_Type d)" and tx: "t \<noteq> ''text'' \<longrightarrow> as_TextAccum s = []"
    and step: "anthToResHandleContentBlockDelta evt s = (es, s')"
  shows "run_acc resp_both (as_both (t = ''text'') s) es = Some (as_both (t = ''text'') s') \<and> as_live s'
    \<and> as_CurrentItemType s' = as_CurrentItemType s \<and> (t \<noteq> ''text'' \<longrightarrow> as_TextAccum s' = [])"
proof -
  note defs = as_both_def as_view_def as_ledger_def as_live_def as_item_ok_def
  consider (tx) "t = ''text''" "as_CurrentItemType s = ''message''" "ad_Type d = ''text_delta''"
    | (th) "t \<noteq> ''text''" "as_CurrentItemType s = ''reasoning''" "ad_Type d = ''thinking_delta''"
    | (sg) "t \<noteq> ''text''" "as_CurrentItemType s = ''reasoning''" "ad_Type d = ''signature_delta''"
    | (tu) "t \<noteq> ''text''" "as_CurrentItemType s = ''function_call''" "ad_Type d = ''input_json_delta''"
    using t fits by (auto simp: block_item_def delta_fits_def split: if_splits)
  then show ?thesis
  proof cases
    case tx
    with live step d show ?thesis
      by (cases "ad_Text d = []")
         (auto simp: anthToResHandleContentBlockDelta_def one_event_def makeResponsesEvent_def as_acc Let_def defs)
  next
    case th
    with live step d tx show ?thesis
      by (cases "ad_Thinking d = []")
         (auto simp: anthToResHandleContentBlockDelta_def one_event_def makeResponsesEvent_def as_acc Let_def defs)
  next
    case sg
    with live step d tx show ?thesis
      by (auto simp: anthToResHandleContentBlockDelta_def defs split: if_splits)
  next
    case tu
    with live step d tx show ?thesis
      by (cases "ad_PartialJSON d = []")
         (auto simp: anthToResHandleContentBlockDelta_def one_event_def makeResponsesEvent_def call_template_def
            as_acc Let_def defs)
  qed
qed

lemma block_stop_ok:
  assumes live: "as_live s" and t: "block_item t = Some (as_CurrentItemType s)"
    and tx: "t \<noteq> ''text'' \<longrightarrow> as_TextAccum s = []"
    and step: "anthToResHandleContentBlockStop s = (es, s')"
  shows "run_acc resp_both (as_both (t = ''text'') s) es = Some (as_both False s') \<and> as_live s'
    \<and> as_CurrentItemType s' \<in> {[], ''message''} \<and> as_TextAccum s' = []"
proof -
  note defs = as_both_def as_view_def as_ledger_def as_live_def as_item_ok_def
  consider (tx) "t = ''text''" "as_CurrentItemType s = ''message''"
    | (th) "t \<noteq> ''text''" "as_CurrentItemType s = ''reasoning''"
    | (tu) "t \<noteq> ''text''" "as_CurrentItemType s = ''function_call''"
    using t by (auto simp: block_item_def split: if_splits)
  then show ?thesis
  proof cases
    case tx
    with live step show ?thesis
      by (auto simp: anthToResHandleContentBlockStop_def makeResponsesEvent_def text_part_def as_acc Let_def defs)
  next
    case th
    with live step tx show ?thesis
      by (auto simp: anthToResHandleContentBlockStop_def closeCurrentResponsesItem_def current_item_def
          makeResponsesEvent_def as_acc Let_def defs)
  next
    case tu
    with live step tx show ?thesis
      by (cases "as_CurrentArgs s = [] \<and> as_PendingToolInput s \<noteq> []"; cases "as_CurrentArgs s = []")
         (auto simp: anthToResHandleContentBlockStop_def closeCurrentResponsesItem_def current_item_def
          one_event_def call_template_def makeResponsesEvent_def as_acc Let_def defs)
  qed
qed

lemma finish_ok:
  assumes live: "as_live s" and step: "finish_response s = (es, s')"
  shows "run_acc resp_both (as_both False s) es = Some (as_both False s') \<and> as_CreatedSent s' \<and> as_CompletedSent s'
    \<and> as_item_ok s' \<and> as_CurrentItemType s' = [] \<and> as_TextAccum s' = []"
proof -
  obtain e1 s1 where 1: "closeCurrentResponsesItem s = (e1, s1)" by fastforce
  note c = close_item [OF live 1]
  obtain st de where t: "anthropicResponsesStreamTerminalState (as_StopReason s1) = (st, de)" by fastforce
  obtain e2 s2 where 2: "makeResponsesCompletedEvent st de s1 = (e2, s2)" by fastforce
  have es: "es = e1 @ [e2]" "s' = s2\<lparr>as_CompletedSent := True\<rparr>" using step
    by (simp_all add: finish_response_def 1 t 2 Let_def)
  have "run_acc resp_both (as_both False s1) [e2] = Some (as_both False (s2\<lparr>as_CompletedSent := True\<rparr>))"
    using c(2-4) 2 by (cases "st = ''incomplete''") (auto simp: makeResponsesCompletedEvent_def as_both_def as_view_def
        as_ledger_def as_live_def as_acc Let_def)
  moreover have "as_CreatedSent s2" "as_item_ok s2" "as_CurrentItemType s2 = []" "as_TextAccum s2 = []"
    using c 2 by (auto simp: makeResponsesCompletedEvent_def as_live_def as_item_ok_def)
  ultimately show ?thesis using c(1) es by (auto simp: as_item_ok_def)
qed

lemma message_start_ok:
  assumes "as_rel a s" "\<not> av_started a" "ase_Message evt \<noteq> None"
    and "anthToResHandleMessageStart evt s = (es, s')"
  shows "run_acc resp_both (as_both False s) es = Some (as_both False s') \<and> as_rel (a\<lparr>av_started := True\<rparr>) s'"
proof -
  obtain m where m: "ase_Message evt = Some m" using assms(3) by blast
  have s: "\<not> as_CreatedSent s" "\<not> as_CompletedSent s" "as_CurrentItemType s = []" "as_item_ok s" "av_open a = None"
      "\<not> av_stopped a"
    using assms(1,2) by (auto simp: as_rel_def block_item_def split: option.splits if_splits)
  show ?thesis
    using assms(4) m s assms(1)
    by (auto simp: anthToResHandleMessageStart_def makeResponsesCreatedEvent_def as_both_def as_view_def
        as_ledger_def as_rel_def as_item_ok_def as_acc Let_def)
qed

lemma as_rel_live: "as_rel a s \<Longrightarrow> av_started a \<Longrightarrow> \<not> av_stopped a \<Longrightarrow> as_live s"
  by (simp add: as_rel_def as_live_def)

lemma as_rel_intro:
  "as_live s \<Longrightarrow> av_started a \<Longrightarrow> \<not> av_stopped a \<Longrightarrow> (av_ended a \<longrightarrow> av_open a = None) \<Longrightarrow> (av_open a \<noteq> Some ''text'' \<longrightarrow> as_TextAccum s = []) \<Longrightarrow>
   (case av_open a of None \<Rightarrow> as_CurrentItemType s \<in> {[], ''message''}
      | Some t \<Rightarrow> block_item t = Some (as_CurrentItemType s)) \<Longrightarrow> as_rel a s"
  by (simp add: as_rel_def as_live_def)

definition as_out :: "anth_view \<Rightarrow> as_state \<Rightarrow> resp_view \<times> ledger" where
  "as_out a s = as_both (av_open a = Some ''text'') s"

text \<open>What an accepted event of each type looks like.\<close>

lemma anth_started: "anth_accept a e = Some a' \<Longrightarrow> ase_Type e \<noteq> ''message_start'' \<Longrightarrow> av_started a \<and> \<not> av_stopped a"
  by (simp add: anth_accept_def split: if_splits)

lemma anth_start_block:
  assumes "anth_accept a e = Some a'" "ase_Type e = ''content_block_start''"
  shows "\<exists>i b. ase_ContentBlock e = Some b \<and> av_open a = None \<and> \<not> av_ended a \<and> a' = a\<lparr>av_open := Some (acb_Type b)\<rparr>"
  using assms by (simp add: anth_accept_def split: if_splits option.splits)

lemma anth_delta_block:
  assumes "anth_accept a e = Some a'" "ase_Type e = ''content_block_delta''"
  shows "\<exists>t d. ase_Delta e = Some d \<and> av_open a = Some t \<and> delta_fits t (ad_Type d) \<and> \<not> av_ended a \<and> a' = a"
  using assms by (simp add: anth_accept_def split: if_splits option.splits)

lemma anth_stop_block:
  assumes "anth_accept a e = Some a'" "ase_Type e = ''content_block_stop''"
  shows "\<exists>t i. av_open a = Some t \<and> a' = a\<lparr>av_open := None, av_next := i\<rparr>"
  using assms by (auto simp: anth_accept_def split: if_splits option.splits)

lemma anth_message_end:
  assumes "anth_accept a e = Some a'" "ase_Type e = ''message_delta''"
  shows "av_open a = None \<and> a' = a\<lparr>av_ended := True\<rparr>"
  using assms by (simp add: anth_accept_def split: if_splits option.splits)

lemma anth_message_stop:
  assumes "anth_accept a e = Some a'" "ase_Type e = ''message_stop''"
  shows "av_ended a \<and> a' = a\<lparr>av_stopped := True\<rparr>"
  using assms by (simp add: anth_accept_def split: if_splits)

lemma anth_types:
  assumes "anth_accept a e = Some a'"
  shows "ase_Type e \<in> {''message_start'', ''message_stop'', ''content_block_start'', ''content_block_delta'',
           ''content_block_stop'', ''message_delta''}"
  using assms by (simp add: anth_accept_def split: if_splits)

lemma handled_anth: "handled_accept a e = Some a' \<Longrightarrow> anth_accept a e = Some a'"
  by (simp add: handled_accept_def split: if_splits)

lemma handled_block:
  "handled_accept a e = Some a' \<Longrightarrow> ase_Type e = ''content_block_start'' \<Longrightarrow> ase_ContentBlock e = Some b \<Longrightarrow>
   block_item (acb_Type b) \<noteq> None"
  by (auto simp: handled_accept_def split: if_splits)

definition as_read_usage :: "AnthropicStreamEvent \<Rightarrow> as_state \<Rightarrow> as_state" where
  "as_read_usage e s = (case ase_Usage e of None \<Rightarrow> s
        | Some u \<Rightarrow> s\<lparr>as_OutputTokens := au_OutputTokens u,
            as_InputTokens := (if au_InputTokens u > 0 then au_InputTokens u else as_InputTokens s),
            as_CacheReadInputTokens := (if au_CacheReadInputTokens u > 0 then au_CacheReadInputTokens u
               else as_CacheReadInputTokens s),
            as_CacheCreationInputTokens := (if au_CacheCreationInputTokens u > 0
               then au_CacheCreationInputTokens u else as_CacheCreationInputTokens s)\<rparr>)"

lemma message_delta_split:
  "anthToResHandleMessageDelta e s = ([], case ase_Delta e of None \<Rightarrow> as_read_usage e s
      | Some d \<Rightarrow> if ad_StopReason d \<noteq> [] then (as_read_usage e s)\<lparr>as_StopReason := ad_StopReason d\<rparr> else as_read_usage e s)"
  by (simp only: anthToResHandleMessageDelta_def as_read_usage_def Let_def)

lemma read_usage_sel [simp]:
  "as_CreatedSent (as_read_usage e s) = as_CreatedSent s" "as_CompletedSent (as_read_usage e s) = as_CompletedSent s"
  "as_OutputIndex (as_read_usage e s) = as_OutputIndex s" "as_SequenceNumber (as_read_usage e s) = as_SequenceNumber s"
  "as_CurrentItemType (as_read_usage e s) = as_CurrentItemType s" "as_ContentIndex (as_read_usage e s) = as_ContentIndex s"
  "as_TextAccum (as_read_usage e s) = as_TextAccum s" "as_CurrentArgs (as_read_usage e s) = as_CurrentArgs s"
  "as_CurrentContent (as_read_usage e s) = as_CurrentContent s" "as_Outputs (as_read_usage e s) = as_Outputs s"
  "as_PendingToolInput (as_read_usage e s) = as_PendingToolInput s"
  by (cases "ase_Usage e"; simp add: as_read_usage_def)+

lemma set_stop_reason [simp]:
  "as_both p (s\<lparr>as_StopReason := r\<rparr>) = as_both p s" "as_live (s\<lparr>as_StopReason := r\<rparr>) = as_live s"
  by (simp_all add: as_both_def as_view_def as_ledger_def as_live_def as_item_ok_def Let_def)

lemma read_usage_keeps [simp]:
  "as_both p (as_read_usage e s) = as_both p s" "as_live (as_read_usage e s) = as_live s"
  by (simp_all add: as_both_def as_view_def as_ledger_def as_live_def as_item_ok_def Let_def)

lemma message_delta_frame:
  assumes "anthToResHandleMessageDelta e s = (es, s')"
  shows "es = [] \<and> as_both p s' = as_both p s \<and> as_live s' = as_live s
    \<and> as_CurrentItemType s' = as_CurrentItemType s \<and> as_TextAccum s' = as_TextAccum s"
proof (cases "ase_Delta e")
  case None
  with assms show ?thesis by (auto simp: message_delta_split)
next
  case (Some d)
  with assms show ?thesis
    by (cases "ad_StopReason d = []") (auto simp: message_delta_split)
qed

lemma step_stop:
  assumes rel: "as_rel a s" and an: "anth_accept a e = Some a'" and stop: "ase_Type e = ''message_stop''"
    and step: "AnthropicEventToResponsesEvents e s = (es, s')" and st: "av_started a" "\<not> av_stopped a"
  shows "run_acc resp_both (as_out a s) es = Some (as_out a' s') \<and> as_rel a' s'"
proof -
  note live = as_rel_live [OF rel st]
  from anth_message_stop [OF an stop] have a: "av_ended a" "a' = a\<lparr>av_stopped := True\<rparr>" by auto
  with rel have op: "av_open a = None" by (simp add: as_rel_def)
  from rel st have "\<not> as_CompletedSent s" by (simp add: as_rel_def)
  with step stop have "finish_response s = (es, s')"
    by (simp add: anthToResHandleMessageStop_def AnthropicEventToResponsesEvents_def)
  from finish_ok [OF live this] a op st show ?thesis by (simp add: as_out_def as_rel_def)
qed

lemma step_block_start:
  assumes rel: "as_rel a s" and acc: "handled_accept a e = Some a'" and bstart: "ase_Type e = ''content_block_start''"
    and step: "AnthropicEventToResponsesEvents e s = (es, s')" and st: "av_started a" "\<not> av_stopped a"
  shows "run_acc resp_both (as_out a s) es = Some (as_out a' s') \<and> as_rel a' s'"
proof -
  note live = as_rel_live [OF rel st] and an = handled_anth [OF acc]
  from anth_start_block [OF an bstart] obtain b where b: "ase_ContentBlock e = Some b" "av_open a = None"
      "\<not> av_ended a" "a' = a\<lparr>av_open := Some (acb_Type b)\<rparr>"
    by auto
  from step bstart have h: "anthToResHandleContentBlockStart e s = (es, s')"
    by (simp add: AnthropicEventToResponsesEvents_def)
  from handled_block [OF acc bstart b(1)] obtain t where t: "block_item (acb_Type b) = Some t" by blast
  have "as_TextAccum s = []" using rel b(2) by (simp add: as_rel_def)
  note ok = block_start_ok [OF live this b(1) t h]
  have "as_rel a' s'" by (rule as_rel_intro) (use ok b t st in simp_all)
  with ok b show ?thesis by (simp add: as_out_def)
qed

lemma step_block_delta:
  assumes rel: "as_rel a s" and an: "anth_accept a e = Some a'" and bdelta: "ase_Type e = ''content_block_delta''"
    and step: "AnthropicEventToResponsesEvents e s = (es, s')" and st: "av_started a" "\<not> av_stopped a"
  shows "run_acc resp_both (as_out a s) es = Some (as_out a' s') \<and> as_rel a' s'"
proof -
  note live = as_rel_live [OF rel st]
  from anth_delta_block [OF an bdelta] obtain t d where d: "ase_Delta e = Some d" "av_open a = Some t"
      "delta_fits t (ad_Type d)" "\<not> av_ended a" "a' = a" by blast
  from step bdelta have h: "anthToResHandleContentBlockDelta e s = (es, s')"
    by (simp add: AnthropicEventToResponsesEvents_def)
  have it: "block_item t = Some (as_CurrentItemType s)" "t \<noteq> ''text'' \<longrightarrow> as_TextAccum s = []"
    using rel d(2) by (simp_all add: as_rel_def)
  note ok = block_delta_ok [OF live it(1) d(1,3) it(2) h]
  have "as_rel a s'" by (rule as_rel_intro) (use ok d st it(1) in simp_all)
  with ok d(2,5) show ?thesis by (simp add: as_out_def)
qed

lemma step_block_stop:
  assumes rel: "as_rel a s" and an: "anth_accept a e = Some a'" and bstop: "ase_Type e = ''content_block_stop''"
    and step: "AnthropicEventToResponsesEvents e s = (es, s')" and st: "av_started a" "\<not> av_stopped a"
  shows "run_acc resp_both (as_out a s) es = Some (as_out a' s') \<and> as_rel a' s'"
proof -
  note live = as_rel_live [OF rel st]
  from anth_stop_block [OF an bstop] obtain t i where d: "av_open a = Some t" "a' = a\<lparr>av_open := None, av_next := i\<rparr>"
    by blast
  from step bstop have h: "anthToResHandleContentBlockStop s = (es, s')"
    by (simp add: AnthropicEventToResponsesEvents_def)
  have it: "block_item t = Some (as_CurrentItemType s)" "t \<noteq> ''text'' \<longrightarrow> as_TextAccum s = []"
    using rel d(1) by (simp_all add: as_rel_def)
  note ok = block_stop_ok [OF live it h]
  have "as_rel a' s'" by (rule as_rel_intro) (use ok d st in simp_all)
  with ok d show ?thesis by (simp add: as_out_def)
qed

lemma step_message_delta:
  assumes rel: "as_rel a s" and an: "anth_accept a e = Some a'" and mdelta: "ase_Type e = ''message_delta''"
    and step: "AnthropicEventToResponsesEvents e s = (es, s')" and st: "av_started a" "\<not> av_stopped a"
  shows "run_acc resp_both (as_out a s) es = Some (as_out a' s') \<and> as_rel a' s'"
proof -
  note live = as_rel_live [OF rel st]
  from anth_message_end [OF an mdelta] have a: "av_open a = None" "a' = a\<lparr>av_ended := True\<rparr>" by auto
  from step mdelta have h: "anthToResHandleMessageDelta e s = (es, s')"
    by (simp add: AnthropicEventToResponsesEvents_def)
  note ok = message_delta_frame [OF h]
  have "as_rel a' s'" by (rule as_rel_intro) (use ok a live rel st in \<open>simp_all add: as_rel_def\<close>)
  with ok a show ?thesis by (simp add: as_out_def)
qed

lemma as_step_ok:
  assumes rel: "as_rel a s" and acc: "handled_accept a e = Some a'"
    and step: "AnthropicEventToResponsesEvents e s = (es, s')"
  shows "run_acc resp_both (as_out a s) es = Some (as_out a' s') \<and> as_rel a' s'"
proof (cases "ase_Type e = ''message_start''")
  case True
  note an = handled_anth [OF acc]
  from an True have a: "\<not> av_started a" "ase_Message e \<noteq> None" "a' = a\<lparr>av_started := True\<rparr>"
    by (simp_all add: anth_accept_def split: if_splits)
  from rel a(1) have "av_open a = None" by (auto simp: as_rel_def block_item_def split: option.splits if_splits)
  moreover from True step have "anthToResHandleMessageStart e s = (es, s')"
    by (simp add: AnthropicEventToResponsesEvents_def)
  ultimately show ?thesis using message_start_ok [OF rel a(1,2)] a(3) by (simp add: as_out_def)
next
  case False
  note an = handled_anth [OF acc]
  from anth_started [OF an False] have st: "av_started a" "\<not> av_stopped a" by auto
  from anth_types [OF an] False
  have "ase_Type e = ''message_stop'' \<or> ase_Type e = ''content_block_start'' \<or> ase_Type e = ''content_block_delta''
      \<or> ase_Type e = ''content_block_stop'' \<or> ase_Type e = ''message_delta''"
    by simp
  then show ?thesis
    using step_stop [OF rel an _ step st] step_block_start [OF rel acc _ step st] step_block_delta [OF rel an _ step st]
      step_block_stop [OF rel an _ step st] step_message_delta [OF rel an _ step st] by (elim disjE)
qed

definition as_closable :: "anth_view \<Rightarrow> as_state \<Rightarrow> bool" where
  \<comment> \<open>the upstream connection ended after \<open>message_start\<close> and outside a text block\<close>
  "as_closable a s \<longleftrightarrow> av_started a \<and> av_open a \<noteq> Some ''text''"

lemma as_finalize_ok:
  assumes rel: "as_rel a s" and cl: "as_closable a s" and step: "FinalizeAnthropicResponsesStream s = (es, s')"
  shows "\<exists>b. run_acc resp_both (as_out a s) es = Some b \<and> resp_complete (fst b)"
proof (cases "as_CompletedSent s")
  case True
  with rel cl step show ?thesis
    by (auto simp: FinalizeAnthropicResponsesStream_def as_rel_def as_closable_def as_out_def as_both_def as_view_def
        resp_complete_def)
next
  case False
  with rel cl have live: "as_live s" by (auto simp: as_rel_def as_closable_def as_live_def)
  with False step have "finish_response s = (es, s')" by (simp add: FinalizeAnthropicResponsesStream_def as_live_def)
  from finish_ok [OF live this] cl show ?thesis
    by (auto simp: as_out_def as_closable_def as_both_def as_view_def resp_complete_def)
qed

interpretation as_protocol: closing_translator AnthropicEventToResponsesEvents handled_accept resp_both
    as_rel as_out FinalizeAnthropicResponsesStream as_closable "\<lambda>b. resp_complete (fst b)"
proof unfold_locales
  fix a s e a' es s'
  assume "as_rel a s" "handled_accept a e = Some a'" "AnthropicEventToResponsesEvents e s = (es, s')"
  from as_step_ok [OF this] show "run_acc resp_both (as_out a s) es = Some (as_out a' s')" and "as_rel a' s'" by auto
qed (rule as_finalize_ok)

definition ledger_initial :: ledger where
  "ledger_initial = \<lparr>lg_next = 0, lg_text = [], lg_args = [], lg_parts = [], lg_items = []\<rparr>"

lemma as_initial: "as_rel anth_initial (NewAnthropicEventToResponsesState now g)"
    "as_out anth_initial (NewAnthropicEventToResponsesState now g) = (resp_initial, ledger_initial)"
  by (simp_all add: as_rel_def anth_initial_def NewAnthropicEventToResponsesState_def as_item_ok_def as_out_def
      as_both_def as_view_def as_ledger_def resp_initial_def ledger_initial_def)

lemma finish_response_completes: "as_CompletedSent (snd (finish_response s))"
  by (auto simp: finish_response_def makeResponsesCompletedEvent_def Let_def split: prod.split)

lemma as_finalize_twice:
  "FinalizeAnthropicResponsesStream (snd (FinalizeAnthropicResponsesStream s)) = ([], snd (FinalizeAnthropicResponsesStream s))"
  using finish_response_completes [of s] by (auto simp: FinalizeAnthropicResponsesStream_def)

end
