(* ===== verification/ResponsesToChat.thy ===== *)
theory ResponsesToChat
  imports AnthropicToResponses
begin

text \<open>
  \<open>responses_to_chatcompletions.go\<close>: Responses answers, whole or streamed, as Chat
  Completions, and the accumulator that rebuilds the output of a buffered stream whose
  terminal event came without it.
\<close>

section \<open>Usage\<close>

definition promptDetailsFromResponses :: "ResponsesInputTokensDetails option \<Rightarrow> ChatTokenDetails option" where
  "promptDetailsFromResponses src =
     (case src of None \<Rightarrow> None
      | Some d \<Rightarrow>
        if ritd_CachedTokens d = 0 \<and> ritd_AudioTokens d = 0 \<and> ritd_CacheCreationTokens d = 0
           \<and> ritd_CacheWriteTokens d = 0 then None
        else Some (zeroTokenDetails\<lparr>ctd_CachedTokens := ritd_CachedTokens d, ctd_AudioTokens := ritd_AudioTokens d,
               ctd_CacheCreationTokens := ritd_CacheCreationTokens d,
               ctd_CacheWriteTokens := ritd_CacheWriteTokens d\<rparr>))"

definition completionDetailsFromResponses :: "ResponsesOutputTokensDetails option \<Rightarrow> ChatTokenDetails option" where
  "completionDetailsFromResponses src =
     (case src of None \<Rightarrow> None
      | Some d \<Rightarrow>
        if rotd_ReasoningTokens d = 0 \<and> rotd_AudioTokens d = 0 \<and> rotd_AcceptedPredictionTokens d = 0
           \<and> rotd_RejectedPredictionTokens d = 0 then None
        else Some (zeroTokenDetails\<lparr>ctd_ReasoningTokens := rotd_ReasoningTokens d,
               ctd_AudioTokens := rotd_AudioTokens d,
               ctd_AcceptedPredictionTokens := rotd_AcceptedPredictionTokens d,
               ctd_RejectedPredictionTokens := rotd_RejectedPredictionTokens d\<rparr>))"

definition chatUsageFromResponsesUsage :: "ResponsesUsage option \<Rightarrow> ChatUsage option" where
  "chatUsageFromResponsesUsage u0 =
     (case u0 of None \<Rightarrow> None
      | Some u \<Rightarrow>
        (let details0 = promptDetailsFromResponses (ru_InputTokensDetails u);
             details = (if ru_CacheCreationInputTokens u > 0 then
                 (let d = (case details0 of None \<Rightarrow> zeroTokenDetails | Some d \<Rightarrow> d) in
                  Some (if ctd_CacheWriteTokens d = 0 \<and> ctd_CacheCreationTokens d = 0
                        then d\<lparr>ctd_CacheCreationTokens := ru_CacheCreationInputTokens u\<rparr> else d))
               else details0)
         in Some \<lparr>cu_PromptTokens = ru_InputTokens u, cu_CompletionTokens = ru_OutputTokens u,
              cu_TotalTokens = iadd (ru_InputTokens u) (ru_OutputTokens u),
              cu_PromptTokensDetails = details,
              cu_CompletionTokensDetails = completionDetailsFromResponses (ru_OutputTokensDetails u)\<rparr>))"

section \<open>Whole responses\<close>

definition generateChatCmplID :: "rng \<Rightarrow> string \<times> rng" where
  "generateChatCmplID g = generate_id ''chatcmpl-'' g"

definition responsesStatusToChatFinishReason ::
  "string \<Rightarrow> ResponsesIncompleteDetails option \<Rightarrow> ChatToolCall list \<Rightarrow> string" where
  "responsesStatusToChatFinishReason status details toolCalls =
     (if status = ''incomplete'' then
        (case details of None \<Rightarrow> ''stop''
         | Some d \<Rightarrow> if rid_Reason d = ''max_output_tokens'' then ''length''
             else if rid_Reason d = ''content_filter'' then ''content_filter'' else ''stop'')
      else if status = ''completed'' then (if toolCalls \<noteq> [] then ''tool_calls'' else ''stop'')
      else ''stop'')"

record chat_parts =
  \<comment> \<open>the four accumulators of the loop over \<open>resp.Output\<close>\<close>
  cp_content :: string
  cp_refusal :: string
  cp_reasoning :: string
  cp_tools :: "ChatToolCall list"

definition add_part :: "ResponsesContentPart \<Rightarrow> chat_parts \<Rightarrow> chat_parts" where
  "add_part part acc =
     (if rcp_Type part = ''output_text'' \<and> rcp_Text part \<noteq> [] then
        acc\<lparr>cp_content := cp_content acc @ rcp_Text part\<rparr>
      else if rcp_Type part = ''refusal'' \<and> rcp_Refusal part \<noteq> [] then
        acc\<lparr>cp_refusal := cp_refusal acc @ rcp_Refusal part\<rparr>
      else acc)"

definition add_summary :: "ResponsesSummary \<Rightarrow> chat_parts \<Rightarrow> chat_parts" where
  "add_summary s acc =
     (if rsum_Type s = ''summary_text'' \<and> rsum_Text s \<noteq> [] then
        acc\<lparr>cp_reasoning := cp_reasoning acc @ rsum_Text s\<rparr> else acc)"

definition add_item_to_chat :: "ResponsesOutput \<Rightarrow> chat_parts \<Rightarrow> chat_parts" where
  "add_item_to_chat item acc =
     (if ro_Type item = ''message'' then fold add_part (ro_Content item) acc
      else if ro_Type item = ''function_call'' then
        acc\<lparr>cp_tools := cp_tools acc @ [zeroToolCall\<lparr>ctc_ID := ro_CallID item, ctc_Type := ''function'',
          ctc_Function := \<lparr>cfc_Name = ro_Name item, cfc_Arguments = ro_Arguments item\<rparr>\<rparr>]\<rparr>
      else if ro_Type item = ''reasoning'' then fold add_summary (ro_Summary item) acc
      else acc)"

definition no_parts :: chat_parts where
  "no_parts = \<lparr>cp_content = [], cp_refusal = [], cp_reasoning = [], cp_tools = []\<rparr>"

definition ResponsesToChatCompletions ::
  "ResponsesResponse \<Rightarrow> string \<Rightarrow> int \<Rightarrow> rng \<Rightarrow> ChatCompletionsResponse \<times> rng" where
  "ResponsesToChatCompletions resp model now g =
     (let (i, g') = (if rr_ID resp = [] then generateChatCmplID g else (rr_ID resp, g));
          acc = fold add_item_to_chat (rr_Output resp) no_parts;
          msg = zeroChatMessage\<lparr>cm_Role := ''assistant'', cm_Refusal := cp_refusal acc,
                  cm_ToolCalls := cp_tools acc,
                  cm_Content := (if cp_content acc \<noteq> [] then Marshal_string (cp_content acc) else []),
                  cm_ReasoningContent := cp_reasoning acc\<rparr>
      in (\<lparr>ccr_ID = i, ccr_Object = ''chat.completion'', ccr_Created = now, ccr_Model = model,
           ccr_Choices = [\<lparr>cc_Index = 0, cc_Message = msg,
              cc_FinishReason = responsesStatusToChatFinishReason (rr_Status resp) (rr_IncompleteDetails resp)
                 (cp_tools acc)\<rparr>],
           ccr_Usage = chatUsageFromResponsesUsage (rr_Usage resp),
           ccr_SystemFingerprint = [], ccr_ServiceTier = rr_ServiceTier resp\<rparr>, g'))"

section \<open>The stream converter's state\<close>

record rc_state =
  rc_ID :: string
  rc_Model :: string
  rc_Created :: int
  rc_ServiceTier :: string
  rc_SentRole :: bool
  rc_SawToolCall :: bool
  rc_SawText :: bool
  rc_Finalized :: bool
  rc_NextToolCallIndex :: int
  rc_OutputIndexToToolIndex :: "int \<rightharpoonup> int"
  rc_OutputIndexToArguments :: "int \<rightharpoonup> string"
  rc_IncludeUsage :: bool
  rc_Usage :: "ChatUsage option"

definition NewResponsesEventToChatState :: "int \<Rightarrow> rng \<Rightarrow> rc_state \<times> rng" where
  "NewResponsesEventToChatState now g =
     (let (i, g') = generateChatCmplID g in
      (\<lparr>rc_ID = i, rc_Model = [], rc_Created = now, rc_ServiceTier = [], rc_SentRole = False,
        rc_SawToolCall = False, rc_SawText = False, rc_Finalized = False, rc_NextToolCallIndex = 0,
        rc_OutputIndexToToolIndex = Map.empty, rc_OutputIndexToArguments = Map.empty,
        rc_IncludeUsage = False, rc_Usage = None\<rparr>, g'))"

section \<open>The handlers\<close>

definition chat_chunk :: "rc_state \<Rightarrow> ChatChunkChoice list \<Rightarrow> ChatUsage option \<Rightarrow> ChatCompletionsChunk" where
  \<comment> \<open>the fields every chunk shares\<close>
  "chat_chunk s choices usage = \<lparr>cck_ID = rc_ID s, cck_Object = ''chat.completion.chunk'',
     cck_Created = rc_Created s, cck_Model = rc_Model s, cck_Choices = choices, cck_Usage = usage,
     cck_SystemFingerprint = [], cck_ServiceTier = rc_ServiceTier s\<rparr>"

definition makeChatDeltaChunk :: "rc_state \<Rightarrow> ChatDelta \<Rightarrow> ChatCompletionsChunk" where
  "makeChatDeltaChunk s delta =
     chat_chunk s [\<lparr>ccc_Index = 0, ccc_Delta = delta, ccc_FinishReason = None\<rparr>] None"

definition makeChatFinishChunk :: "rc_state \<Rightarrow> string \<Rightarrow> ChatCompletionsChunk" where
  "makeChatFinishChunk s finishReason =
     chat_chunk s [\<lparr>ccc_Index = 0, ccc_Delta = zeroChatDelta\<lparr>cd_Content := Some []\<rparr>,
                    ccc_FinishReason = Some finishReason\<rparr>] None"

definition finish_chunks :: "rc_state \<Rightarrow> string \<Rightarrow> ChatCompletionsChunk list" where
  \<comment> \<open>the finish chunk and, when asked for, the usage chunk\<close>
  "finish_chunks s finishReason =
     makeChatFinishChunk s finishReason
     # (if rc_IncludeUsage s \<and> rc_Usage s \<noteq> None then [chat_chunk s [] (rc_Usage s)] else [])"

definition resToChatHandleCreated ::
  "ResponsesStreamEvent \<Rightarrow> rc_state \<Rightarrow> ChatCompletionsChunk list \<times> rc_state" where
  "resToChatHandleCreated evt s =
     (let s1 = (case rse_Response evt of None \<Rightarrow> s
        | Some r \<Rightarrow> s\<lparr>rc_ID := (if rr_ID r \<noteq> [] then rr_ID r else rc_ID s),
            rc_Model := (if rc_Model s = [] \<and> rr_Model r \<noteq> [] then rr_Model r else rc_Model s),
            rc_ServiceTier := (if rr_ServiceTier r \<noteq> [] then rr_ServiceTier r else rc_ServiceTier s)\<rparr>)
      in if rc_SentRole s1 then ([], s1)
         else (let s2 = s1\<lparr>rc_SentRole := True\<rparr> in
               ([makeChatDeltaChunk s2 (zeroChatDelta\<lparr>cd_Role := ''assistant''\<rparr>)], s2)))"

definition resToChatHandleTextDelta ::
  "ResponsesStreamEvent \<Rightarrow> rc_state \<Rightarrow> ChatCompletionsChunk list \<times> rc_state" where
  "resToChatHandleTextDelta evt s =
     (if rse_Delta evt = [] then ([], s)
      else (let s1 = s\<lparr>rc_SawText := True\<rparr> in
            ([makeChatDeltaChunk s1 (zeroChatDelta\<lparr>cd_Content := Some (rse_Delta evt)\<rparr>)], s1)))"

definition resToChatHandleRefusalDelta ::
  "ResponsesStreamEvent \<Rightarrow> rc_state \<Rightarrow> ChatCompletionsChunk list \<times> rc_state" where
  "resToChatHandleRefusalDelta evt s =
     (if rse_Delta evt = [] then ([], s)
      else ([makeChatDeltaChunk s (zeroChatDelta\<lparr>cd_Refusal := Some (rse_Delta evt)\<rparr>)], s))"

definition resToChatHandleOutputItemAdded ::
  "ResponsesStreamEvent \<Rightarrow> rc_state \<Rightarrow> ChatCompletionsChunk list \<times> rc_state" where
  "resToChatHandleOutputItemAdded evt s =
     (case rse_Item evt of None \<Rightarrow> ([], s)
      | Some item \<Rightarrow>
        if ro_Type item \<noteq> ''function_call'' \<and> ro_Type item \<noteq> ''custom_tool_call'' then ([], s)
        else
          (let idx = rc_NextToolCallIndex s;
               s1 = s\<lparr>rc_SawToolCall := True,
                 rc_OutputIndexToToolIndex := (rc_OutputIndexToToolIndex s)(rse_OutputIndex evt \<mapsto> idx),
                 rc_NextToolCallIndex := idx + 1\<rparr>
           in ([makeChatDeltaChunk s1 (zeroChatDelta\<lparr>cd_ToolCalls :=
                  [\<lparr>ctc_Index = Some idx, ctc_ID = ro_CallID item, ctc_Type = ''function'',
                    ctc_Function = \<lparr>cfc_Name = ro_Name item, cfc_Arguments = []\<rparr>\<rparr>]\<rparr>)], s1)))"

definition args_chunk :: "rc_state \<Rightarrow> int \<Rightarrow> string \<Rightarrow> ChatCompletionsChunk" where
  "args_chunk s idx arguments = makeChatDeltaChunk s (zeroChatDelta\<lparr>cd_ToolCalls :=
     [zeroToolCall\<lparr>ctc_Index := Some idx, ctc_Function := \<lparr>cfc_Name = [], cfc_Arguments = arguments\<rparr>\<rparr>]\<rparr>)"

definition resToChatHandleFuncArgsDelta ::
  "ResponsesStreamEvent \<Rightarrow> rc_state \<Rightarrow> ChatCompletionsChunk list \<times> rc_state" where
  "resToChatHandleFuncArgsDelta evt s =
     (if rse_Delta evt = [] then ([], s)
      else case rc_OutputIndexToToolIndex s (rse_OutputIndex evt) of
        None \<Rightarrow> ([], s)
      | Some idx \<Rightarrow>
          (let args = get_or (rc_OutputIndexToArguments s) [] (rse_OutputIndex evt) @ rse_Delta evt;
               s1 = s\<lparr>rc_OutputIndexToArguments := (rc_OutputIndexToArguments s)(rse_OutputIndex evt \<mapsto> args)\<rparr>
           in ([args_chunk s1 idx (rse_Delta evt)], s1)))"

definition completed_args :: "ResponsesStreamEvent \<Rightarrow> string" where
  "completed_args evt = (if rse_Type evt = ''response.custom_tool_call_input.done'' then rse_Input evt
     else rse_Arguments evt)"

definition resToChatHandleFuncArgsDone ::
  "ResponsesStreamEvent \<Rightarrow> rc_state \<Rightarrow> ChatCompletionsChunk list \<times> rc_state" where
  "resToChatHandleFuncArgsDone evt s =
     (case rc_OutputIndexToToolIndex s (rse_OutputIndex evt) of
        None \<Rightarrow> ([], s)
      | Some idx \<Rightarrow>
          (let completed = completed_args evt;
               current = get_or (rc_OutputIndexToArguments s) [] (rse_OutputIndex evt)
           in if completed = [] \<or> \<not> HasPrefix completed current \<or> completed = current then ([], s)
              else
                (let s1 = s\<lparr>rc_OutputIndexToArguments :=
                        (rc_OutputIndexToArguments s)(rse_OutputIndex evt \<mapsto> completed)\<rparr>
                 in ([args_chunk s1 idx (drop (length current) completed)], s1))))"

definition resToChatHandleReasoningDelta ::
  "ResponsesStreamEvent \<Rightarrow> rc_state \<Rightarrow> ChatCompletionsChunk list \<times> rc_state" where
  "resToChatHandleReasoningDelta evt s =
     (if rse_Delta evt = [] then ([], s)
      else ([makeChatDeltaChunk s (zeroChatDelta\<lparr>cd_ReasoningContent := Some (rse_Delta evt)\<rparr>)], s))"

definition chat_finish_reason :: "ResponsesStreamEvent \<Rightarrow> bool \<Rightarrow> string" where
  \<comment> \<open>the finish reason of a terminal event; the flag is \<open>state.SawToolCall\<close>\<close>
  "chat_finish_reason evt sawToolCall =
     (case rse_Response evt of
        None \<Rightarrow> if sawToolCall then ''tool_calls'' else ''stop''
      | Some r \<Rightarrow>
        if rr_Status r = ''incomplete'' then
          (case rr_IncompleteDetails r of None \<Rightarrow> ''stop''
           | Some d \<Rightarrow> if rid_Reason d = ''max_output_tokens'' then ''length''
               else if rid_Reason d = ''content_filter'' then ''content_filter'' else ''stop'')
        else if rr_Status r = ''completed'' \<and> sawToolCall then ''tool_calls''
        else ''stop'')"

definition resToChatHandleCompleted ::
  "ResponsesStreamEvent \<Rightarrow> rc_state \<Rightarrow> ChatCompletionsChunk list \<times> rc_state" where
  "resToChatHandleCompleted evt s0 =
     (let s = s0\<lparr>rc_Finalized := True\<rparr>;
          s1 = (if rse_Usage evt \<noteq> None then s\<lparr>rc_Usage := chatUsageFromResponsesUsage (rse_Usage evt)\<rparr> else s);
          s2 = (case rse_Response evt of None \<Rightarrow> s1
            | Some r \<Rightarrow> s1\<lparr>rc_Usage := (if rr_Usage r \<noteq> None then chatUsageFromResponsesUsage (rr_Usage r) else rc_Usage s1),
                rc_ServiceTier := (if rr_ServiceTier r \<noteq> [] then rr_ServiceTier r else rc_ServiceTier s1)\<rparr>)
      in (finish_chunks s2 (chat_finish_reason evt (rc_SawToolCall s2)), s2))"

definition ResponsesEventToChatChunks ::
  "ResponsesStreamEvent \<Rightarrow> rc_state \<Rightarrow> ChatCompletionsChunk list \<times> rc_state" where
  "ResponsesEventToChatChunks evt s =
     (let t = rse_Type evt in
      if t = ''response.created'' then resToChatHandleCreated evt s
      else if t = ''response.output_text.delta'' then resToChatHandleTextDelta evt s
      else if t = ''response.refusal.delta'' then resToChatHandleRefusalDelta evt s
      else if t = ''response.output_item.added'' then resToChatHandleOutputItemAdded evt s
      else if t = ''response.function_call_arguments.delta'' \<or> t = ''response.custom_tool_call_input.delta''
        then resToChatHandleFuncArgsDelta evt s
      else if t = ''response.function_call_arguments.done'' \<or> t = ''response.custom_tool_call_input.done''
        then resToChatHandleFuncArgsDone evt s
      else if t = ''response.reasoning_summary_text.delta'' \<or> t = ''response.reasoning_text.delta''
        then resToChatHandleReasoningDelta evt s
      else if t = ''response.reasoning_summary_text.done'' then ([], s)
      else if t = ''response.completed'' \<or> t = ''response.done'' \<or> t = ''response.incomplete'' \<or> t = ''response.failed''
        then resToChatHandleCompleted evt s
      else ([], s))"

definition FinalizeResponsesChatStream :: "rc_state \<Rightarrow> ChatCompletionsChunk list \<times> rc_state" where
  "FinalizeResponsesChatStream s =
     (if rc_Finalized s then ([], s)
      else (let s1 = s\<lparr>rc_Finalized := True\<rparr> in
            (finish_chunks s1 (if rc_SawToolCall s1 then ''tool_calls'' else ''stop''), s1)))"

section \<open>The accumulator of buffered streams\<close>

record bufferedFuncCall =
  bfc_OutputIndex :: int
  bfc_CallID :: string
  bfc_Name :: string
  bfc_Args :: string

record BufferedResponseAccumulator =
  bra_text :: string
  bra_refusal :: string
  bra_reasoning :: string
  bra_funcCalls :: "bufferedFuncCall list"
  bra_outputIndexToFuncIdx :: "int \<rightharpoonup> nat"

definition NewBufferedResponseAccumulator :: BufferedResponseAccumulator where
  "NewBufferedResponseAccumulator = \<lparr>bra_text = [], bra_refusal = [], bra_reasoning = [], bra_funcCalls = [],
     bra_outputIndexToFuncIdx = Map.empty\<rparr>"

definition set_args :: "(string \<Rightarrow> string) \<Rightarrow> int \<Rightarrow> BufferedResponseAccumulator \<Rightarrow> BufferedResponseAccumulator" where
  \<comment> \<open>change \<open>a.funcCalls[idx].Args\<close> for the call registered under an output index\<close>
  "set_args f outputIndex a =
     (case bra_outputIndexToFuncIdx a outputIndex of None \<Rightarrow> a
      | Some idx \<Rightarrow> (let c = bra_funcCalls a ! idx in
          a\<lparr>bra_funcCalls := (bra_funcCalls a)[idx := c\<lparr>bfc_Args := f (bfc_Args c)\<rparr>]\<rparr>))"

definition ProcessEvent :: "ResponsesStreamEvent \<Rightarrow> BufferedResponseAccumulator \<Rightarrow> BufferedResponseAccumulator" where
  "ProcessEvent event a =
     (let t = rse_Type event in
      if t = ''response.output_text.delta'' then
        (if rse_Delta event \<noteq> [] then a\<lparr>bra_text := bra_text a @ rse_Delta event\<rparr> else a)
      else if t = ''response.refusal.delta'' then
        (if rse_Delta event \<noteq> [] then a\<lparr>bra_refusal := bra_refusal a @ rse_Delta event\<rparr> else a)
      else if t = ''response.output_item.added'' then
        (case rse_Item event of None \<Rightarrow> a
         | Some item \<Rightarrow>
           if ro_Type item = ''function_call'' \<or> ro_Type item = ''custom_tool_call'' then
             a\<lparr>bra_outputIndexToFuncIdx := (bra_outputIndexToFuncIdx a)(rse_OutputIndex event \<mapsto> length (bra_funcCalls a)),
               bra_funcCalls := bra_funcCalls a @ [\<lparr>bfc_OutputIndex = rse_OutputIndex event,
                  bfc_CallID = ro_CallID item, bfc_Name = ro_Name item, bfc_Args = []\<rparr>]\<rparr>
           else a)
      else if t = ''response.function_call_arguments.delta'' \<or> t = ''response.custom_tool_call_input.delta'' then
        (if rse_Delta event \<noteq> [] then set_args (\<lambda>args. args @ rse_Delta event) (rse_OutputIndex event) a else a)
      else if t = ''response.function_call_arguments.done'' \<or> t = ''response.custom_tool_call_input.done'' then
        (if completed_args event \<noteq> [] then set_args (\<lambda>_. completed_args event) (rse_OutputIndex event) a else a)
      else if t = ''response.reasoning_summary_text.delta'' \<or> t = ''response.reasoning_text.delta'' then
        (if rse_Delta event \<noteq> [] then a\<lparr>bra_reasoning := bra_reasoning a @ rse_Delta event\<rparr> else a)
      else a)"

definition HasContent :: "BufferedResponseAccumulator \<Rightarrow> bool" where
  "HasContent a \<longleftrightarrow> bra_text a \<noteq> [] \<or> bra_refusal a \<noteq> [] \<or> bra_funcCalls a \<noteq> [] \<or> bra_reasoning a \<noteq> []"

definition call_output :: "bufferedFuncCall \<Rightarrow> ResponsesOutput" where
  "call_output c = zeroOutput\<lparr>ro_Type := ''function_call'', ro_CallID := bfc_CallID c, ro_Name := bfc_Name c,
     ro_Arguments := bfc_Args c\<rparr>"

definition BuildOutput :: "BufferedResponseAccumulator \<Rightarrow> ResponsesOutput list" where
  "BuildOutput a =
     (if bra_reasoning a \<noteq> [] then
        [zeroOutput\<lparr>ro_Type := ''reasoning'', ro_Summary := summary_of (bra_reasoning a)\<rparr>] else [])
     @ (if bra_text a \<noteq> [] \<or> bra_refusal a \<noteq> [] then
          [zeroOutput\<lparr>ro_Type := ''message'', ro_Role := ''assistant'',
             ro_Content := (if bra_text a \<noteq> [] then [text_part (bra_text a)] else [])
               @ (if bra_refusal a \<noteq> [] then [zeroPart\<lparr>rcp_Type := ''refusal'', rcp_Refusal := bra_refusal a\<rparr>] else [])\<rparr>]
        else [])
     @ map call_output (bra_funcCalls a)"

definition responsesOutputHasText :: "ResponsesOutput list \<Rightarrow> bool" where
  "responsesOutputHasText items =
     list_ex (\<lambda>i. ro_Type i = ''message''
       \<and> list_ex (\<lambda>p. rcp_Type p = ''output_text'' \<and> TrimSpace (rcp_Text p) \<noteq> []) (ro_Content i)) items"

text \<open>The inner loop of \<open>fillResponsesOutputText\<close>: None when no part of the message is an empty \<open>output_text\<close>.\<close>

fun fill_parts :: "ResponsesContentPart list \<Rightarrow> string \<Rightarrow> ResponsesContentPart list option" where
  "fill_parts [] text = None"
| "fill_parts (p # ps) text =
     (if rcp_Type p = ''output_text'' \<and> TrimSpace (rcp_Text p) = [] then Some (p\<lparr>rcp_Text := text\<rparr> # ps)
      else map_option ((#) p) (fill_parts ps text))"

fun fillResponsesOutputText :: "ResponsesOutput list \<Rightarrow> string \<Rightarrow> ResponsesOutput list \<times> bool" where
  "fillResponsesOutputText [] text = ([], False)"
| "fillResponsesOutputText (i # is) text =
     (if ro_Type i \<noteq> ''message'' then
        (case fillResponsesOutputText is text of (is', ok) \<Rightarrow> (i # is', ok))
      else (case fill_parts (ro_Content i) text of
          Some parts \<Rightarrow> (i\<lparr>ro_Content := parts\<rparr> # is, True)
        | None \<Rightarrow> (i\<lparr>ro_Content := ro_Content i @ [text_part text]\<rparr> # is, True)))"

definition call_matches :: "int \<Rightarrow> ResponsesOutput \<Rightarrow> bufferedFuncCall \<Rightarrow> bool" where
  "call_matches outputIndex item c \<longleftrightarrow>
     (ro_CallID item \<noteq> [] \<and> ro_CallID item = bfc_CallID c) \<or> bfc_OutputIndex c = outputIndex"

definition fill_args :: "bufferedFuncCall list \<Rightarrow> int \<Rightarrow> ResponsesOutput \<Rightarrow> ResponsesOutput" where
  "fill_args calls outputIndex item =
     (if ro_Type item \<noteq> ''function_call'' \<or> ro_Arguments item \<noteq> [] then item
      else case List.find (call_matches outputIndex item) calls of
        None \<Rightarrow> item
      | Some c \<Rightarrow> if bfc_Args c \<noteq> [] then item\<lparr>ro_Arguments := bfc_Args c\<rparr> else item)"

fun fill_all_args :: "bufferedFuncCall list \<Rightarrow> int \<Rightarrow> ResponsesOutput list \<Rightarrow> ResponsesOutput list" where
  "fill_all_args calls outputIndex [] = []"
| "fill_all_args calls outputIndex (item # rest) =
     fill_args calls outputIndex item # fill_all_args calls (outputIndex + 1) rest"

definition SupplementResponseOutput ::
  "BufferedResponseAccumulator \<Rightarrow> ResponsesResponse option \<Rightarrow> ResponsesResponse option" where
  \<comment> \<open>the response the pointer argument refers to afterwards; None is a nil pointer\<close>
  "SupplementResponseOutput a resp =
     (case resp of None \<Rightarrow> None
      | Some r \<Rightarrow>
        if rr_Output r = [] then
          Some (if HasContent a then r\<lparr>rr_Output := BuildOutput a\<rparr> else r)
        else
          (let out = (if bra_text a \<noteq> [] \<and> \<not> responsesOutputHasText (rr_Output r) then
                 (case fillResponsesOutputText (rr_Output r) (bra_text a) of (filled, ok) \<Rightarrow>
                    if ok then filled
                    else filled @ [zeroOutput\<lparr>ro_Type := ''message'', ro_Role := ''assistant'',
                      ro_Content := [text_part (bra_text a)]\<rparr>])
               else rr_Output r)
           in Some (r\<lparr>rr_Output := fill_all_args (bra_funcCalls a) 0 out\<rparr>)))"

end
