(* ===== verification/ResponsesToChatCorrect.thy ===== *)
theory ResponsesToChatCorrect
  imports ResponsesToChat Protocols
begin

text \<open>
  Correctness of the Responses to Chat Completions converter: what a streaming client
  assembles from the chunks is what the accumulator collects from the same events, a
  stream has one finish chunk per terminal event, and the accumulator only fills gaps.
\<close>

section \<open>What a Chat Completions client assembles\<close>

record chat_client =
  cl_text :: string
  cl_refusal :: string
  cl_reasoning :: string
  cl_calls :: "(string \<times> string \<times> string) list"

definition client_call :: "ChatToolCall \<Rightarrow> chat_client \<Rightarrow> chat_client option" where
  \<comment> \<open>a fragment either opens the next call, or extends the arguments of a known one\<close>
  "client_call t c =
     (case ctc_Index t of None \<Rightarrow> None
      | Some i \<Rightarrow>
        if i = int (length (cl_calls c)) then
          (if ctc_Type t = ''function''
           then Some (c\<lparr>cl_calls := cl_calls c @ [(ctc_ID t, cfc_Name (ctc_Function t), cfc_Arguments (ctc_Function t))]\<rparr>)
           else None)
        else if 0 \<le> i \<and> i < int (length (cl_calls c)) then
          (case cl_calls c ! nat i of (cid, name, args) \<Rightarrow>
             Some (c\<lparr>cl_calls := (cl_calls c)[nat i := (cid, name, args @ cfc_Arguments (ctc_Function t))]\<rparr>))
        else None)"

definition opt_text :: "string option \<Rightarrow> string" where
  "opt_text x = (case x of None \<Rightarrow> [] | Some t \<Rightarrow> t)"

definition client_delta :: "chat_client \<Rightarrow> ChatDelta \<Rightarrow> chat_client option" where
  "client_delta c d =
     (let c1 = c\<lparr>cl_text := cl_text c @ opt_text (cd_Content d), cl_refusal := cl_refusal c @ opt_text (cd_Refusal d),
             cl_reasoning := cl_reasoning c @ opt_text (delta_reasoningText d)\<rparr>
      in fold (\<lambda>t r. case r of None \<Rightarrow> None | Some c \<Rightarrow> client_call t c) (cd_ToolCalls d) (Some c1))"

definition client_accept :: "chat_client \<Rightarrow> ChatCompletionsChunk \<Rightarrow> chat_client option" where
  "client_accept c k =
     (case cck_Choices k of [] \<Rightarrow> Some c | ch # _ \<Rightarrow> client_delta c (ccc_Delta ch))"

text \<open>
  An upstream whose calls are announced once per output index, and whose done events agree
  with their deltas: the payload is empty or extends what was streamed.
\<close>

definition is_call :: "ResponsesStreamEvent \<Rightarrow> bool" where
  "is_call e \<longleftrightarrow> (case rse_Item e of None \<Rightarrow> False
     | Some it \<Rightarrow> ro_Type it = ''function_call'' \<or> ro_Type it = ''custom_tool_call'')"

definition calls_accept :: "(int \<rightharpoonup> string) \<Rightarrow> ResponsesStreamEvent \<Rightarrow> (int \<rightharpoonup> string) option" where
  "calls_accept m e =
     (let t = rse_Type e; k = rse_OutputIndex e in
      if t = ''response.output_item.added'' then
        (if is_call e then (if m k = None then Some (m(k \<mapsto> [])) else None) else Some m)
      else if t = ''response.function_call_arguments.delta'' \<or> t = ''response.custom_tool_call_input.delta'' then
        Some (case m k of None \<Rightarrow> m | Some args \<Rightarrow> m(k \<mapsto> args @ rse_Delta e))
      else if t = ''response.function_call_arguments.done'' \<or> t = ''response.custom_tool_call_input.done'' then
        (case m k of None \<Rightarrow> Some m
         | Some args \<Rightarrow> if completed_args e = [] then Some m
             else if HasPrefix (completed_args e) args then Some (m(k \<mapsto> completed_args e)) else None)
      else Some m)"

text \<open>The streaming converter and the accumulator, fed with the same events.\<close>

definition stream_and_buffer :: "ResponsesStreamEvent \<Rightarrow> rc_state \<times> BufferedResponseAccumulator
    \<Rightarrow> ChatCompletionsChunk list \<times> rc_state \<times> BufferedResponseAccumulator" where
  "stream_and_buffer e p = (case ResponsesEventToChatChunks e (fst p) of (cs, s') \<Rightarrow> (cs, s', ProcessEvent e (snd p)))"

definition call_view :: "bufferedFuncCall \<Rightarrow> string \<times> string \<times> string" where
  "call_view c = (bfc_CallID c, bfc_Name c, bfc_Args c)"

definition buffer_view :: "BufferedResponseAccumulator \<Rightarrow> chat_client" where
  "buffer_view a = \<lparr>cl_text = bra_text a, cl_refusal = bra_refusal a, cl_reasoning = bra_reasoning a,
     cl_calls = map call_view (bra_funcCalls a)\<rparr>"

definition calls_rel :: "(int \<rightharpoonup> string) \<Rightarrow> rc_state \<times> BufferedResponseAccumulator \<Rightarrow> bool" where
  "calls_rel m p \<longleftrightarrow> (case p of (s, a) \<Rightarrow>
     rc_NextToolCallIndex s = int (length (bra_funcCalls a))
     \<and> rc_OutputIndexToToolIndex s = map_option int \<circ> bra_outputIndexToFuncIdx a
     \<and> inj_on (bra_outputIndexToFuncIdx a) (dom (bra_outputIndexToFuncIdx a))
     \<and> dom m = dom (bra_outputIndexToFuncIdx a)
     \<and> (\<forall>k i. bra_outputIndexToFuncIdx a k = Some i \<longrightarrow> i < length (bra_funcCalls a)
          \<and> m k = Some (bfc_Args (bra_funcCalls a ! i)) \<and> get_or (rc_OutputIndexToArguments s) [] k = bfc_Args (bra_funcCalls a ! i))
     \<and> (\<forall>k. bra_outputIndexToFuncIdx a k = None \<longrightarrow> rc_OutputIndexToArguments s k = None))"

lemma client_accept_delta [simp]: "client_accept c (makeChatDeltaChunk s d) = client_delta c d"
  by (simp add: client_accept_def makeChatDeltaChunk_def chat_chunk_def)

lemma client_accept_finish [simp]: "run_acc client_accept c (finish_chunks s r) = Some c"
  by (simp add: client_accept_def finish_chunks_def makeChatFinishChunk_def chat_chunk_def client_delta_def
      opt_text_def delta_reasoningText_def)

lemma client_delta_texts [simp]:
  "client_delta c (zeroChatDelta\<lparr>cd_Role := r\<rparr>) = Some c"
  "client_delta c (zeroChatDelta\<lparr>cd_Content := Some t\<rparr>) = Some (c\<lparr>cl_text := cl_text c @ t\<rparr>)"
  "client_delta c (zeroChatDelta\<lparr>cd_Refusal := Some t\<rparr>) = Some (c\<lparr>cl_refusal := cl_refusal c @ t\<rparr>)"
  "client_delta c (zeroChatDelta\<lparr>cd_ReasoningContent := Some t\<rparr>) = Some (c\<lparr>cl_reasoning := cl_reasoning c @ t\<rparr>)"
  "client_delta c (zeroChatDelta\<lparr>cd_ToolCalls := [tc]\<rparr>) = client_call tc c"
  by (simp_all add: client_delta_def opt_text_def delta_reasoningText_def)

lemma buffer_set_args:
  assumes "bra_outputIndexToFuncIdx a k = Some i" "i < length (bra_funcCalls a)"
    and "f (bfc_Args (bra_funcCalls a ! i)) = bfc_Args (bra_funcCalls a ! i) @ t"
  shows "client_accept (buffer_view a) (args_chunk s (int i) t) = Some (buffer_view (set_args f k a))"
  using assms
  by (simp add: args_chunk_def client_call_def buffer_view_def set_args_def Let_def call_view_def map_update)

lemma set_args_const:
  "bra_outputIndexToFuncIdx a k = Some i \<Longrightarrow> set_args f k a = set_args (\<lambda>_. f (bfc_Args (bra_funcCalls a ! i))) k a"
  by (simp add: set_args_def Let_def)

lemma calls_rel_known:
  assumes "calls_rel m (s, a)"
  shows "bra_outputIndexToFuncIdx a k = Some i \<Longrightarrow> i < length (bra_funcCalls a)
           \<and> m k = Some (bfc_Args (bra_funcCalls a ! i))
           \<and> get_or (rc_OutputIndexToArguments s) [] k = bfc_Args (bra_funcCalls a ! i)
           \<and> rc_OutputIndexToToolIndex s k = Some (int i)"
    and "bra_outputIndexToFuncIdx a k = None \<Longrightarrow> m k = None \<and> rc_OutputIndexToToolIndex s k = None"
    and "rc_NextToolCallIndex s = int (length (bra_funcCalls a))"
  using assms by (auto simp: calls_rel_def)

lemma calls_rel_args:
  assumes rel: "calls_rel m (s, a)" and k: "bra_outputIndexToFuncIdx a k = Some i"
  shows "calls_rel (m(k \<mapsto> t)) (s\<lparr>rc_OutputIndexToArguments := (rc_OutputIndexToArguments s)(k \<mapsto> t)\<rparr>, set_args (\<lambda>_. t) k a)"
proof -
  have inj: "bra_outputIndexToFuncIdx a j = Some i \<Longrightarrow> j = k" for j
    using rel k by (auto simp: calls_rel_def inj_on_def dom_def)
  have upd: "set_args (\<lambda>_. t) k a = a\<lparr>bra_funcCalls := (bra_funcCalls a)[i := (bra_funcCalls a ! i)\<lparr>bfc_Args := t\<rparr>]\<rparr>"
    using k by (simp add: set_args_def Let_def)
  have old: "l < length (bra_funcCalls a) \<and> m j = Some (bfc_Args (bra_funcCalls a ! l))
      \<and> get_or (rc_OutputIndexToArguments s) [] j = bfc_Args (bra_funcCalls a ! l)"
    if "bra_outputIndexToFuncIdx a j = Some l" for j l
    using rel that by (simp add: calls_rel_def)
  have new: "l < length (bra_funcCalls a) \<and> (m(k \<mapsto> t)) j = Some (bfc_Args ((bra_funcCalls a)[i := (bra_funcCalls a ! i)\<lparr>bfc_Args := t\<rparr>] ! l))
      \<and> get_or ((rc_OutputIndexToArguments s)(k \<mapsto> t)) [] j = bfc_Args ((bra_funcCalls a)[i := (bra_funcCalls a ! i)\<lparr>bfc_Args := t\<rparr>] ! l)"
    if "bra_outputIndexToFuncIdx a j = Some l" for j l
  proof (cases "j = k")
    case True
    with that k old [OF k] show ?thesis by simp
  next
    case False
    with inj that have "l \<noteq> i" by blast
    with False old [OF that] show ?thesis by simp
  qed
  have "dom (m(k \<mapsto> t)) = dom (bra_outputIndexToFuncIdx a)" using rel k by (auto simp: calls_rel_def)
  with rel new k show ?thesis unfolding upd by (auto simp: calls_rel_def)
qed

lemma calls_rel_texts:
  "calls_rel m (s, a\<lparr>bra_text := t\<rparr>) = calls_rel m (s, a)"
  "calls_rel m (s, a\<lparr>bra_refusal := t\<rparr>) = calls_rel m (s, a)"
  "calls_rel m (s, a\<lparr>bra_reasoning := t\<rparr>) = calls_rel m (s, a)"
  "calls_rel m (s\<lparr>rc_SawText := b\<rparr>, a) = calls_rel m (s, a)"
  by (simp_all add: calls_rel_def)

lemma calls_rel_same:
  assumes "rc_NextToolCallIndex s' = rc_NextToolCallIndex s" "rc_OutputIndexToToolIndex s' = rc_OutputIndexToToolIndex s"
    and "rc_OutputIndexToArguments s' = rc_OutputIndexToArguments s"
  shows "calls_rel m (s', a) = calls_rel m (s, a)"
  using assms by (simp add: calls_rel_def)

lemma inj_on_map_add_fresh:
  assumes "inj_on f (dom f)" "\<And>j i. f j = Some i \<Longrightarrow> i \<noteq> n"
  shows "inj_on (f(k \<mapsto> n)) (dom (f(k \<mapsto> n)))"
proof (rule inj_onI)
  fix x y assume "x \<in> dom (f(k \<mapsto> n))" "y \<in> dom (f(k \<mapsto> n))" and e: "(f(k \<mapsto> n)) x = (f(k \<mapsto> n)) y"
  then obtain v w where "(f(k \<mapsto> n)) x = Some v" "(f(k \<mapsto> n)) y = Some w" by blast
  with e assms show "x = y"
    by (cases "x = k"; cases "y = k") (auto simp: inj_on_def dom_def)
qed

lemma calls_rel_add:
  assumes rel: "calls_rel m (s, a)" and k: "bra_outputIndexToFuncIdx a k = None"
    and s': "rc_NextToolCallIndex s' = rc_NextToolCallIndex s + 1"
      "rc_OutputIndexToToolIndex s' = (rc_OutputIndexToToolIndex s)(k \<mapsto> rc_NextToolCallIndex s)"
      "rc_OutputIndexToArguments s' = rc_OutputIndexToArguments s"
    and c: "bfc_Args c = []"
  shows "calls_rel (m(k \<mapsto> [])) (s', a\<lparr>bra_outputIndexToFuncIdx := (bra_outputIndexToFuncIdx a)(k \<mapsto> length (bra_funcCalls a)),
     bra_funcCalls := bra_funcCalls a @ [c]\<rparr>)"
proof -
  let ?f = "bra_outputIndexToFuncIdx a" and ?cs = "bra_funcCalls a"
  let ?f' = "?f(k \<mapsto> length ?cs)"
  note kn = calls_rel_known [OF rel]
  have old: "i < length ?cs" if "?f j = Some i" for i j using kn(1) [OF that] by simp
  have "inj_on ?f' (dom ?f')"
    by (rule inj_on_map_add_fresh) (use rel old in \<open>auto simp: calls_rel_def\<close>)
  moreover have "rc_OutputIndexToToolIndex s' = map_option int \<circ> ?f'"
    using rel s'(2) kn(3) by (auto simp: calls_rel_def fun_eq_iff)
  moreover have "dom (m(k \<mapsto> [])) = dom ?f'" using rel by (simp add: calls_rel_def)
  moreover have "i < length (?cs @ [c]) \<and> (m(k \<mapsto> [])) j = Some (bfc_Args ((?cs @ [c]) ! i))
      \<and> get_or (rc_OutputIndexToArguments s') [] j = bfc_Args ((?cs @ [c]) ! i)" if "?f' j = Some i" for i j
  proof (cases "j = k")
    case True
    with that k rel s'(3) c show ?thesis by (auto simp: calls_rel_def get_or_def nth_append)
  next
    case False
    with that kn(1) [of j i] s'(3) show ?thesis by (simp add: nth_append)
  qed
  moreover have "rc_OutputIndexToArguments s' j = None" if "?f' j = None" for j
    using that rel s'(3) by (auto simp: calls_rel_def split: if_splits)
  ultimately show ?thesis using s'(1) kn(3) by (simp add: calls_rel_def)
qed

text \<open>One step, by kind of event.\<close>

definition sb_ok :: "ResponsesStreamEvent \<Rightarrow> (int \<rightharpoonup> string) \<Rightarrow> rc_state \<Rightarrow> BufferedResponseAccumulator
    \<Rightarrow> ChatCompletionsChunk list \<times> rc_state \<Rightarrow> bool" where
  "sb_ok e m' s a r \<longleftrightarrow> run_acc client_accept (buffer_view a) (fst r) = Some (buffer_view (ProcessEvent e a))
     \<and> calls_rel m' (snd r, ProcessEvent e a)"

lemma sb_added:
  assumes "calls_rel m (s, a)" "calls_accept m e = Some m'" "rse_Type e = ''response.output_item.added''"
  shows "sb_ok e m' s a (resToChatHandleOutputItemAdded e s)"
proof (cases "is_call e")
  case False
  with assms show ?thesis
    by (cases "rse_Item e") (auto simp: sb_ok_def calls_accept_def is_call_def resToChatHandleOutputItemAdded_def ProcessEvent_def)
next
  case True
  then obtain it where it: "rse_Item e = Some it" "ro_Type it = ''function_call'' \<or> ro_Type it = ''custom_tool_call''"
    by (auto simp: is_call_def split: option.splits)
  let ?k = "rse_OutputIndex e"
  from True assms(2,3) have m: "m ?k = None" "m' = m(?k \<mapsto> [])" by (auto simp: calls_accept_def Let_def split: if_splits)
  have k: "bra_outputIndexToFuncIdx a ?k = None"
    using calls_rel_known(1) [OF assms(1)] m(1) by (cases "bra_outputIndexToFuncIdx a ?k") auto
  with assms(1) have args: "get_or (rc_OutputIndexToArguments s) [] ?k = []" by (simp add: calls_rel_def get_or_def)
  let ?c = "\<lparr>bfc_OutputIndex = ?k, bfc_CallID = ro_CallID it, bfc_Name = ro_Name it, bfc_Args = []\<rparr>"
  let ?a = "a\<lparr>bra_outputIndexToFuncIdx := (bra_outputIndexToFuncIdx a)(?k \<mapsto> length (bra_funcCalls a)),
              bra_funcCalls := bra_funcCalls a @ [?c]\<rparr>"
  have p: "ProcessEvent e a = ?a" using it assms(3) by (auto simp: ProcessEvent_def)
  have h: "resToChatHandleOutputItemAdded e s =
      (let s1 = s\<lparr>rc_SawToolCall := True,
          rc_OutputIndexToToolIndex := (rc_OutputIndexToToolIndex s)(?k \<mapsto> rc_NextToolCallIndex s),
          rc_NextToolCallIndex := rc_NextToolCallIndex s + 1\<rparr>
       in ([makeChatDeltaChunk s1 (zeroChatDelta\<lparr>cd_ToolCalls :=
                  [\<lparr>ctc_Index = Some (rc_NextToolCallIndex s), ctc_ID = ro_CallID it, ctc_Type = ''function'',
                    ctc_Function = \<lparr>cfc_Name = ro_Name it, cfc_Arguments = []\<rparr>\<rparr>]\<rparr>)], s1))"
    using it by (auto simp: resToChatHandleOutputItemAdded_def Let_def)
  have lt: "i < length (bra_funcCalls a)" if "bra_outputIndexToFuncIdx a j = Some i" for i j
    using assms(1) that by (simp add: calls_rel_def)
  have n: "rc_NextToolCallIndex s = int (length (bra_funcCalls a))" using assms(1) by (simp add: calls_rel_def)
  have "calls_rel m' (snd (resToChatHandleOutputItemAdded e s), ?a)"
    unfolding m(2) by (rule calls_rel_add [OF assms(1) k]) (simp_all add: h Let_def n)
  moreover have "run_acc client_accept (buffer_view a) (fst (resToChatHandleOutputItemAdded e s)) = Some (buffer_view ?a)"
    unfolding h by (simp add: Let_def client_call_def buffer_view_def call_view_def n)
  ultimately show ?thesis by (simp add: sb_ok_def p)
qed

lemma sb_delta:
  assumes "calls_rel m (s, a)" "calls_accept m e = Some m'"
    and "rse_Type e = ''response.function_call_arguments.delta'' \<or> rse_Type e = ''response.custom_tool_call_input.delta''"
  shows "sb_ok e m' s a (resToChatHandleFuncArgsDelta e s)"
proof (cases "bra_outputIndexToFuncIdx a (rse_OutputIndex e)")
  case None
  with calls_rel_known(2) [OF assms(1) this] assms show ?thesis
    by (auto simp: sb_ok_def calls_accept_def resToChatHandleFuncArgsDelta_def ProcessEvent_def set_args_def Let_def)
next
  case (Some i)
  let ?k = "rse_OutputIndex e" and ?args = "bfc_Args (bra_funcCalls a ! i)"
  note kn = calls_rel_known(1) [OF assms(1) Some]
  have m': "m' = m(?k \<mapsto> ?args @ rse_Delta e)" using assms(2,3) kn by (auto simp: calls_accept_def Let_def)
  have p: "ProcessEvent e a = (if rse_Delta e = [] then a else set_args (\<lambda>x. x @ rse_Delta e) ?k a)"
    using assms(3) by (auto simp: ProcessEvent_def)
  show ?thesis
  proof (cases "rse_Delta e = []")
    case True
    then show ?thesis using assms(1) kn m' p
      by (simp add: sb_ok_def resToChatHandleFuncArgsDelta_def) (metis fun_upd_triv)
  next
    case False
    have "calls_rel m' (s\<lparr>rc_OutputIndexToArguments := (rc_OutputIndexToArguments s)(?k \<mapsto> ?args @ rse_Delta e)\<rparr>,
        set_args (\<lambda>_. ?args @ rse_Delta e) ?k a)" unfolding m' by (rule calls_rel_args [OF assms(1) Some])
    with False kn p Some buffer_set_args [OF Some, of "\<lambda>x. x @ rse_Delta e" "rse_Delta e"]
    show ?thesis by (simp add: sb_ok_def resToChatHandleFuncArgsDelta_def Let_def set_args_const [OF Some, of "\<lambda>x. x @ rse_Delta e"])
  qed
qed

lemma sb_done:
  assumes "calls_rel m (s, a)" "calls_accept m e = Some m'"
    and "rse_Type e = ''response.function_call_arguments.done'' \<or> rse_Type e = ''response.custom_tool_call_input.done''"
  shows "sb_ok e m' s a (resToChatHandleFuncArgsDone e s)"
proof (cases "bra_outputIndexToFuncIdx a (rse_OutputIndex e)")
  case None
  with calls_rel_known(2) [OF assms(1) this] assms show ?thesis
    by (auto simp: sb_ok_def calls_accept_def resToChatHandleFuncArgsDone_def ProcessEvent_def set_args_def Let_def)
next
  case (Some i)
  let ?k = "rse_OutputIndex e" and ?args = "bfc_Args (bra_funcCalls a ! i)" and ?done = "completed_args e"
  note kn = calls_rel_known(1) [OF assms(1) Some]
  have p: "ProcessEvent e a = (if ?done = [] then a else set_args (\<lambda>_. ?done) ?k a)"
    using assms(3) by (auto simp: ProcessEvent_def)
  show ?thesis
  proof (cases "?done = []")
    case True
    then have "m' = m" using assms(2,3) kn by (auto simp: calls_accept_def Let_def)
    with True assms(1) kn p show ?thesis by (simp add: sb_ok_def resToChatHandleFuncArgsDone_def Let_def)
  next
    case False
    then have pre: "HasPrefix ?done ?args" and m': "m' = m(?k \<mapsto> ?done)"
      using assms(2,3) kn by (auto simp: calls_accept_def Let_def split: if_splits)
    show ?thesis
    proof (cases "?done = ?args")
      case True
      have "set_args (\<lambda>_. ?done) ?k a = a" using Some by (simp add: set_args_def Let_def True list_update_id)
      moreover have "m' = m" using kn m' True by auto
      ultimately show ?thesis using assms(1) kn p False True
        by (simp add: sb_ok_def resToChatHandleFuncArgsDone_def Let_def)
    next
      case diff: False
      have "calls_rel m' (s\<lparr>rc_OutputIndexToArguments := (rc_OutputIndexToArguments s)(?k \<mapsto> ?done)\<rparr>,
          set_args (\<lambda>_. ?done) ?k a)" unfolding m' by (rule calls_rel_args [OF assms(1) Some])
      moreover have "client_accept (buffer_view a) (args_chunk s1 (int i) (drop (length ?args) ?done))
          = Some (buffer_view (set_args (\<lambda>_. ?done) ?k a))" for s1
        using buffer_set_args [OF Some, of "\<lambda>_. ?done" "drop (length ?args) ?done"] kn HasPrefix_drop [OF pre] by simp
      ultimately show ?thesis using diff False pre kn p
        by (simp add: sb_ok_def resToChatHandleFuncArgsDone_def Let_def)
    qed
  qed
qed

lemma sb_text:
  assumes "calls_rel m (s, a)"
  shows "rse_Type e = ''response.output_text.delta'' \<Longrightarrow> sb_ok e m s a (resToChatHandleTextDelta e s)"
    and "rse_Type e = ''response.refusal.delta'' \<Longrightarrow> sb_ok e m s a (resToChatHandleRefusalDelta e s)"
    and "rse_Type e = ''response.reasoning_summary_text.delta'' \<or> rse_Type e = ''response.reasoning_text.delta''
         \<Longrightarrow> sb_ok e m s a (resToChatHandleReasoningDelta e s)"
  using assms
  by (auto simp: sb_ok_def resToChatHandleTextDelta_def resToChatHandleRefusalDelta_def Let_def
      resToChatHandleReasoningDelta_def ProcessEvent_def buffer_view_def calls_rel_texts)

lemma sb_created:
  assumes "calls_rel m (s, a)" "rse_Type e = ''response.created''"
  shows "sb_ok e m s a (resToChatHandleCreated e s)"
proof -
  have "calls_rel m (snd (resToChatHandleCreated e s), a) = calls_rel m (s, a)"
    by (rule calls_rel_same) (auto simp: resToChatHandleCreated_def Let_def split: option.split)
  with assms show ?thesis
    by (auto simp: sb_ok_def ProcessEvent_def resToChatHandleCreated_def Let_def split: option.split)
qed

lemma sb_completed:
  assumes "calls_rel m (s, a)" "is_terminal_type (rse_Type e)"
  shows "sb_ok e m s a (resToChatHandleCompleted e s)"
proof -
  have "calls_rel m (snd (resToChatHandleCompleted e s), a) = calls_rel m (s, a)"
    by (rule calls_rel_same) (auto simp: resToChatHandleCompleted_def Let_def split: option.split)
  moreover have "ProcessEvent e a = a" using assms(2) by (auto simp: is_terminal_type_def ProcessEvent_def)
  ultimately show ?thesis using assms(1)
    by (auto simp: sb_ok_def resToChatHandleCompleted_def Let_def)
qed

lemma calls_accept_other:
  assumes "rse_Type e \<notin> {''response.output_item.added'', ''response.function_call_arguments.delta'',
     ''response.custom_tool_call_input.delta'', ''response.function_call_arguments.done'',
     ''response.custom_tool_call_input.done''}"
  shows "calls_accept m e = Some m"
  using assms by (simp add: calls_accept_def)

lemma sb_step:
  assumes rel: "calls_rel m (s, a)" and acc: "calls_accept m e = Some m'"
  shows "sb_ok e m' s a (ResponsesEventToChatChunks e s)"
proof -
  let ?T = "{''response.output_item.added'', ''response.function_call_arguments.delta'',
     ''response.custom_tool_call_input.delta'', ''response.function_call_arguments.done'',
     ''response.custom_tool_call_input.done''}"
  show ?thesis
  proof (cases "rse_Type e \<in> ?T")
    case True
    with sb_added [OF rel acc] sb_delta [OF rel acc] sb_done [OF rel acc] show ?thesis
      by (auto simp: ResponsesEventToChatChunks_def)
  next
    case False
    with acc have m': "m' = m" by (simp add: calls_accept_other)
    have other: "sb_ok e m s a ([], s)" if "ProcessEvent e a = a" using rel that by (simp add: sb_ok_def)
    show ?thesis unfolding m'
      using False sb_created [OF rel] sb_text [OF rel] sb_completed [OF rel] other
      by (simp add: ResponsesEventToChatChunks_def is_terminal_type_def ProcessEvent_def Let_def)
  qed
qed

interpretation chat_stream: translator stream_and_buffer calls_accept client_accept calls_rel
    "\<lambda>_ p. buffer_view (snd p)"
proof unfold_locales
  fix m p e m' es p'
  assume 1: "calls_rel m p" "calls_accept m e = Some m'" "stream_and_buffer e p = (es, p')"
  obtain s a where p: "p = (s, a)" by fastforce
  from sb_step [of m s a e m'] 1
  show "run_acc client_accept (buffer_view (snd p)) es = Some (buffer_view (snd p'))" and "calls_rel m' p'"
    by (auto simp: p sb_ok_def stream_and_buffer_def split: prod.splits)
qed

lemma calls_initial:
  "fst (NewResponsesEventToChatState now g) = s \<Longrightarrow> calls_rel Map.empty (s, NewBufferedResponseAccumulator)"
  by (auto simp: NewResponsesEventToChatState_def calls_rel_def NewBufferedResponseAccumulator_def Let_def
      split: prod.splits)

lemma stream_and_buffer_run:
  "run_conv stream_and_buffer es (s, a) =
     (fst (run_conv ResponsesEventToChatChunks es s), snd (run_conv ResponsesEventToChatChunks es s), fold ProcessEvent es a)"
  by (induction es arbitrary: s a) (auto simp: stream_and_buffer_def Let_def split: prod.splits)

section \<open>Finish chunks\<close>

definition finish_count :: "ChatCompletionsChunk list \<Rightarrow> nat" where
  "finish_count cs = length (filter (\<lambda>c. \<exists>ch\<in>set (cck_Choices c). ccc_FinishReason ch \<noteq> None) cs)"

lemma finish_count_simps [simp]:
  "finish_count [] = 0" "finish_count (xs @ ys) = finish_count xs + finish_count ys"
  "finish_count [makeChatDeltaChunk s d] = 0" "finish_count (finish_chunks s r) = 1"
  "finish_count [args_chunk s i t] = 0"
  by (simp_all add: finish_count_def makeChatDeltaChunk_def finish_chunks_def makeChatFinishChunk_def chat_chunk_def
      args_chunk_def)

lemma finish_step:
  "finish_count (fst (ResponsesEventToChatChunks e s)) = (if is_terminal_type (rse_Type e) then 1 else 0)"
  "rc_Finalized (snd (ResponsesEventToChatChunks e s)) = (rc_Finalized s \<or> is_terminal_type (rse_Type e))"
  by (auto simp: ResponsesEventToChatChunks_def is_terminal_type_def resToChatHandleCreated_def
      resToChatHandleTextDelta_def resToChatHandleRefusalDelta_def resToChatHandleOutputItemAdded_def
      resToChatHandleFuncArgsDelta_def resToChatHandleFuncArgsDone_def resToChatHandleReasoningDelta_def
      resToChatHandleCompleted_def Let_def split: option.splits)

lemma finish_run:
  "finish_count (fst (run_conv ResponsesEventToChatChunks es s)) = length (filter (\<lambda>e. is_terminal_type (rse_Type e)) es)
   \<and> rc_Finalized (snd (run_conv ResponsesEventToChatChunks es s))
       = (rc_Finalized s \<or> list_ex (\<lambda>e. is_terminal_type (rse_Type e)) es)"
proof (induction es arbitrary: s)
  case (Cons e es)
  obtain c1 s1 where r1: "ResponsesEventToChatChunks e s = (c1, s1)" by fastforce
  obtain c2 s2 where r2: "run_conv ResponsesEventToChatChunks es s1 = (c2, s2)" by fastforce
  from Cons [of s1] finish_step [of e s] show ?case by (simp add: r1 r2)
qed simp

section \<open>The accumulator only fills gaps\<close>

lemma TrimSpace_nonempty: "TrimSpace t \<noteq> [] \<Longrightarrow> t \<noteq> []"
  by auto

lemma fill_parts_text:
  "fill_parts ps t = Some qs \<Longrightarrow> TrimSpace t \<noteq> [] \<Longrightarrow>
   list_ex (\<lambda>p. rcp_Type p = ''output_text'' \<and> TrimSpace (rcp_Text p) \<noteq> []) qs"
  by (induction ps arbitrary: qs) (auto split: if_splits)

lemma fill_text:
  assumes "fillResponsesOutputText is t = (is', ok)" "TrimSpace t \<noteq> []"
  shows "ok = list_ex (\<lambda>i. ro_Type i = ''message'') is \<and> (ok \<longrightarrow> responsesOutputHasText is') \<and> length is' = length is"
  using assms
  by (induction "is" t arbitrary: is' ok rule: fillResponsesOutputText.induct)
     (auto simp: responsesOutputHasText_def text_part_def split: if_splits prod.splits option.splits dest: fill_parts_text)

lemma fill_all_args_nth:
  "i < length items \<Longrightarrow> fill_all_args calls k items ! i = fill_args calls (k + int i) (items ! i)"
  by (induction calls k items arbitrary: i rule: fill_all_args.induct) (auto simp: nth_Cons' algebra_simps of_nat_diff)

lemma length_fill_all_args [simp]: "length (fill_all_args calls k items) = length items"
  by (induction calls k items rule: fill_all_args.induct) auto

lemma fill_args_text [simp]:
  "ro_Type (fill_args calls k i) = ro_Type i" "ro_Content (fill_args calls k i) = ro_Content i"
  by (auto simp: fill_args_def split: option.splits)

lemma has_text_fill_all_args [simp]: "responsesOutputHasText (fill_all_args calls k items) = responsesOutputHasText items"
  by (induction calls k items rule: fill_all_args.induct) (simp_all add: responsesOutputHasText_def)

lemma supplement_has_text:
  assumes "TrimSpace (bra_text a) \<noteq> []" "SupplementResponseOutput a (Some r) = Some r'"
  shows "responsesOutputHasText (rr_Output r')"
proof -
  have t: "bra_text a \<noteq> []" using assms(1) by auto
  show ?thesis
  proof (cases "rr_Output r = []")
    case True
    with assms t show ?thesis
      by (auto simp: SupplementResponseOutput_def HasContent_def BuildOutput_def responsesOutputHasText_def text_part_def)
  next
    case False
    obtain is' ok where f: "fillResponsesOutputText (rr_Output r) (bra_text a) = (is', ok)" by fastforce
    from fill_text [OF f assms(1)] False assms(2) t f show ?thesis
      by (auto simp: SupplementResponseOutput_def Let_def split: if_splits)
         (auto simp: responsesOutputHasText_def text_part_def assms(1))
  qed
qed

lemma supplement_keeps_text:
  assumes "responsesOutputHasText (rr_Output r)" "SupplementResponseOutput a (Some r) = Some r'"
  shows "rr_Output r' = fill_all_args (bra_funcCalls a) 0 (rr_Output r)"
  using assms by (auto simp: SupplementResponseOutput_def Let_def responsesOutputHasText_def split: if_splits)

lemma rc_finalize_twice:
  "FinalizeResponsesChatStream (snd (FinalizeResponsesChatStream s)) = ([], snd (FinalizeResponsesChatStream s))"
  by (auto simp: FinalizeResponsesChatStream_def Let_def)

end
