(* ===== verification/ChatContent.thy ===== *)
theory ChatContent
  imports ToolNames
begin

text \<open>
  The text of a Chat Completions message (\<open>chatMessageContentText\<close> in
  \<open>chatcompletions_responses_bridge.go\<close>), whose \<open>content\<close> is a JSON string or an array of
  content parts.  The array is decoded as \<open>json.Unmarshal\<close> decodes it into
  \<open>[]ChatContentPart\<close>: field names match up to case folding, null leaves a field as it
  is, and a value of the wrong type anywhere is an error.
\<close>

text \<open>Unicode simple folding, on the code points that fold to ASCII letters.\<close>

fun fold_name :: "string \<Rightarrow> string" where
  "fold_name [] = []"
| "fold_name (c # cs) =
     (if 65 \<le> byte c \<and> byte c \<le> 90 then mkbyte (byte c + 32) # fold_name cs
      else if byte c = 197 \<and> (case cs of [] \<Rightarrow> False | d # _ \<Rightarrow> byte d = 191)
      then CHR ''s'' # fold_name (drop 1 cs)
      else if byte c = 226 \<and> (case cs of d # e # _ \<Rightarrow> byte d = 132 \<and> byte e = 170 | _ \<Rightarrow> False)
      then CHR ''k'' # fold_name (drop 2 cs)
      else c # fold_name cs)"

definition key_is :: "string \<Rightarrow> string \<Rightarrow> bool" where
  "key_is raw name \<longleftrightarrow> fold_name (unquote raw) = name"

definition string_ok :: "json \<Rightarrow> bool" where
  "string_ok v \<longleftrightarrow> decode_string v \<noteq> None"

definition strings_struct_ok :: "string list \<Rightarrow> json \<Rightarrow> bool" where
  \<comment> \<open>a pointer to a struct whose fields, named so, are all strings\<close>
  "strings_struct_ok names v \<longleftrightarrow> (case v of JNull \<Rightarrow> True
     | JObj kvs \<Rightarrow> list_all (\<lambda>(k, w). fold_name (unquote k) \<in> set names \<longrightarrow> string_ok w) kvs
     | _ \<Rightarrow> False)"

definition part_field_ok :: "string \<times> json \<Rightarrow> bool" where
  "part_field_ok kv = (case kv of (k, v) \<Rightarrow>
     (key_is k ''type'' \<or> key_is k ''text'' \<longrightarrow> string_ok v)
     \<and> (key_is k ''image_url'' \<longrightarrow> strings_struct_ok [''url'', ''detail''] v)
     \<and> (key_is k ''file'' \<longrightarrow> strings_struct_ok [''filename'', ''file_data'', ''file_id''] v))"

definition set_string :: "json \<Rightarrow> string \<Rightarrow> string" where
  \<comment> \<open>decode into a string that holds a value; null leaves it alone\<close>
  "set_string v old = (case v of JStr b \<Rightarrow> unquote b | _ \<Rightarrow> old)"

definition set_part_field :: "string \<times> json \<Rightarrow> string \<times> string \<Rightarrow> string \<times> string" where
  "set_part_field kv p = (case (kv, p) of ((k, v), (typ, txt)) \<Rightarrow>
     if key_is k ''type'' then (set_string v typ, txt)
     else if key_is k ''text'' then (typ, set_string v txt)
     else (typ, txt))"

text \<open>The \<open>Type\<close> and \<open>Text\<close> of a decoded part, the fields the function reads.\<close>

definition decode_chat_part :: "json \<Rightarrow> (string \<times> string) option" where
  "decode_chat_part v = (case v of JNull \<Rightarrow> Some ([], [])
     | JObj kvs \<Rightarrow> if list_all part_field_ok kvs then Some (fold set_part_field kvs ([], [])) else None
     | _ \<Rightarrow> None)"

definition decode_chat_parts :: "string \<Rightarrow> (string \<times> string) list option" where
  "decode_chat_parts raw = (case parse_json raw of
     Some (JArr vs) \<Rightarrow> those (map decode_chat_part vs) | Some JNull \<Rightarrow> Some [] | _ \<Rightarrow> None)"

definition chatMessageContentText :: "string \<Rightarrow> string" where
  "chatMessageContentText raw0 =
     (let raw = TrimSpace raw0 in
      if raw = [] \<or> raw = ''null'' then []
      else case Unmarshal_string raw of
        Some t \<Rightarrow> t
      | None \<Rightarrow>
          (case decode_chat_parts raw of
             None \<Rightarrow> []
           | Some parts \<Rightarrow>
               Join (map snd (filter (\<lambda>p. fst p = ''text'' \<and> snd p \<noteq> []) parts)) [mkbyte 10, mkbyte 10]))"

end
