(* ===== verification/ChatToAnthropic.thy ===== *)
theory ChatToAnthropic
  imports ResponsesToAnthropic AnthropicToResponses ChatContent
begin

text \<open>
  \<open>chatcompletions_anthropic_bridge.go\<close>, response side: Chat Completions answers, whole or
  streamed, as Anthropic Messages without a Responses detour.  The stream converter's state
  is \<open>ca_state\<close> (\<open>ChatCompletionsToAnthropicStreamState\<close>) with the entropy source as a
  last field.  \<open>pendingToolCallID\<close>, whose keys the finaliser sorts and visits, is an
  association list; the other Go maps are functions.
\<close>

section \<open>Whole responses\<close>

definition chatUsageToAnthropicUsage :: "ChatUsage option \<Rightarrow> AnthropicUsage" where
  "chatUsageToAnthropicUsage usage =
     (case usage of None \<Rightarrow> zeroAnthropicUsage
      | Some u \<Rightarrow>
        (let (cachedTokens, cacheCreationTokens) =
               (case cu_PromptTokensDetails u of None \<Rightarrow> (0, 0)
                | Some d \<Rightarrow> (ctd_CachedTokens d,
                    if ctd_CacheWriteTokens d > 0 then ctd_CacheWriteTokens d else ctd_CacheCreationTokens d));
             input0 = isub (isub (cu_PromptTokens u) cachedTokens) cacheCreationTokens
         in zeroAnthropicUsage\<lparr>au_InputTokens := (if input0 < 0 then 0 else input0),
              au_OutputTokens := cu_CompletionTokens u,
              au_CacheReadInputTokens := cachedTokens,
              au_CacheCreationInputTokens := cacheCreationTokens\<rparr>))"

definition chatFinishReasonToAnthropicStopReason :: "string \<Rightarrow> AnthropicContentBlock list \<Rightarrow> string" where
  "chatFinishReasonToAnthropicStopReason reason blocks =
     (if reason = ''length'' then ''max_tokens''
      else if reason = ''tool_calls'' then ''tool_use''
      else if containsAnthropicToolUseBlock blocks then ''tool_use'' else ''end_turn'')"

definition chatMessageToAnthropicBlocks :: "ChatMessage \<Rightarrow> AnthropicContentBlock list" where
  "chatMessageToAnthropicBlocks message =
     (let reasoning = message_reasoningText message;
          text0 = chatMessageContentText (cm_Content message);
          text = (if text0 = [] \<and> TrimSpace reasoning \<noteq> [] \<and> cm_ToolCalls message = [] then reasoning else text0)
      in (if reasoning \<noteq> [] then [zeroBlock\<lparr>acb_Type := ''thinking'', acb_Thinking := reasoning\<rparr>] else [])
         @ (if text \<noteq> [] \<or> cm_ToolCalls message = [] then [zeroBlock\<lparr>acb_Type := ''text'', acb_Text := text\<rparr>] else [])
         @ map (\<lambda>toolCall. zeroBlock\<lparr>acb_Type := ''tool_use'', acb_ID := fromResponsesCallID (ctc_ID toolCall),
                  acb_Name := cfc_Name (ctc_Function toolCall),
                  acb_Input := sanitizeAnthropicToolUseInput (cfc_Name (ctc_Function toolCall))
                    (args_or_empty_object (cfc_Arguments (ctc_Function toolCall)))\<rparr>)
               (cm_ToolCalls message))"

definition ChatCompletionsResponseToAnthropic ::
  "ChatCompletionsResponse option \<Rightarrow> string \<Rightarrow> rng \<Rightarrow> AnthropicResponse \<times> rng" where
  "ChatCompletionsResponseToAnthropic resp model g =
     (let out0 = zeroAnthropicResponse\<lparr>ar_Type := ''message'', ar_Role := ''assistant'', ar_Model := model\<rparr>;
          out1 = (case resp of None \<Rightarrow> out0
            | Some r \<Rightarrow>
              (let o1 = out0\<lparr>ar_ID := ccr_ID r, ar_Model := (if model = [] then ccr_Model r else model)\<rparr>;
                   o2 = (case ccr_Choices r of [] \<Rightarrow> o1
                     | choice # _ \<Rightarrow>
                       (let content = chatMessageToAnthropicBlocks (cc_Message choice) in
                        o1\<lparr>ar_Content := content, ar_StopReason := AnthropicStopReasonPtr
                             (chatFinishReasonToAnthropicStopReason (cc_FinishReason choice) content)\<rparr>))
               in if ccr_Usage r \<noteq> None then o2\<lparr>ar_Usage := chatUsageToAnthropicUsage (ccr_Usage r)\<rparr> else o2));
          out2 = (if ar_Content out1 = [] then out1\<lparr>ar_Content := [zeroBlock\<lparr>acb_Type := ''text''\<rparr>]\<rparr> else out1);
          out3 = (if AnthropicStopReasonString (ar_StopReason out2) = [] then
              out2\<lparr>ar_StopReason := AnthropicStopReasonPtr (chatFinishReasonToAnthropicStopReason [] (ar_Content out2))\<rparr>
            else out2)
      in if ar_ID out3 = [] then (let (i, g') = generateResponsesID g in (out3\<lparr>ar_ID := i\<rparr>, g')) else (out3, g))"

section \<open>The stream converter's state\<close>

record ca_state =
  ca_MessageStartSent :: bool
  ca_MessageStopSent :: bool
  ca_ContentBlockIndex :: int
  ca_ContentBlockOpen :: bool
  ca_CurrentBlockType :: string
  ca_CurrentToolName :: string
  ca_CurrentToolHadDelta :: bool
  ca_HasToolCall :: bool
  ca_toolBlockIndex :: "int \<rightharpoonup> int"
  ca_toolAnnounced :: "int \<rightharpoonup> bool"
  ca_toolName :: "int \<rightharpoonup> string"
  ca_pendingToolCallID :: "(int \<times> string) list"
  ca_pendingToolArgs :: "int \<rightharpoonup> string"
  ca_FinishReason :: string
  ca_InputTokens :: int
  ca_OutputTokens :: int
  ca_CacheReadInputTokens :: int
  ca_CacheCreationInputTokens :: int
  ca_ResponseID :: string
  ca_Model :: string
  ca_Created :: int
  ca_rand :: rng

definition NewChatCompletionsToAnthropicStreamState :: "string \<Rightarrow> int \<Rightarrow> rng \<Rightarrow> ca_state" where
  "NewChatCompletionsToAnthropicStreamState model now g =
     (let (i, g') = generateResponsesID g in
      \<lparr>ca_MessageStartSent = False, ca_MessageStopSent = False, ca_ContentBlockIndex = 0,
       ca_ContentBlockOpen = False, ca_CurrentBlockType = [], ca_CurrentToolName = [],
       ca_CurrentToolHadDelta = False, ca_HasToolCall = False, ca_toolBlockIndex = Map.empty,
       ca_toolAnnounced = Map.empty, ca_toolName = Map.empty, ca_pendingToolCallID = [],
       ca_pendingToolArgs = Map.empty, ca_FinishReason = [], ca_InputTokens = 0, ca_OutputTokens = 0,
       ca_CacheReadInputTokens = 0, ca_CacheCreationInputTokens = 0, ca_ResponseID = i,
       ca_Model = model, ca_Created = now, ca_rand = g'\<rparr>)"

section \<open>The steps\<close>

definition ensureCCAnthropicMessageStart :: "ca_state \<Rightarrow> AnthropicStreamEvent list \<times> ca_state" where
  "ensureCCAnthropicMessageStart s =
     (if ca_MessageStartSent s then ([], s)
      else ([message_start (ca_ResponseID s) (ca_Model s)], s\<lparr>ca_MessageStartSent := True\<rparr>))"

definition closeCCAnthropicBlock :: "ca_state \<Rightarrow> AnthropicStreamEvent list \<times> ca_state" where
  "closeCCAnthropicBlock s =
     (if \<not> ca_ContentBlockOpen s then ([], s)
      else
        (let idx = ca_ContentBlockIndex s;
             events = (if ca_CurrentBlockType s = ''tool_use'' \<and> \<not> ca_CurrentToolHadDelta s
                       then [json_args_delta idx ''{}''] else [])
         in (events @ [block_stop idx],
             s\<lparr>ca_ContentBlockOpen := False, ca_ContentBlockIndex := idx + 1, ca_CurrentBlockType := [],
               ca_CurrentToolName := [], ca_CurrentToolHadDelta := False\<rparr>)))"

definition closeCCAnthropicBlockIfOpen :: "string \<Rightarrow> ca_state \<Rightarrow> AnthropicStreamEvent list \<times> ca_state" where
  "closeCCAnthropicBlockIfOpen blockType s =
     (if \<not> ca_ContentBlockOpen s \<or> ca_CurrentBlockType s \<noteq> blockType then ([], s) else closeCCAnthropicBlock s)"

definition ensureCCAnthropicThinkingBlock :: "ca_state \<Rightarrow> AnthropicStreamEvent list \<times> ca_state" where
  "ensureCCAnthropicThinkingBlock s =
     (if ca_ContentBlockOpen s \<and> ca_CurrentBlockType s = ''thinking'' then ([], s)
      else (let (events, s1) = closeCCAnthropicBlock s in
            (events @ [block_start (ca_ContentBlockIndex s1) (zeroBlock\<lparr>acb_Type := ''thinking''\<rparr>)],
             s1\<lparr>ca_ContentBlockOpen := True, ca_CurrentBlockType := ''thinking''\<rparr>)))"

definition ensureCCAnthropicTextBlock :: "ca_state \<Rightarrow> AnthropicStreamEvent list \<times> ca_state" where
  "ensureCCAnthropicTextBlock s =
     (if ca_ContentBlockOpen s \<and> ca_CurrentBlockType s = ''text'' then ([], s)
      else (let (events, s1) = closeCCAnthropicBlock s in
            (events @ [block_start (ca_ContentBlockIndex s1) (zeroBlock\<lparr>acb_Type := ''text''\<rparr>)],
             s1\<lparr>ca_ContentBlockOpen := True, ca_CurrentBlockType := ''text''\<rparr>)))"

definition ccAnthropicDelta :: "AnthropicDelta \<Rightarrow> ca_state \<Rightarrow> AnthropicStreamEvent list" where
  "ccAnthropicDelta delta s =
     (if \<not> ca_ContentBlockOpen s then [] else [block_delta (ca_ContentBlockIndex s) delta])"

definition announceCCAnthropicToolBlock ::
  "int \<Rightarrow> string \<Rightarrow> string \<Rightarrow> ca_state \<Rightarrow> AnthropicStreamEvent list \<times> ca_state" where
  "announceCCAnthropicToolBlock idx callID name s =
     (let blockIdx = ca_ContentBlockIndex s;
          s1 = s\<lparr>ca_toolBlockIndex := (ca_toolBlockIndex s)(idx \<mapsto> blockIdx),
                 ca_toolAnnounced := (ca_toolAnnounced s)(idx \<mapsto> True),
                 ca_toolName := (ca_toolName s)(idx \<mapsto> name), ca_CurrentToolName := name,
                 ca_CurrentToolHadDelta := False, ca_ContentBlockOpen := True,
                 ca_CurrentBlockType := ''tool_use'',
                 ca_pendingToolCallID := AList.delete idx (ca_pendingToolCallID s)\<rparr>;
          start = block_start blockIdx (zeroBlock\<lparr>acb_Type := ''tool_use'', acb_ID := fromResponsesCallID callID,
                    acb_Name := name, acb_Input := ''{}''\<rparr>);
          pending = get_or (ca_pendingToolArgs s1) [] idx
      in if pending \<noteq> [] then
           ([start, json_args_delta blockIdx pending],
            s1\<lparr>ca_pendingToolArgs := (ca_pendingToolArgs s1)(idx := None), ca_CurrentToolHadDelta := True\<rparr>)
         else ([start], s1))"

definition ca_call_id :: "string \<Rightarrow> ca_state \<Rightarrow> string \<times> ca_state" where
  \<comment> \<open>\<open>if callID == "" { callID = generateItemID() }\<close>\<close>
  "ca_call_id i s = (if i = [] then (let (j, g) = generateItemID (ca_rand s) in (j, s\<lparr>ca_rand := g\<rparr>)) else (i, s))"

definition announce_part :: "int \<Rightarrow> ChatToolCall \<Rightarrow> ca_state \<Rightarrow> AnthropicStreamEvent list \<times> ca_state" where
  \<comment> \<open>the first half of \<open>handleCCAnthropicToolCall\<close>\<close>
  "announce_part idx toolCall s =
     (let name = cfc_Name (ctc_Function toolCall) in
      case ca_toolAnnounced s idx of
        None \<Rightarrow>
          (let (e1, s1) = closeCCAnthropicBlock s;
               (callID, s2) = ca_call_id (ctc_ID toolCall) (s1\<lparr>ca_HasToolCall := True\<rparr>)
           in if name \<noteq> [] then
                (let (e2, s3) = announceCCAnthropicToolBlock idx callID name s2 in (e1 @ e2, s3))
              else (e1, s2\<lparr>ca_toolAnnounced := (ca_toolAnnounced s2)(idx \<mapsto> False),
                           ca_pendingToolCallID := AList.update idx callID (ca_pendingToolCallID s2)\<rparr>))
      | Some announced \<Rightarrow>
          if \<not> announced \<and> name \<noteq> [] then
            (let callID = (if ctc_ID toolCall \<noteq> [] then ctc_ID toolCall
                           else get_or (map_of (ca_pendingToolCallID s)) [] idx);
                 (e1, s1) = closeCCAnthropicBlock s;
                 (e2, s2) = announceCCAnthropicToolBlock idx callID name s1
             in (e1 @ e2, s2))
          else ([], s))"

definition args_part :: "int \<Rightarrow> string \<Rightarrow> ca_state \<Rightarrow> AnthropicStreamEvent list \<times> ca_state" where
  \<comment> \<open>the second half: the argument fragment\<close>
  "args_part idx arguments s =
     (if arguments = [] then ([], s)
      else if get_or (ca_toolAnnounced s) False idx then
        (let blockIdx = get_or (ca_toolBlockIndex s) 0 idx;
             s1 = (if ca_ContentBlockOpen s \<and> blockIdx = ca_ContentBlockIndex s
                   then s\<lparr>ca_CurrentToolHadDelta := True\<rparr> else s)
         in ([json_args_delta blockIdx arguments], s1))
      else ([], s\<lparr>ca_pendingToolArgs := (ca_pendingToolArgs s)(idx \<mapsto> get_or (ca_pendingToolArgs s) [] idx @ arguments)\<rparr>))"

definition handleCCAnthropicToolCall :: "ChatToolCall \<Rightarrow> ca_state \<Rightarrow> AnthropicStreamEvent list \<times> ca_state" where
  "handleCCAnthropicToolCall toolCall s =
     (let idx = (case ctc_Index toolCall of None \<Rightarrow> 0 | Some i \<Rightarrow> i);
          (e1, s1) = announce_part idx toolCall s;
          (e2, s2) = args_part idx (cfc_Arguments (ctc_Function toolCall)) s1
      in (e1 @ e2, s2))"

definition reasoning_part :: "ChatDelta \<Rightarrow> ca_state \<Rightarrow> AnthropicStreamEvent list \<times> ca_state" where
  "reasoning_part d s =
     (case delta_reasoningText d of None \<Rightarrow> ([], s)
      | Some reasoning \<Rightarrow>
        if reasoning = [] then ([], s)
        else (let (e1, s1) = ensureCCAnthropicThinkingBlock s in
              (e1 @ ccAnthropicDelta (zeroDelta\<lparr>ad_Type := ''thinking_delta'', ad_Thinking := reasoning\<rparr>) s1, s1)))"

definition content_part :: "ChatDelta \<Rightarrow> ca_state \<Rightarrow> AnthropicStreamEvent list \<times> ca_state" where
  "content_part d s =
     (case cd_Content d of None \<Rightarrow> ([], s)
      | Some content \<Rightarrow>
        if content = [] then ([], s)
        else (let (e1, s1) = closeCCAnthropicBlockIfOpen ''thinking'' s;
                  (e2, s2) = ensureCCAnthropicTextBlock s1
              in (e1 @ e2 @ ccAnthropicDelta (zeroDelta\<lparr>ad_Type := ''text_delta'', ad_Text := content\<rparr>) s2, s2)))"

definition tool_step :: "ChatToolCall \<Rightarrow> ca_state \<Rightarrow> AnthropicStreamEvent list \<times> ca_state" where
  \<comment> \<open>the body of the loop over \<open>choice.Delta.ToolCalls\<close>\<close>
  "tool_step toolCall s =
     (let (e1, s1) = closeCCAnthropicBlockIfOpen ''thinking'' s;
          (e2, s2) = handleCCAnthropicToolCall toolCall s1
      in (e1 @ e2, s2))"

definition choice_step :: "ChatChunkChoice \<Rightarrow> ca_state \<Rightarrow> AnthropicStreamEvent list \<times> ca_state" where
  \<comment> \<open>the body of the loop over \<open>chunk.Choices\<close>\<close>
  "choice_step choice s =
     (let d = ccc_Delta choice;
          (e1, s1) = reasoning_part d s;
          (e2, s2) = content_part d s1;
          (e3, s3) = run_conv tool_step (cd_ToolCalls d) s2;
          s4 = (case ccc_FinishReason choice of None \<Rightarrow> s3
            | Some r \<Rightarrow> if r \<noteq> [] then s3\<lparr>ca_FinishReason := r\<rparr> else s3)
      in (e1 @ e2 @ e3, s4))"

definition chunk_header :: "ChatCompletionsChunk \<Rightarrow> ca_state \<Rightarrow> ca_state" where
  \<comment> \<open>the chunk's ID, model and usage\<close>
  "chunk_header chunk s =
     (let s1 = (if cck_ID chunk \<noteq> [] then s\<lparr>ca_ResponseID := cck_ID chunk\<rparr> else s);
          s2 = (if ca_Model s1 = [] \<and> cck_Model chunk \<noteq> [] then s1\<lparr>ca_Model := cck_Model chunk\<rparr> else s1)
      in if cck_Usage chunk = None then s2
         else (let u = chatUsageToAnthropicUsage (cck_Usage chunk) in
               s2\<lparr>ca_InputTokens := au_InputTokens u, ca_OutputTokens := au_OutputTokens u,
                  ca_CacheReadInputTokens := au_CacheReadInputTokens u,
                  ca_CacheCreationInputTokens := au_CacheCreationInputTokens u\<rparr>))"

definition chunk_step :: "ChatCompletionsChunk \<Rightarrow> ca_state \<Rightarrow> AnthropicStreamEvent list \<times> ca_state" where
  \<comment> \<open>\<open>ChatCompletionsChunkToAnthropicEvents\<close> after its nil checks\<close>
  "chunk_step chunk s =
     (let (e1, s1) = ensureCCAnthropicMessageStart (chunk_header chunk s);
          (e2, s2) = run_conv choice_step (cck_Choices chunk) s1
      in (e1 @ e2, s2))"

definition ChatCompletionsChunkToAnthropicEvents ::
  "ChatCompletionsChunk option \<Rightarrow> ca_state option \<Rightarrow> AnthropicStreamEvent list \<times> ca_state option" where
  "ChatCompletionsChunkToAnthropicEvents chunk state =
     (case (chunk, state) of
        (Some c, Some s) \<Rightarrow> (case chunk_step c s of (es, s') \<Rightarrow> (es, Some s'))
      | _ \<Rightarrow> ([], state))"

definition ccFinishReasonToAnthropicStopReason :: "string \<Rightarrow> bool \<Rightarrow> string" where
  "ccFinishReasonToAnthropicStopReason reason hasToolCall =
     (if reason = ''length'' then ''max_tokens''
      else if reason = ''tool_calls'' then ''tool_use''
      else if hasToolCall then ''tool_use'' else ''end_turn'')"

definition pending_step :: "int \<Rightarrow> ca_state \<Rightarrow> AnthropicStreamEvent list \<times> ca_state" where
  \<comment> \<open>the body of the finaliser's loop over the sorted pending indices\<close>
  "pending_step idx s =
     (let callID = get_or (map_of (ca_pendingToolCallID s)) [] idx;
          (e1, s1) = closeCCAnthropicBlock s;
          (e2, s2) = announceCCAnthropicToolBlock idx callID [] s1
      in (e1 @ e2, s2))"

definition ca_usage :: "ca_state \<Rightarrow> AnthropicUsage" where
  "ca_usage s = zeroAnthropicUsage\<lparr>au_InputTokens := ca_InputTokens s, au_OutputTokens := ca_OutputTokens s,
     au_CacheReadInputTokens := ca_CacheReadInputTokens s,
     au_CacheCreationInputTokens := ca_CacheCreationInputTokens s\<rparr>"

definition finalize_step :: "ca_state \<Rightarrow> AnthropicStreamEvent list \<times> ca_state" where
  \<comment> \<open>\<open>FinalizeChatCompletionsAnthropicStream\<close> on a non-nil state\<close>
  "finalize_step s =
     (if ca_MessageStopSent s then ([], s)
      else
        (let (e1, s1) = ensureCCAnthropicMessageStart s;
             (e2, s2) = run_conv pending_step (sort (map fst (ca_pendingToolCallID s1))) s1;
             (e3, s3) = closeCCAnthropicBlock s2;
             stopReason = ccFinishReasonToAnthropicStopReason (ca_FinishReason s3) (ca_HasToolCall s3)
         in (e1 @ e2 @ e3 @ message_end stopReason (ca_usage s3), s3\<lparr>ca_MessageStopSent := True\<rparr>)))"

definition FinalizeChatCompletionsAnthropicStream ::
  "ca_state option \<Rightarrow> AnthropicStreamEvent list \<times> ca_state option" where
  "FinalizeChatCompletionsAnthropicStream state =
     (case state of None \<Rightarrow> ([], None)
      | Some s \<Rightarrow> (case finalize_step s of (es, s') \<Rightarrow> (es, Some s')))"

end
