(* ===== verification/ChatToAnthropicCorrect.thy ===== *)
theory ChatToAnthropicCorrect
  imports ChatToAnthropic ResponsesToAnthropicCorrect
begin

text \<open>
  Correctness of the direct Chat Completions to Anthropic stream converter: block nesting
  for every chunk sequence, and the full Messages protocol when the upstream finishes one
  tool call's arguments before the next call starts.
\<close>

section \<open>Acceptors of content blocks\<close>

text \<open>
  \<open>block_stream\<close>: what the converter needs of an acceptor, whose state between
  \<open>message_start\<close> and \<open>message_delta\<close> is given by the next block index and the type of the
  open block.  Both the nesting contract and the full Messages protocol provide it.
\<close>

locale block_stream =
  fixes acc :: "'v \<Rightarrow> AnthropicStreamEvent \<Rightarrow> 'v option"
    and V :: "int \<Rightarrow> string option \<Rightarrow> 'v"
  assumes acc_start: "0 \<le> i \<Longrightarrow> acc (V i None) (block_start i b) = Some (V i (Some (acb_Type b)))"
    and acc_stop: "0 \<le> i \<Longrightarrow> acc (V i (Some t)) (block_stop i) = Some (V (i + 1) None)"
    and acc_delta: "0 \<le> i \<Longrightarrow> delta_fits t (ad_Type d) \<Longrightarrow> acc (V i (Some t)) (block_delta i d) = Some (V i (Some t))"

definition ca_pos :: "(int \<Rightarrow> string option \<Rightarrow> 'v) \<Rightarrow> ca_state \<Rightarrow> 'v" where
  "ca_pos V s = V (ca_ContentBlockIndex s) (if ca_ContentBlockOpen s then Some (ca_CurrentBlockType s) else None)"

definition ca_runs :: "('v \<Rightarrow> AnthropicStreamEvent \<Rightarrow> 'v option) \<Rightarrow> (int \<Rightarrow> string option \<Rightarrow> 'v)
    \<Rightarrow> ca_state \<Rightarrow> AnthropicStreamEvent list \<times> ca_state \<Rightarrow> bool" where
  "ca_runs acc V s r \<longleftrightarrow> (0 \<le> ca_ContentBlockIndex s \<longrightarrow>
     run_acc acc (ca_pos V s) (fst r) = Some (ca_pos V (snd r)) \<and> 0 \<le> ca_ContentBlockIndex (snd r))"

lemma ca_runs_append: "ca_runs acc V s (e1, s1) \<Longrightarrow> ca_runs acc V s1 (e2, s2) \<Longrightarrow> ca_runs acc V s (e1 @ e2, s2)"
  by (auto simp: ca_runs_def)

lemma ca_runs_Nil: "ca_pos V s' = ca_pos V s \<Longrightarrow> ca_ContentBlockIndex s' = ca_ContentBlockIndex s \<Longrightarrow> ca_runs acc V s ([], s')"
  by (simp add: ca_runs_def)

lemma cc_closed: "closeCCAnthropicBlock s = (es, s') \<Longrightarrow> \<not> ca_ContentBlockOpen s'"
  by (auto simp: closeCCAnthropicBlock_def Let_def split: if_splits)

lemma ca_pos_maps [simp]:
  "ca_pos V (s\<lparr>ca_toolAnnounced := m, ca_pendingToolCallID := p\<rparr>) = ca_pos V s"
  "ca_pos V (s\<lparr>ca_CurrentToolHadDelta := b\<rparr>) = ca_pos V s"
  "ca_pos V (s\<lparr>ca_pendingToolArgs := q\<rparr>) = ca_pos V s"
  by (simp_all add: ca_pos_def)

definition call_index :: "ChatToolCall \<Rightarrow> int" where
  "call_index t = (case ctc_Index t of None \<Rightarrow> 0 | Some i \<Rightarrow> i)"

context block_stream
begin

lemma close_runs: "ca_runs acc V s (closeCCAnthropicBlock s)"
  by (auto simp: ca_runs_def ca_pos_def closeCCAnthropicBlock_def Let_def acc_stop json_args_delta_def acc_delta delta_fits_def)

lemma close_if_runs: "ca_runs acc V s (closeCCAnthropicBlockIfOpen t s)"
  by (simp add: closeCCAnthropicBlockIfOpen_def close_runs ca_runs_Nil)

lemma close_then_runs:
  assumes "closeCCAnthropicBlock s = (e1, s1)" and "\<not> ca_ContentBlockOpen s1 \<Longrightarrow> ca_runs acc V s1 (e2, s2)"
  shows "ca_runs acc V s (e1 @ e2, s2)"
  using ca_runs_append [of acc V s e1 s1 e2 s2] close_runs [of s] assms cc_closed [of s e1 s1] by simp

lemma thinking_runs: "ca_runs acc V s (ensureCCAnthropicThinkingBlock s)"
proof -
  obtain e1 s1 where c: "closeCCAnthropicBlock s = (e1, s1)" by fastforce
  show ?thesis
    by (auto simp: ensureCCAnthropicThinkingBlock_def c ca_runs_Nil intro!: close_then_runs [OF c])
       (auto simp: ca_runs_def ca_pos_def acc_start)
qed

lemma text_runs: "ca_runs acc V s (ensureCCAnthropicTextBlock s)"
proof -
  obtain e1 s1 where c: "closeCCAnthropicBlock s = (e1, s1)" by fastforce
  show ?thesis
    by (auto simp: ensureCCAnthropicTextBlock_def c ca_runs_Nil intro!: close_then_runs [OF c])
       (auto simp: ca_runs_def ca_pos_def acc_start)
qed

lemma delta_runs:
  "ca_ContentBlockOpen s \<Longrightarrow> delta_fits (ca_CurrentBlockType s) (ad_Type d) \<Longrightarrow> ca_runs acc V s (ccAnthropicDelta d s, s)"
  by (simp add: ca_runs_def ca_pos_def ccAnthropicDelta_def acc_delta)

lemma announce_runs:
  assumes "\<not> ca_ContentBlockOpen s"
  shows "ca_runs acc V s (announceCCAnthropicToolBlock idx callID name s)"
  using assms
  by (simp add: announceCCAnthropicToolBlock_def Let_def ca_runs_def ca_pos_def acc_start json_args_delta_def
      acc_delta delta_fits_def)

lemma reasoning_runs: "ca_runs acc V s (reasoning_part d s)"
proof -
  obtain e1 s1 where 1: "ensureCCAnthropicThinkingBlock s = (e1, s1)" by fastforce
  then have "ca_ContentBlockOpen s1" "ca_CurrentBlockType s1 = ''thinking''"
    by (auto simp: ensureCCAnthropicThinkingBlock_def split: if_splits prod.splits)
  then have "ca_runs acc V s (e1 @ ccAnthropicDelta (zeroDelta\<lparr>ad_Type := ''thinking_delta'', ad_Thinking := r\<rparr>) s1, s1)" for r
    using thinking_runs [of s] 1 by (intro ca_runs_append [of _ _ _ _ s1] delta_runs) (simp_all add: delta_fits_def)
  with 1 show ?thesis by (simp add: reasoning_part_def ca_runs_Nil split: option.split)
qed

lemma content_runs: "ca_runs acc V s (content_part d s)"
proof -
  obtain e1 s1 where 1: "closeCCAnthropicBlockIfOpen ''thinking'' s = (e1, s1)" by fastforce
  obtain e2 s2 where 2: "ensureCCAnthropicTextBlock s1 = (e2, s2)" by fastforce
  then have o2: "ca_ContentBlockOpen s2" "ca_CurrentBlockType s2 = ''text''"
    by (auto simp: ensureCCAnthropicTextBlock_def split: if_splits prod.splits)
  have a: "ca_runs acc V s (e1, s1)" "ca_runs acc V s1 (e2, s2)"
    using close_if_runs [of s "''thinking''"] text_runs [of s1] 1 2 by simp_all
  have "ca_runs acc V s (e1 @ e2 @ ccAnthropicDelta (zeroDelta\<lparr>ad_Type := ''text_delta'', ad_Text := t\<rparr>) s2, s2)" for t
    by (rule ca_runs_append [OF a(1)], rule ca_runs_append [OF a(2)], rule delta_runs)
       (simp_all add: o2 delta_fits_def)
  with 1 2 show ?thesis by (simp add: content_part_def ca_runs_Nil split: option.split)
qed

lemma announce_part_runs: "ca_runs acc V s (announce_part idx toolCall s)"
proof -
  obtain e1 s1 where 1: "closeCCAnthropicBlock s = (e1, s1)" by fastforce
  obtain cid s2 where 2: "ca_call_id (ctc_ID toolCall) (s1\<lparr>ca_HasToolCall := True\<rparr>) = (cid, s2)" by fastforce
  have s2: "ca_pos V s2 = ca_pos V s1" "ca_ContentBlockIndex s2 = ca_ContentBlockIndex s1" "ca_ContentBlockOpen s2 = ca_ContentBlockOpen s1"
    using 2 by (auto simp: ca_call_id_def ca_pos_def Let_def split: if_splits prod.splits)
  have ann: "ca_runs acc V s (e1 @ e2, s4)"
    if "announceCCAnthropicToolBlock idx c n s3 = (e2, s4)" "ca_pos V s3 = ca_pos V s1"
      "ca_ContentBlockIndex s3 = ca_ContentBlockIndex s1"
      "ca_ContentBlockOpen s3 = ca_ContentBlockOpen s1" for s3 c n e2 s4
  proof (rule close_then_runs [OF 1])
    assume "\<not> ca_ContentBlockOpen s1"
    with announce_runs [of s3 idx c n] that show "ca_runs acc V s1 (e2, s4)" by (simp add: ca_runs_def)
  qed
  have e1: "ca_runs acc V s (e1, s3)" if "ca_pos V s3 = ca_pos V s1" "ca_ContentBlockIndex s3 = ca_ContentBlockIndex s1" for s3
    using close_runs [of s] 1 that by (simp add: ca_runs_def)
  show ?thesis
  proof (cases "ca_toolAnnounced s idx")
    case None
    obtain e2 s3 where 3: "announceCCAnthropicToolBlock idx cid (cfc_Name (ctc_Function toolCall)) s2 = (e2, s3)" by fastforce
    have "announce_part idx toolCall s = (if cfc_Name (ctc_Function toolCall) \<noteq> [] then (e1 @ e2, s3)
        else (e1, s2\<lparr>ca_toolAnnounced := (ca_toolAnnounced s2)(idx \<mapsto> False),
                     ca_pendingToolCallID := AList.update idx cid (ca_pendingToolCallID s2)\<rparr>))"
      by (simp only: announce_part_def Let_def None 1 2 3 option.case prod.case)
    with ann [OF 3] s2 e1 show ?thesis by simp
  next
    case (Some b)
    define cid' where "cid' = (if ctc_ID toolCall \<noteq> [] then ctc_ID toolCall else get_or (map_of (ca_pendingToolCallID s)) [] idx)"
    obtain e2 s3 where 3: "announceCCAnthropicToolBlock idx cid' (cfc_Name (ctc_Function toolCall)) s1 = (e2, s3)" by fastforce
    have "announce_part idx toolCall s = (if \<not> b \<and> cfc_Name (ctc_Function toolCall) \<noteq> [] then (e1 @ e2, s3) else ([], s))"
      by (simp only: announce_part_def Let_def Some 1 3 [unfolded cid'_def] option.case prod.case)
    with ann [OF 3] show ?thesis by (simp add: ca_runs_Nil)
  qed
qed

lemma args_runs:
  assumes "arguments \<noteq> [] \<Longrightarrow> get_or (ca_toolAnnounced s) False idx \<Longrightarrow>
      acc (ca_pos V s) (json_args_delta (get_or (ca_toolBlockIndex s) 0 idx) arguments) = Some (ca_pos V s)"
  shows "ca_runs acc V s (args_part idx arguments s)"
  using assms by (auto simp: args_part_def Let_def ca_runs_def)

lemma tool_runs:
  assumes "\<And>e0 s0 e1 s1. closeCCAnthropicBlockIfOpen ''thinking'' s = (e0, s0) \<Longrightarrow>
      announce_part (call_index t) t s0 = (e1, s1) \<Longrightarrow> cfc_Arguments (ctc_Function t) \<noteq> [] \<Longrightarrow>
      get_or (ca_toolAnnounced s1) False (call_index t) \<Longrightarrow>
      acc (ca_pos V s1) (json_args_delta (get_or (ca_toolBlockIndex s1) 0 (call_index t)) (cfc_Arguments (ctc_Function t)))
        = Some (ca_pos V s1)"
  shows "ca_runs acc V s (tool_step t s)"
proof -
  obtain e0 s0 where 0: "closeCCAnthropicBlockIfOpen ''thinking'' s = (e0, s0)" by fastforce
  obtain e1 s1 where 1: "announce_part (call_index t) t s0 = (e1, s1)" by fastforce
  obtain e2 s2 where 2: "args_part (call_index t) (cfc_Arguments (ctc_Function t)) s1 = (e2, s2)" by fastforce
  have "ca_runs acc V s (e0, s0)" "ca_runs acc V s0 (e1, s1)"
    using close_if_runs [of s "''thinking''"] announce_part_runs [of s0 "call_index t" t] 0 1 by simp_all
  moreover have "ca_runs acc V s1 (e2, s2)"
    using args_runs [of "cfc_Arguments (ctc_Function t)" s1 "call_index t"] assms [OF 0 1] 2 by simp
  ultimately have "ca_runs acc V s (e0 @ e1 @ e2, s2)" by (intro ca_runs_append)
  then show ?thesis
    using 1 2 by (simp add: tool_step_def handleCCAnthropicToolCall_def 0 call_index_def Let_def)
qed

lemma pending_runs: "ca_runs acc V s (pending_step idx s)"
proof -
  obtain e1 s1 where 1: "closeCCAnthropicBlock s = (e1, s1)" by fastforce
  obtain e2 s2 where 2: "announceCCAnthropicToolBlock idx (get_or (map_of (ca_pendingToolCallID s)) [] idx) [] s1 = (e2, s2)"
    by fastforce
  have "ca_runs acc V s (e1 @ e2, s2)"
    by (rule close_then_runs [OF 1]) (use announce_runs [of s1 idx] 2 in \<open>metis\<close>)
  then show ?thesis by (simp add: pending_step_def 1 2)
qed

lemma pending_run_runs: "ca_runs acc V s (run_conv pending_step idxs s)"
proof (induction idxs arbitrary: s)
  case (Cons i idxs)
  obtain e1 s1 where 1: "pending_step i s = (e1, s1)" by fastforce
  obtain e2 s2 where 2: "run_conv pending_step idxs s1 = (e2, s2)" by fastforce
  have "ca_runs acc V s (e1 @ e2, s2)"
    by (rule ca_runs_append [of _ _ _ _ s1]) (use pending_runs [of s i] Cons [of s1] 1 2 in simp_all)
  then show ?case by (simp add: 1 2)
qed (simp add: ca_runs_Nil)

end

definition live_view :: "int \<Rightarrow> string option \<Rightarrow> anth_view" where
  "live_view i t = \<lparr>av_started = True, av_ended = False, av_stopped = False, av_next = i, av_open = t\<rparr>"

definition block_nest :: "int \<Rightarrow> string option \<Rightarrow> nest_view" where
  "block_nest i t = \<lparr>nv_next = i, nv_open = (t \<noteq> None)\<rparr>"

interpretation messages: block_stream anth_accept live_view
  by unfold_locales (auto simp: live_view_def anth_accept_events)

interpretation nested: block_stream nest_accept block_nest
  by unfold_locales (auto simp: block_nest_def)

section \<open>What the steps leave alone\<close>

text \<open>The flags, and the tool tables, as far as a step does not set them.\<close>

lemma close_frame:
  assumes "closeCCAnthropicBlock s = (es, s')"
  shows "ca_toolAnnounced s' = ca_toolAnnounced s" "ca_toolBlockIndex s' = ca_toolBlockIndex s"
    "ca_MessageStartSent s' = ca_MessageStartSent s" "ca_MessageStopSent s' = ca_MessageStopSent s"
    "ca_pendingToolCallID s' = ca_pendingToolCallID s" "ca_pendingToolArgs s' = ca_pendingToolArgs s"
  using assms by (auto simp: closeCCAnthropicBlock_def Let_def split: if_splits)

lemma close_if_frame:
  assumes "closeCCAnthropicBlockIfOpen t s = (es, s')"
  shows "ca_toolAnnounced s' = ca_toolAnnounced s" "ca_toolBlockIndex s' = ca_toolBlockIndex s"
    "ca_MessageStartSent s' = ca_MessageStartSent s" "ca_MessageStopSent s' = ca_MessageStopSent s"
  using assms by (auto simp: closeCCAnthropicBlockIfOpen_def close_frame split: if_splits)

lemma reasoning_frame':
  assumes "reasoning_part d s = (es, s')"
  shows "ca_toolAnnounced s' = ca_toolAnnounced s" "ca_toolBlockIndex s' = ca_toolBlockIndex s"
    "ca_MessageStartSent s' = ca_MessageStartSent s" "ca_MessageStopSent s' = ca_MessageStopSent s"
  using assms
  by (auto simp: reasoning_part_def ensureCCAnthropicThinkingBlock_def close_frame split: if_splits option.splits prod.splits)

lemma content_frame:
  assumes "content_part d s = (es, s')"
  shows "ca_toolAnnounced s' = ca_toolAnnounced s" "ca_toolBlockIndex s' = ca_toolBlockIndex s"
    "ca_MessageStartSent s' = ca_MessageStartSent s" "ca_MessageStopSent s' = ca_MessageStopSent s"
  using assms
  by (auto simp: content_part_def ensureCCAnthropicTextBlock_def close_frame close_if_frame
           split: if_splits option.splits prod.splits)

lemma announce_frame:
  assumes "announceCCAnthropicToolBlock idx c n s = (es, s')"
  shows "ca_toolAnnounced s' = (ca_toolAnnounced s)(idx \<mapsto> True)"
    "ca_toolBlockIndex s' = (ca_toolBlockIndex s)(idx \<mapsto> ca_ContentBlockIndex s)"
    "ca_MessageStartSent s' = ca_MessageStartSent s" "ca_MessageStopSent s' = ca_MessageStopSent s"
    "ca_ContentBlockIndex s' = ca_ContentBlockIndex s" "ca_ContentBlockOpen s'" "ca_CurrentBlockType s' = ''tool_use''"
  using assms by (auto simp: announceCCAnthropicToolBlock_def Let_def split: if_splits)

lemma call_id_frame:
  assumes "ca_call_id i s = (c, s')"
  shows "ca_toolAnnounced s' = ca_toolAnnounced s" "ca_toolBlockIndex s' = ca_toolBlockIndex s"
    "ca_MessageStartSent s' = ca_MessageStartSent s" "ca_MessageStopSent s' = ca_MessageStopSent s"
    "ca_ContentBlockIndex s' = ca_ContentBlockIndex s" "ca_ContentBlockOpen s' = ca_ContentBlockOpen s"
    "ca_pendingToolCallID s' = ca_pendingToolCallID s" "ca_CurrentBlockType s' = ca_CurrentBlockType s"
  using assms by (auto simp: ca_call_id_def Let_def split: if_splits prod.splits)

text \<open>What announcing does to the tool tables.\<close>

definition announces :: "ca_state \<Rightarrow> int \<Rightarrow> ChatToolCall \<Rightarrow> bool" where
  \<comment> \<open>this fragment opens a block for call \<open>idx\<close>\<close>
  "announces s idx t \<longleftrightarrow> ca_toolAnnounced s idx \<noteq> Some True \<and> cfc_Name (ctc_Function t) \<noteq> []"

lemma announce_part_frame:
  assumes "announce_part idx t s = (es, s')"
  shows "ca_MessageStartSent s' = ca_MessageStartSent s \<and> ca_MessageStopSent s' = ca_MessageStopSent s"
    and "announces s idx t \<Longrightarrow> ca_toolAnnounced s' = (ca_toolAnnounced s)(idx \<mapsto> True)
      \<and> ca_toolBlockIndex s' = (ca_toolBlockIndex s)(idx \<mapsto> ca_ContentBlockIndex s')
      \<and> ca_ContentBlockOpen s' \<and> ca_CurrentBlockType s' = ''tool_use''"
    and "\<not> announces s idx t \<Longrightarrow> ca_toolAnnounced s idx = None \<Longrightarrow>
      ca_toolAnnounced s' = (ca_toolAnnounced s)(idx \<mapsto> False) \<and> ca_toolBlockIndex s' = ca_toolBlockIndex s"
    and "\<not> announces s idx t \<Longrightarrow> ca_toolAnnounced s idx \<noteq> None \<Longrightarrow> s' = s"
  using assms
  by (auto simp: announce_part_def announces_def Let_def close_frame announce_frame call_id_frame
           split: option.splits prod.splits if_splits)

lemma args_part_frame:
  assumes "args_part idx a s = (es, s')"
  shows "ca_toolAnnounced s' = ca_toolAnnounced s" "ca_toolBlockIndex s' = ca_toolBlockIndex s"
    "ca_MessageStartSent s' = ca_MessageStartSent s" "ca_MessageStopSent s' = ca_MessageStopSent s"
    "ca_ContentBlockIndex s' = ca_ContentBlockIndex s" "ca_ContentBlockOpen s' = ca_ContentBlockOpen s"
    "ca_CurrentBlockType s' = ca_CurrentBlockType s"
  using assms by (auto simp: args_part_def Let_def split: if_splits)

lemma tool_step_split:
  assumes "tool_step t s = (es, s')"
  obtains e0 s0 e1 s1 e2 where "closeCCAnthropicBlockIfOpen ''thinking'' s = (e0, s0)"
    "announce_part (call_index t) t s0 = (e1, s1)"
    "args_part (call_index t) (cfc_Arguments (ctc_Function t)) s1 = (e2, s')" "es = e0 @ e1 @ e2"
  using assms
  by (auto simp: tool_step_def handleCCAnthropicToolCall_def call_index_def Let_def split: prod.splits)

lemma tool_step_flags:
  "tool_step t s = (es, s') \<Longrightarrow> ca_MessageStartSent s' = ca_MessageStartSent s \<and> ca_MessageStopSent s' = ca_MessageStopSent s"
  by (elim tool_step_split) (simp add: close_if_frame announce_part_frame(1) args_part_frame)

lemma tools_flags:
  "run_conv tool_step ts s = (es, s') \<Longrightarrow> ca_MessageStartSent s' = ca_MessageStartSent s \<and> ca_MessageStopSent s' = ca_MessageStopSent s"
proof (induction ts arbitrary: s es)
  case (Cons t ts)
  obtain e1 s1 where 1: "tool_step t s = (e1, s1)" by fastforce
  obtain e2 s2 where 2: "run_conv tool_step ts s1 = (e2, s2)" by fastforce
  from Cons.prems 1 2 have "s2 = s'" by simp
  with Cons.IH 2 tool_step_flags [OF 1] show ?case by simp
qed simp

section \<open>An upstream that finishes one tool call before the next\<close>

text \<open>
  \<open>to_ann\<close>: the call indices seen, and whether their name has arrived; \<open>to_cur\<close>: the call
  whose block is the open one.  Argument fragments of a named call are accepted only while
  that call is current; fragments of an unnamed one at any time.
\<close>

record tool_order =
  to_ann :: "int \<rightharpoonup> bool"
  to_cur :: "int option"

definition tool_accept :: "tool_order \<Rightarrow> ChatToolCall \<Rightarrow> tool_order option" where
  "tool_accept v t =
     (let idx = call_index t; named = (cfc_Name (ctc_Function t) \<noteq> []);
          v1 = (if to_ann v idx \<noteq> Some True \<and> named
                then \<lparr>to_ann = (to_ann v)(idx \<mapsto> True), to_cur = Some idx\<rparr>
                else if to_ann v idx = None then \<lparr>to_ann = (to_ann v)(idx \<mapsto> False), to_cur = None\<rparr>
                else v)
      in if cfc_Arguments (ctc_Function t) \<noteq> [] \<and> to_ann v1 idx = Some True \<and> to_cur v1 \<noteq> Some idx then None
         else Some v1)"

definition nonempty :: "string option \<Rightarrow> bool" where
  "nonempty x \<longleftrightarrow> (case x of None \<Rightarrow> False | Some t \<Rightarrow> t \<noteq> [])"

definition choice_accept :: "tool_order \<Rightarrow> ChatChunkChoice \<Rightarrow> tool_order option" where
  "choice_accept v ch =
     (let d = ccc_Delta ch;
          v1 = (if nonempty (delta_reasoningText d) \<or> nonempty (cd_Content d) then v\<lparr>to_cur := None\<rparr> else v)
      in run_acc tool_accept v1 (cd_ToolCalls d))"

definition chunk_accept :: "tool_order \<Rightarrow> ChatCompletionsChunk \<Rightarrow> tool_order option" where
  "chunk_accept v c = run_acc choice_accept v (cck_Choices c)"

definition no_tools :: tool_order where
  "no_tools = \<lparr>to_ann = Map.empty, to_cur = None\<rparr>"

definition tool_rel :: "tool_order \<Rightarrow> ca_state \<Rightarrow> bool" where
  "tool_rel v s \<longleftrightarrow> 0 \<le> ca_ContentBlockIndex s \<and> ca_toolAnnounced s = to_ann v
     \<and> (\<forall>i. to_cur v = Some i \<longrightarrow> ca_ContentBlockOpen s \<and> ca_CurrentBlockType s = ''tool_use''
          \<and> ca_toolBlockIndex s i = Some (ca_ContentBlockIndex s))"

lemma close_if_thinking:
  "closeCCAnthropicBlockIfOpen ''thinking'' s = (es, s') \<Longrightarrow> ca_ContentBlockOpen s \<Longrightarrow>
   ca_CurrentBlockType s = ''tool_use'' \<Longrightarrow> s' = s"
  by (simp add: closeCCAnthropicBlockIfOpen_def)

lemma live_tool_delta:
  "ca_ContentBlockOpen s \<Longrightarrow> ca_CurrentBlockType s = ''tool_use'' \<Longrightarrow>
   anth_accept (ca_pos live_view s) (json_args_delta (ca_ContentBlockIndex s) p) = Some (ca_pos live_view s)"
  by (simp add: ca_pos_def live_view_def anth_accept_events)

lemma tool_rel_step:
  assumes rel: "tool_rel v s" and acc: "tool_accept v t = Some v'" and step: "tool_step t s = (es, s')"
  shows "run_acc anth_accept (ca_pos live_view s) es = Some (ca_pos live_view s') \<and> tool_rel v' s'"
proof -
  obtain e0 s0 e1 s1 e2 where 0: "closeCCAnthropicBlockIfOpen ''thinking'' s = (e0, s0)"
    and 1: "announce_part (call_index t) t s0 = (e1, s1)"
    and 2: "args_part (call_index t) (cfc_Arguments (ctc_Function t)) s1 = (e2, s')" and es: "es = e0 @ e1 @ e2"
    using step by (rule tool_step_split)
  let ?i = "call_index t"
  have ann0: "ca_toolAnnounced s0 = to_ann v" using rel close_if_frame [OF 0] by (simp add: tool_rel_def)
  have cur0: "ca_ContentBlockOpen s0 \<and> ca_CurrentBlockType s0 = ''tool_use'' \<and> ca_toolBlockIndex s0 i = Some (ca_ContentBlockIndex s0)"
    if "to_cur v = Some i" for i using that rel close_if_thinking [OF 0] by (simp add: tool_rel_def)
  define v1 where "v1 = (if to_ann v ?i \<noteq> Some True \<and> cfc_Name (ctc_Function t) \<noteq> []
                then \<lparr>to_ann = (to_ann v)(?i \<mapsto> True), to_cur = Some ?i\<rparr>
                else if to_ann v ?i = None then \<lparr>to_ann = (to_ann v)(?i \<mapsto> False), to_cur = None\<rparr> else v)"
  have v': "v' = v1" and ok: "cfc_Arguments (ctc_Function t) \<noteq> [] \<longrightarrow> to_ann v1 ?i = Some True \<longrightarrow> to_cur v1 = Some ?i"
    using acc by (auto simp: tool_accept_def Let_def v1_def split: if_splits)
  have rel1: "ca_toolAnnounced s1 = to_ann v1 \<and> (\<forall>i. to_cur v1 = Some i \<longrightarrow> ca_ContentBlockOpen s1
      \<and> ca_CurrentBlockType s1 = ''tool_use'' \<and> ca_toolBlockIndex s1 i = Some (ca_ContentBlockIndex s1))"
  proof (cases "announces s0 ?i t")
    case True
    with announce_part_frame(2) [OF 1] ann0 show ?thesis by (simp add: announces_def v1_def)
  next
    case False
    then show ?thesis
      using announce_part_frame(3,4) [OF 1 False] ann0 cur0 False
      by (cases "ca_toolAnnounced s0 ?i") (auto simp: announces_def v1_def)
  qed
  have "ca_runs anth_accept live_view s (tool_step t s)"
  proof (rule messages.tool_runs)
    fix f0 t0 f1 t1
    assume a: "closeCCAnthropicBlockIfOpen ''thinking'' s = (f0, t0)" "announce_part ?i t t0 = (f1, t1)"
      "cfc_Arguments (ctc_Function t) \<noteq> []" "get_or (ca_toolAnnounced t1) False ?i"
    then have t1: "t1 = s1" using 0 1 by simp
    with a rel1 have "to_ann v1 ?i = Some True" by (auto simp: get_or_def split: option.splits)
    with ok a rel1 have "ca_ContentBlockOpen s1" "ca_CurrentBlockType s1 = ''tool_use''"
      "ca_toolBlockIndex s1 ?i = Some (ca_ContentBlockIndex s1)" by auto
    then show "anth_accept (ca_pos live_view t1) (json_args_delta (get_or (ca_toolBlockIndex t1) 0 ?i)
        (cfc_Arguments (ctc_Function t))) = Some (ca_pos live_view t1)"
      by (simp add: t1 get_or_def live_tool_delta)
  qed
  with step rel have "run_acc anth_accept (ca_pos live_view s) es = Some (ca_pos live_view s')"
    "0 \<le> ca_ContentBlockIndex s'" by (auto simp: ca_runs_def tool_rel_def)
  moreover have "tool_rel v' s'"
    using rel1 args_part_frame [OF 2] calculation(2) by (simp add: tool_rel_def v')
  ultimately show ?thesis by simp
qed

interpretation tool_calls: translator tool_step tool_accept anth_accept tool_rel "\<lambda>_. ca_pos live_view"
  by unfold_locales (use tool_rel_step in blast)+

lemma reasoning_silent: "\<not> nonempty (delta_reasoningText d) \<Longrightarrow> reasoning_part d s = ([], s)"
  by (simp add: reasoning_part_def nonempty_def split: option.splits)

lemma content_silent: "\<not> nonempty (cd_Content d) \<Longrightarrow> content_part d s = ([], s)"
  by (simp add: content_part_def nonempty_def split: option.splits)

lemma choice_step_split:
  assumes "choice_step ch s = (es, s')"
  obtains e1 s1 e2 s2 e3 s3 where "reasoning_part (ccc_Delta ch) s = (e1, s1)" "content_part (ccc_Delta ch) s1 = (e2, s2)"
    "run_conv tool_step (cd_ToolCalls (ccc_Delta ch)) s2 = (e3, s3)" "es = e1 @ e2 @ e3"
    "s' = s3 \<or> s' = s3\<lparr>ca_FinishReason := the (ccc_FinishReason ch)\<rparr>"
  using assms by (auto simp: choice_step_def Let_def split: prod.splits option.splits if_splits)

lemma ca_pos_finish [simp]: "ca_pos V (s\<lparr>ca_FinishReason := r\<rparr>) = ca_pos V s"
  by (simp add: ca_pos_def)

lemma choice_rel_step:
  assumes rel: "tool_rel v s" and acc: "choice_accept v ch = Some v'" and step: "choice_step ch s = (es, s')"
  shows "run_acc anth_accept (ca_pos live_view s) es = Some (ca_pos live_view s') \<and> tool_rel v' s'"
proof -
  let ?d = "ccc_Delta ch"
  obtain e1 s1 e2 s2 e3 s3 where 1: "reasoning_part ?d s = (e1, s1)" and 2: "content_part ?d s1 = (e2, s2)"
    and 3: "run_conv tool_step (cd_ToolCalls ?d) s2 = (e3, s3)" and es: "es = e1 @ e2 @ e3"
    and s': "s' = s3 \<or> s' = s3\<lparr>ca_FinishReason := the (ccc_FinishReason ch)\<rparr>"
    using step by (rule choice_step_split)
  define v1 where "v1 = (if nonempty (delta_reasoningText ?d) \<or> nonempty (cd_Content ?d) then v\<lparr>to_cur := None\<rparr> else v)"
  from acc have acc1: "run_acc tool_accept v1 (cd_ToolCalls ?d) = Some v'" by (simp add: choice_accept_def v1_def Let_def)
  have r: "ca_runs anth_accept live_view s (e1, s1)" "ca_runs anth_accept live_view s1 (e2, s2)"
    using messages.reasoning_runs [of s ?d] messages.content_runs [of s1 ?d] 1 2 by simp_all
  with rel have run12: "run_acc anth_accept (ca_pos live_view s) (e1 @ e2) = Some (ca_pos live_view s2)"
      "0 \<le> ca_ContentBlockIndex s2" by (auto simp: ca_runs_def tool_rel_def)
  have rel2: "tool_rel v1 s2"
  proof (cases "nonempty (delta_reasoningText ?d) \<or> nonempty (cd_Content ?d)")
    case True
    with rel run12(2) reasoning_frame' [OF 1] content_frame [OF 2] show ?thesis by (simp add: tool_rel_def v1_def)
  next
    case False
    with 1 2 have "s2 = s" by (simp add: reasoning_silent content_silent)
    with False rel show ?thesis by (simp add: v1_def)
  qed
  from tool_calls.stream_accepted [OF rel2 acc1 3]
  have run3: "run_acc anth_accept (ca_pos live_view s2) e3 = Some (ca_pos live_view s3)" and rel3: "tool_rel v' s3" by auto
  from run_acc_append_Some [OF run12(1) run3] es
  have "run_acc anth_accept (ca_pos live_view s) es = Some (ca_pos live_view s3)" by simp
  with rel3 s' show ?thesis by (auto simp: tool_rel_def)
qed

interpretation choices: translator choice_step choice_accept anth_accept tool_rel "\<lambda>_. ca_pos live_view"
  by unfold_locales (use choice_rel_step in blast)+

lemma choice_flags:
  "choice_step ch s = (es, s') \<Longrightarrow> ca_MessageStartSent s' = ca_MessageStartSent s \<and> ca_MessageStopSent s' = ca_MessageStopSent s"
  by (elim choice_step_split) (auto simp: reasoning_frame' content_frame dest: tools_flags)

lemma choices_flags:
  "run_conv choice_step chs s = (es, s') \<Longrightarrow> ca_MessageStartSent s' = ca_MessageStartSent s \<and> ca_MessageStopSent s' = ca_MessageStopSent s"
proof (induction chs arbitrary: s es)
  case (Cons t ts)
  obtain e1 s1 where 1: "choice_step t s = (e1, s1)" by fastforce
  obtain e2 s2 where 2: "run_conv choice_step ts s1 = (e2, s2)" by fastforce
  from Cons.prems 1 2 have "s2 = s'" by simp
  with Cons.IH 2 choice_flags [OF 1] show ?case by simp
qed simp

lemma chunk_header_frame [simp]:
  "ca_MessageStartSent (chunk_header c s) = ca_MessageStartSent s" "ca_MessageStopSent (chunk_header c s) = ca_MessageStopSent s"
  "ca_ContentBlockIndex (chunk_header c s) = ca_ContentBlockIndex s" "ca_ContentBlockOpen (chunk_header c s) = ca_ContentBlockOpen s"
  "ca_CurrentBlockType (chunk_header c s) = ca_CurrentBlockType s" "ca_toolAnnounced (chunk_header c s) = ca_toolAnnounced s"
  "ca_toolBlockIndex (chunk_header c s) = ca_toolBlockIndex s"
  by (simp_all add: chunk_header_def Let_def)

definition chunk_rel :: "tool_order \<Rightarrow> ca_state \<Rightarrow> bool" where
  "chunk_rel v s \<longleftrightarrow> tool_rel v s \<and> \<not> ca_MessageStopSent s
     \<and> (\<not> ca_MessageStartSent s \<longrightarrow> ca_ContentBlockIndex s = 0 \<and> \<not> ca_ContentBlockOpen s)"

definition ca_view :: "ca_state \<Rightarrow> anth_view" where
  "ca_view s = (if ca_MessageStartSent s then ca_pos live_view s else anth_initial)"

lemma ensure_start:
  assumes "ensureCCAnthropicMessageStart s = (es, s')" "\<not> ca_MessageStartSent s \<longrightarrow> ca_ContentBlockIndex s = 0 \<and> \<not> ca_ContentBlockOpen s"
  shows "run_acc anth_accept (ca_view s) es = Some (ca_pos live_view s')" "ca_MessageStartSent s'"
    "ca_MessageStopSent s' = ca_MessageStopSent s" "tool_rel v s' = tool_rel v s"
    "ca_pendingToolCallID s' = ca_pendingToolCallID s"
  using assms
  by (auto simp: ensureCCAnthropicMessageStart_def ca_view_def ca_pos_def live_view_def anth_initial_def
      anth_accept_events tool_rel_def split: if_splits)

lemma chunk_rel_step:
  assumes rel: "chunk_rel v s" and acc: "chunk_accept v c = Some v'" and step: "chunk_step c s = (es, s')"
  shows "run_acc anth_accept (ca_view s) es = Some (ca_view s') \<and> chunk_rel v' s'"
proof -
  let ?h = "chunk_header c s"
  obtain e1 s1 where 1: "ensureCCAnthropicMessageStart ?h = (e1, s1)" by fastforce
  obtain e2 s2 where 2: "run_conv choice_step (cck_Choices c) s1 = (e2, s2)" by fastforce
  have es: "es = e1 @ e2" "s' = s2" using step by (simp_all add: chunk_step_def 1 2)
  have hv: "ca_view ?h = ca_view s" "tool_rel v ?h" using rel by (simp_all add: ca_view_def ca_pos_def chunk_rel_def tool_rel_def)
  note st = ensure_start [OF 1]
  have st': "run_acc anth_accept (ca_view s) e1 = Some (ca_pos live_view s1)" "ca_MessageStartSent s1"
      "\<not> ca_MessageStopSent s1" "tool_rel v s1"
    using st(1-3) st(4) [of v] hv rel by (simp_all add: chunk_rel_def)
  from acc have "run_acc choice_accept v (cck_Choices c) = Some v'" by (simp add: chunk_accept_def)
  from choices.stream_accepted [OF st'(4) this 2]
  have "run_acc anth_accept (ca_pos live_view s1) e2 = Some (ca_pos live_view s2)" "tool_rel v' s2" by auto
  with run_acc_append_Some [OF st'(1) this(1)] es choices_flags [OF 2] st' show ?thesis
    by (simp add: ca_view_def chunk_rel_def)
qed

lemma finalize_complete:
  assumes rel: "chunk_rel v s" and fin: "finalize_step s = (es, s')"
  shows "\<exists>b. run_acc anth_accept (ca_view s) es = Some b \<and> anth_complete b"
proof -
  obtain e1 s1 where 1: "ensureCCAnthropicMessageStart s = (e1, s1)" by fastforce
  obtain e2 s2 where 2: "run_conv pending_step (sort (map fst (ca_pendingToolCallID s1))) s1 = (e2, s2)" by fastforce
  obtain e3 s3 where 3: "closeCCAnthropicBlock s2 = (e3, s3)" by fastforce
  let ?fin = "message_end (ccFinishReasonToAnthropicStopReason (ca_FinishReason s3) (ca_HasToolCall s3)) (ca_usage s3)"
  have es: "es = (e1 @ e2 @ e3) @ ?fin" using fin rel by (simp add: finalize_step_def 1 2 3 Let_def chunk_rel_def split: if_splits)
  have st: "run_acc anth_accept (ca_view s) e1 = Some (ca_pos live_view s1)" "tool_rel v s1"
    using ensure_start [OF 1] rel by (simp_all add: chunk_rel_def)
  have "ca_runs anth_accept live_view s1 (e2 @ e3, s3)"
    by (rule ca_runs_append [of _ _ _ _ s2]) (use messages.pending_run_runs [of s1] messages.close_runs [of s2] 2 3 in metis)+
  with st(2) have "run_acc anth_accept (ca_pos live_view s1) (e2 @ e3) = Some (ca_pos live_view s3)"
    by (auto simp: ca_runs_def tool_rel_def)
  from run_acc_append_Some [OF st(1) this]
  have a: "run_acc anth_accept (ca_view s) (e1 @ e2 @ e3) = Some (ca_pos live_view s3)" .
  have v3: "ca_pos live_view s3 = live_view (ca_ContentBlockIndex s3) None" using cc_closed [OF 3] by (simp add: ca_pos_def)
  have "run_acc anth_accept (ca_pos live_view s3) ?fin = Some ((ca_pos live_view s3)\<lparr>av_ended := True, av_stopped := True\<rparr>)"
    by (rule run_message_end) (simp_all add: v3 live_view_def ccFinishReasonToAnthropicStopReason_def)
  from run_acc_append_Some [OF a this] show ?thesis
    unfolding es by (auto simp: v3 live_view_def anth_complete_def)
qed

interpretation ca_protocol: closing_translator chunk_step chunk_accept anth_accept chunk_rel "\<lambda>_. ca_view"
    finalize_step "\<lambda>_ _. True" anth_complete
  by unfold_locales (use chunk_rel_step finalize_complete in blast)+

lemma ca_initial:
  "chunk_rel no_tools (NewChatCompletionsToAnthropicStreamState m now g)"
  "ca_view (NewChatCompletionsToAnthropicStreamState m now g) = anth_initial"
  by (auto simp: NewChatCompletionsToAnthropicStreamState_def chunk_rel_def tool_rel_def no_tools_def ca_view_def
      Let_def split: prod.split)

section \<open>Nesting, whatever the order\<close>

definition ca_known :: "ca_state \<Rightarrow> bool" where
  "ca_known s \<longleftrightarrow> known_blocks (ca_toolBlockIndex s) (ca_ContentBlockIndex s) (ca_ContentBlockOpen s)
     \<and> (\<forall>i. ca_toolAnnounced s i = Some True \<longrightarrow> ca_toolBlockIndex s i \<noteq> None)"

lemma close_progress:
  "closeCCAnthropicBlock s = (es, s') \<Longrightarrow> s' = s \<or> ca_ContentBlockIndex s' = ca_ContentBlockIndex s + 1"
  by (auto simp: closeCCAnthropicBlock_def Let_def split: if_splits)

lemma known_close: "ca_known s \<Longrightarrow> closeCCAnthropicBlock s = (es, s') \<Longrightarrow> ca_known s'"
  using close_progress [of s es s'] close_frame [of s es s'] by (auto simp: ca_known_def)

lemma known_close_if: "ca_known s \<Longrightarrow> closeCCAnthropicBlockIfOpen t s = (es, s') \<Longrightarrow> ca_known s'"
  by (auto simp: closeCCAnthropicBlockIfOpen_def dest: known_close split: if_splits)

lemma known_open: "ca_known s \<Longrightarrow> ca_known (s\<lparr>ca_ContentBlockOpen := True, ca_CurrentBlockType := t\<rparr>)"
  by (auto simp: ca_known_def)

lemma known_reasoning: "ca_known s \<Longrightarrow> reasoning_part d s = (es, s') \<Longrightarrow> ca_known s'"
  by (auto simp: reasoning_part_def ensureCCAnthropicThinkingBlock_def intro: known_open dest: known_close
           split: option.splits if_splits prod.splits)

lemma known_content: "ca_known s \<Longrightarrow> content_part d s = (es, s') \<Longrightarrow> ca_known s'"
  by (auto simp: content_part_def ensureCCAnthropicTextBlock_def intro: known_open dest: known_close known_close_if
           split: option.splits if_splits prod.splits)

lemma known_announce_part:
  assumes known: "ca_known s" and step: "announce_part idx t s = (es, s')"
  shows "ca_known s'"
proof -
  obtain e1 s1 where 1: "closeCCAnthropicBlock s = (e1, s1)" by fastforce
  note k1 = known_close [OF known 1]
  have ann: "ca_known s4" if "announceCCAnthropicToolBlock i c n s3 = (es', s4)" "ca_known s3" for i c n s3 es' s4
    using announce_frame [OF that(1)] that(2) by (auto simp: ca_known_def)
  have cid: "ca_known s2" if "ca_call_id i (s1\<lparr>ca_HasToolCall := True\<rparr>) = (c, s2)" for i c s2
    using call_id_frame [OF that] k1 by (simp add: ca_known_def)
  have pend: "ca_known (s2\<lparr>ca_toolAnnounced := (ca_toolAnnounced s2)(idx \<mapsto> False), ca_pendingToolCallID := p\<rparr>)"
    if "ca_known s2" for s2 p using that by (simp add: ca_known_def)
  show ?thesis
    using step 1 known
    by (auto simp: announce_part_def Let_def split: option.splits prod.splits if_splits
        intro: pend dest: cid ann k1 [THEN [2] ann])
qed

lemma known_nest_step:
  assumes known: "ca_known s" and step: "tool_step t s = (es, s')"
  shows "run_acc nest_accept (ca_pos block_nest s) es = Some (ca_pos block_nest s') \<and> ca_known s'"
proof -
  obtain e0 s0 e1 s1 e2 where 0: "closeCCAnthropicBlockIfOpen ''thinking'' s = (e0, s0)"
    and 1: "announce_part (call_index t) t s0 = (e1, s1)"
    and 2: "args_part (call_index t) (cfc_Arguments (ctc_Function t)) s1 = (e2, s')"
    using step by (rule tool_step_split)
  have k1: "ca_known s1" using known_announce_part [OF known_close_if [OF known 0] 1] .
  have "ca_runs nest_accept block_nest s (tool_step t s)"
  proof (rule nested.tool_runs)
    fix f0 t0 f1 t1
    assume a: "closeCCAnthropicBlockIfOpen ''thinking'' s = (f0, t0)" "announce_part (call_index t) t t0 = (f1, t1)"
      "get_or (ca_toolAnnounced t1) False (call_index t)"
    then have t1: "t1 = s1" using 0 1 by simp
    with a(3) k1 obtain b where "ca_toolBlockIndex s1 (call_index t) = Some b"
      by (auto simp: get_or_def ca_known_def split: option.splits)
    with k1 known_blocks_get [of "ca_toolBlockIndex s1" _ _ "call_index t" b]
    show "nest_accept (ca_pos block_nest t1) (json_args_delta (get_or (ca_toolBlockIndex t1) 0 (call_index t))
        (cfc_Arguments (ctc_Function t))) = Some (ca_pos block_nest t1)"
      by (auto simp: t1 get_or_def ca_known_def ca_pos_def block_nest_def)
  qed
  moreover have "0 \<le> ca_ContentBlockIndex s" using known by (auto simp: ca_known_def)
  moreover have "ca_known s'" using k1 args_part_frame [OF 2] by (simp add: ca_known_def)
  ultimately show ?thesis using step by (simp add: ca_runs_def)
qed

interpretation tool_nests: translator tool_step "\<lambda>_ _. Some ()" nest_accept "\<lambda>_. ca_known" "\<lambda>_. ca_pos block_nest"
  by unfold_locales (use known_nest_step in blast)+

lemma known_choice_step:
  assumes known: "ca_known s" and step: "choice_step ch s = (es, s')"
  shows "run_acc nest_accept (ca_pos block_nest s) es = Some (ca_pos block_nest s') \<and> ca_known s'"
proof -
  let ?d = "ccc_Delta ch"
  obtain e1 s1 e2 s2 e3 s3 where 1: "reasoning_part ?d s = (e1, s1)" and 2: "content_part ?d s1 = (e2, s2)"
    and 3: "run_conv tool_step (cd_ToolCalls ?d) s2 = (e3, s3)" and es: "es = e1 @ e2 @ e3"
    and s': "s' = s3 \<or> s' = s3\<lparr>ca_FinishReason := the (ccc_FinishReason ch)\<rparr>"
    using step by (rule choice_step_split)
  have "ca_runs nest_accept block_nest s (e1, s1)" "ca_runs nest_accept block_nest s1 (e2, s2)"
    using nested.reasoning_runs [of s ?d] nested.content_runs [of s1 ?d] 1 2 by simp_all
  moreover have "0 \<le> ca_ContentBlockIndex s" using known by (auto simp: ca_known_def)
  ultimately have run12: "run_acc nest_accept (ca_pos block_nest s) (e1 @ e2) = Some (ca_pos block_nest s2)"
    by (auto simp: ca_runs_def)
  have k2: "ca_known s2" using known_content [OF known_reasoning [OF known 1] 2] .
  from tool_nests.stream_accepted [OF k2 run_acc_any 3]
  have run3: "run_acc nest_accept (ca_pos block_nest s2) e3 = Some (ca_pos block_nest s3)" and k3: "ca_known s3" by auto
  from run_acc_append_Some [OF run12 run3] es
  have "run_acc nest_accept (ca_pos block_nest s) es = Some (ca_pos block_nest s3)" by simp
  with k3 s' show ?thesis by (auto simp: ca_known_def)
qed

interpretation choice_nests: translator choice_step "\<lambda>_ _. Some ()" nest_accept "\<lambda>_. ca_known" "\<lambda>_. ca_pos block_nest"
  by unfold_locales (use known_choice_step in blast)+

lemma known_chunk_step:
  assumes known: "ca_known s" and step: "chunk_step c s = (es, s')"
  shows "run_acc nest_accept (ca_pos block_nest s) es = Some (ca_pos block_nest s') \<and> ca_known s'"
proof -
  obtain e1 s1 where 1: "ensureCCAnthropicMessageStart (chunk_header c s) = (e1, s1)" by fastforce
  obtain e2 s2 where 2: "run_conv choice_step (cck_Choices c) s1 = (e2, s2)" by fastforce
  have es: "es = e1 @ e2" "s' = s2" using step by (simp_all add: chunk_step_def 1 2)
  have r1: "run_acc nest_accept (ca_pos block_nest s) e1 = Some (ca_pos block_nest s1)" and k1: "ca_known s1"
    using 1 known by (auto simp: ensureCCAnthropicMessageStart_def ca_pos_def ca_known_def split: if_splits)
  from choice_nests.stream_accepted [OF k1 run_acc_any 2] run_acc_append_Some [OF r1] es show ?thesis by simp
qed

interpretation chunk_nests: closing_translator chunk_step "\<lambda>_ _. Some ()" nest_accept "\<lambda>_. ca_known"
    "\<lambda>_. ca_pos block_nest" finalize_step "\<lambda>_ s. \<not> ca_MessageStopSent s" "\<lambda>v. \<not> nv_open v"
proof unfold_locales
  fix s es s'
  assume known: "ca_known s" and open': "\<not> ca_MessageStopSent s" and fin: "finalize_step s = (es, s')"
  obtain e1 s1 where 1: "ensureCCAnthropicMessageStart s = (e1, s1)" by fastforce
  obtain e2 s2 where 2: "run_conv pending_step (sort (map fst (ca_pendingToolCallID s1))) s1 = (e2, s2)" by fastforce
  obtain e3 s3 where 3: "closeCCAnthropicBlock s2 = (e3, s3)" by fastforce
  let ?fin = "message_end (ccFinishReasonToAnthropicStopReason (ca_FinishReason s3) (ca_HasToolCall s3)) (ca_usage s3)"
  have es: "es = (e1 @ e2 @ e3) @ ?fin" using fin open' by (simp add: finalize_step_def 1 2 3 Let_def)
  have r1: "run_acc nest_accept (ca_pos block_nest s) e1 = Some (ca_pos block_nest s1)"
    and n1: "0 \<le> ca_ContentBlockIndex s1"
    using 1 known by (auto simp: ensureCCAnthropicMessageStart_def ca_pos_def ca_known_def split: if_splits)
  have "ca_runs nest_accept block_nest s1 (e2 @ e3, s3)"
    by (rule ca_runs_append [of _ _ _ _ s2]) (use nested.pending_run_runs [of s1] nested.close_runs [of s2] 2 3 in metis)+
  with n1 have "run_acc nest_accept (ca_pos block_nest s1) (e2 @ e3) = Some (ca_pos block_nest s3)"
    by (auto simp: ca_runs_def)
  from run_acc_append_Some [OF r1 this] have a: "run_acc nest_accept (ca_pos block_nest s) (e1 @ e2 @ e3) = Some (ca_pos block_nest s3)" .
  from run_acc_append_Some [OF this, of ?fin] cc_closed [OF 3]
  show "\<exists>b. run_acc nest_accept (ca_pos block_nest s) es = Some b \<and> \<not> nv_open b"
    unfolding es by (simp add: ca_pos_def block_nest_def)
qed (use known_chunk_step in blast)+

lemma ca_initial_known:
  "ca_known (NewChatCompletionsToAnthropicStreamState m now g)"
  "ca_pos block_nest (NewChatCompletionsToAnthropicStreamState m now g) = \<lparr>nv_next = 0, nv_open = False\<rparr>"
  by (auto simp: NewChatCompletionsToAnthropicStreamState_def ca_known_def ca_pos_def block_nest_def Let_def split: prod.split)

text \<open>The exported functions, on their pointers, run the steps.\<close>

lemma exported_run:
  "run_conv ChatCompletionsChunkToAnthropicEvents (map Some cs) (Some s) =
     (fst (run_conv chunk_step cs s), Some (snd (run_conv chunk_step cs s)))"
  by (induction cs arbitrary: s) (auto simp: ChatCompletionsChunkToAnthropicEvents_def Let_def split: prod.splits)

lemma chunk_stop: "chunk_step c s = (es, s') \<Longrightarrow> \<not> ca_MessageStopSent s \<Longrightarrow> \<not> ca_MessageStopSent s'"
proof -
  assume st: "chunk_step c s = (es, s')" and n: "\<not> ca_MessageStopSent s"
  obtain e1 s1 where 1: "ensureCCAnthropicMessageStart (chunk_header c s) = (e1, s1)" by fastforce
  obtain e2 s2 where 2: "run_conv choice_step (cck_Choices c) s1 = (e2, s2)" by fastforce
  have "ca_MessageStopSent s1 = ca_MessageStopSent (chunk_header c s)"
    using 1 by (auto simp: ensureCCAnthropicMessageStart_def Let_def split: if_splits)
  with n st choices_flags [OF 2] show ?thesis by (simp add: chunk_step_def 1 2)
qed

lemma ca_finalize_twice:
  "FinalizeChatCompletionsAnthropicStream (snd (FinalizeChatCompletionsAnthropicStream s))
     = ([], snd (FinalizeChatCompletionsAnthropicStream s))"
  by (auto simp: FinalizeChatCompletionsAnthropicStream_def finalize_step_def Let_def split: option.split prod.split)

end
