(* ===== verification/ChatToResponses.thy ===== *)
theory ChatToResponses
  imports AnthropicToResponses ChatContent
begin

text \<open>
  \<open>chatcompletions_responses_bridge.go\<close>, response side: Chat Completions answers, whole or
  streamed, as Responses.  The stream converter's state is \<open>cr_state\<close>
  (\<open>ChatCompletionsToResponsesStreamState\<close>) with the entropy source as a last field.
  \<open>ToolCalls\<close>, whose length the code takes and over which it iterates, is an association
  list; the sets of tool names are lists; the other Go maps are functions.
\<close>

section \<open>Usage\<close>

definition ChatUsageToResponsesUsage :: "ChatUsage option \<Rightarrow> ResponsesUsage option" where
  "ChatUsageToResponsesUsage usage =
     (case usage of None \<Rightarrow> None
      | Some u \<Rightarrow>
        (let out = zeroResponsesUsage\<lparr>ru_InputTokens := cu_PromptTokens u, ru_OutputTokens := cu_CompletionTokens u,
               ru_TotalTokens := (if cu_TotalTokens u = 0 then iadd (cu_PromptTokens u) (cu_CompletionTokens u)
                  else cu_TotalTokens u)\<rparr>
         in Some (case cu_PromptTokensDetails u of None \<Rightarrow> out
           | Some d \<Rightarrow>
             if ctd_CachedTokens d > 0 \<or> ctd_CacheCreationTokens d > 0 \<or> ctd_CacheWriteTokens d > 0 then
               out\<lparr>ru_InputTokensDetails := Some (zeroInputDetails\<lparr>ritd_CachedTokens := ctd_CachedTokens d,
                     ritd_CacheCreationTokens := ctd_CacheCreationTokens d,
                     ritd_CacheWriteTokens := ctd_CacheWriteTokens d\<rparr>),
                   ru_CacheCreationInputTokens := (if ctd_CacheWriteTokens d > 0 then ctd_CacheWriteTokens d
                     else ctd_CacheCreationTokens d)\<rparr>
             else out)))"

section \<open>Whole responses\<close>

record tool_names =
  \<comment> \<open>what the client's request declared: the four arguments every converter takes\<close>
  tn_custom :: "string list"
  tn_function :: "string list"
  tn_toolSearch :: bool
  tn_namespace :: "(string \<times> NamespacedToolName) list"

definition no_tool_names :: tool_names where
  "no_tool_names = \<lparr>tn_custom = [], tn_function = [], tn_toolSearch = False, tn_namespace = []\<rparr>"

definition custom_call_item :: "string \<Rightarrow> string \<Rightarrow> string \<Rightarrow> string \<Rightarrow> ResponsesOutput" where
  "custom_call_item i callID name inp = zeroOutput\<lparr>ro_Type := ''custom_tool_call'', ro_ID := i,
     ro_CallID := callID, ro_Name := name, ro_Input := inp, ro_Status := ''completed''\<rparr>"

definition search_call_item :: "string \<Rightarrow> string \<Rightarrow> string \<Rightarrow> ResponsesOutput" where
  "search_call_item i callID arguments = zeroOutput\<lparr>ro_Type := ''tool_search_call'', ro_ID := i,
     ro_CallID := callID, ro_Arguments := arguments, ro_Status := ''completed''\<rparr>"

definition function_call_item ::
  "string \<Rightarrow> string \<Rightarrow> string \<Rightarrow> string \<Rightarrow> string \<Rightarrow> ResponsesOutput" where
  "function_call_item i callID name namespace arguments = zeroOutput\<lparr>ro_Type := ''function_call'', ro_ID := i,
     ro_CallID := callID, ro_Name := name, ro_Namespace := namespace, ro_Arguments := arguments,
     ro_Status := ''completed''\<rparr>"

text \<open>One iteration of the loop over \<open>message.ToolCalls\<close>.\<close>

definition tool_call_to_item ::
  "tool_names \<Rightarrow> ChatToolCall \<Rightarrow> ResponsesOutput list \<times> rng \<Rightarrow> ResponsesOutput list \<times> rng" where
  "tool_call_to_item tn toolCall acc = (case acc of (outputs, g) \<Rightarrow>
     (let name = cfc_Name (ctc_Function toolCall);
          arguments = args_or_empty_object (cfc_Arguments (ctc_Function toolCall));
          (customName, ok) = customToolCallName name (tn_custom tn) (tn_function tn) (tn_namespace tn);
          (i, g') = generateItemID g
      in if ok then
           (outputs @ [custom_call_item i (ctc_ID toolCall) customName (extractCustomToolCallInput arguments)], g')
         else if tn_toolSearch tn \<and> name = toolSearchProxyName then
           (outputs @ [search_call_item i (ctc_ID toolCall) arguments], g')
         else if \<not> Valid arguments then acc
         else (case map_of (tn_namespace tn) name of
             Some ns \<Rightarrow> (outputs @ [function_call_item i (ctc_ID toolCall) (ntn_Name ns) (ntn_Namespace ns) arguments], g')
           | None \<Rightarrow> (outputs @ [function_call_item i (ctc_ID toolCall) name [] arguments], g'))))"

definition chatMessageToResponsesOutput :: "ChatMessage \<Rightarrow> tool_names \<Rightarrow> rng \<Rightarrow> ResponsesOutput list \<times> rng" where
  "chatMessageToResponsesOutput message tn g =
     (let reasoning = message_reasoningText message;
          (outputs1, g1) = (if reasoning \<noteq> [] then
              (let (i, g') = generateItemID g in
               ([zeroOutput\<lparr>ro_Type := ''reasoning'', ro_ID := i, ro_Summary := summary_of reasoning\<rparr>], g'))
            else ([], g));
          text0 = chatMessageContentText (cm_Content message);
          text = (if text0 = [] \<and> TrimSpace reasoning \<noteq> [] \<and> cm_ToolCalls message = [] then reasoning else text0);
          (outputs2, g2) = (if text \<noteq> [] \<or> cm_ToolCalls message = [] then
              (let (i, g') = generateItemID g1 in (outputs1 @ [message_item i [text_part text]], g'))
            else (outputs1, g1))
      in fold (tool_call_to_item tn) (cm_ToolCalls message) (outputs2, g2))"

definition emptyResponsesMessageOutput :: "rng \<Rightarrow> ResponsesOutput \<times> rng" where
  "emptyResponsesMessageOutput g = (let (i, g') = generateItemID g in (message_item i [text_part []], g'))"

definition chatServiceTier :: "ChatCompletionsResponse option \<Rightarrow> string" where
  "chatServiceTier resp = (case resp of None \<Rightarrow> [] | Some r \<Rightarrow> ccr_ServiceTier r)"

definition ChatCompletionsResponseToResponses ::
  "ChatCompletionsResponse option \<Rightarrow> string \<Rightarrow> tool_names \<Rightarrow> int \<Rightarrow> rng \<Rightarrow> ResponsesResponse \<times> rng" where
  "ChatCompletionsResponseToResponses resp model tn now g =
     (let id0 = (case resp of None \<Rightarrow> [] | Some r \<Rightarrow> ccr_ID r);
          (i, g1) = (if id0 = [] then generateResponsesID g else (id0, g));
          created0 = (case resp of None \<Rightarrow> 0 | Some r \<Rightarrow> ccr_Created r);
          createdAt = (if created0 \<le> 0 then now else created0);
          out0 = zeroResponse\<lparr>rr_ID := i, rr_Object := ''response'', rr_CreatedAt := createdAt, rr_Model := model,
                   rr_Status := ''completed'', rr_ServiceTier := chatServiceTier resp\<rparr>
      in case resp of
           None \<Rightarrow> (let (item, g2) = emptyResponsesMessageOutput g1 in (out0\<lparr>rr_Output := [item]\<rparr>, g2))
         | Some r \<Rightarrow>
           (let out1 = (if model = [] then out0\<lparr>rr_Model := ccr_Model r\<rparr> else out0);
                (out2, g2) = (case ccr_Choices r of [] \<Rightarrow> (out1, g1)
                  | choice # _ \<Rightarrow>
                    (let (items, g') = chatMessageToResponsesOutput (cc_Message choice) tn g1;
                         o1 = out1\<lparr>rr_Output := items\<rparr>
                     in (if cc_FinishReason choice = ''length''
                         then o1\<lparr>rr_Status := ''incomplete'',
                                 rr_IncompleteDetails := Some \<lparr>rid_Reason = ''max_output_tokens''\<rparr>\<rparr>
                         else o1, g')));
                (out3, g3) = (if rr_Output out2 = [] then
                    (let (item, g') = emptyResponsesMessageOutput g2 in (out2\<lparr>rr_Output := [item]\<rparr>, g'))
                  else (out2, g2))
            in (if ccr_Usage r \<noteq> None then out3\<lparr>rr_Usage := ChatUsageToResponsesUsage (ccr_Usage r)\<rparr> else out3, g3)))"

section \<open>The stream converter's state\<close>

record cr_state =
  cr_ResponseID :: string
  cr_Model :: string
  cr_Created :: int
  cr_ServiceTier :: string
  cr_SequenceNumber :: int
  cr_CreatedSent :: bool
  cr_CompletedSent :: bool
  cr_nextOutputIndex :: int
  cr_ReasoningItemID :: string
  cr_ReasoningIndex :: int
  cr_ReasoningOpen :: bool
  cr_ReasoningDone :: bool
  cr_MessageItemID :: string
  cr_MessageIndex :: int
  cr_TextPartOpen :: bool
  cr_Text :: string
  cr_Reasoning :: string
  cr_ToolCalls :: "(int \<times> ChatToolCall) list"
  cr_ToolItemIDs :: "int \<rightharpoonup> string"
  cr_ToolOutputIndex :: "int \<rightharpoonup> int"
  cr_names :: tool_names
  cr_toolIsCustom :: "int \<rightharpoonup> bool"
  cr_toolIsToolSearch :: "int \<rightharpoonup> bool"
  cr_toolNamespace :: "int \<rightharpoonup> NamespacedToolName"
  cr_toolAnnounced :: "int \<rightharpoonup> bool"
  cr_FinishReason :: string
  cr_Usage :: "ResponsesUsage option"
  cr_rand :: rng

definition NewChatCompletionsToResponsesStreamState :: "string \<Rightarrow> tool_names \<Rightarrow> int \<Rightarrow> rng \<Rightarrow> cr_state" where
  \<comment> \<open>the caller sets the four tool-name fields right after the constructor\<close>
  "NewChatCompletionsToResponsesStreamState model tn now g =
     (let (i, g') = generateResponsesID g in
      \<lparr>cr_ResponseID = i, cr_Model = model, cr_Created = now, cr_ServiceTier = [], cr_SequenceNumber = 0,
       cr_CreatedSent = False, cr_CompletedSent = False, cr_nextOutputIndex = 0, cr_ReasoningItemID = [],
       cr_ReasoningIndex = 0, cr_ReasoningOpen = False, cr_ReasoningDone = False, cr_MessageItemID = [],
       cr_MessageIndex = 0, cr_TextPartOpen = False, cr_Text = [], cr_Reasoning = [], cr_ToolCalls = [],
       cr_ToolItemIDs = Map.empty, cr_ToolOutputIndex = Map.empty, cr_names = tn,
       cr_toolIsCustom = Map.empty, cr_toolIsToolSearch = Map.empty, cr_toolNamespace = Map.empty,
       cr_toolAnnounced = Map.empty, cr_FinishReason = [], cr_Usage = None, cr_rand = g'\<rparr>)"

definition ValidateToolCallArguments :: "cr_state \<Rightarrow> (string \<times> string) option" where
  \<comment> \<open>None is a nil error; otherwise the ID and name of the call the error message names\<close>
  "ValidateToolCallArguments s =
     map_option (\<lambda>(idx, tc). (ctc_ID tc, cfc_Name (ctc_Function tc)))
       (List.find (\<lambda>(idx, tc). \<not> get_or (cr_toolIsCustom s) False idx \<and> \<not> get_or (cr_toolIsToolSearch s) False idx
          \<and> TrimSpace (cfc_Arguments (ctc_Function tc)) \<noteq> []
          \<and> \<not> Valid (TrimSpace (cfc_Arguments (ctc_Function tc)))) (cr_ToolCalls s))"

section \<open>Event helpers\<close>

definition chatToResponsesEvent ::
  "string \<Rightarrow> ResponsesStreamEvent \<Rightarrow> cr_state \<Rightarrow> ResponsesStreamEvent list \<times> cr_state" where
  "chatToResponsesEvent eventType template s =
     ([template\<lparr>rse_Type := eventType, rse_SequenceNumber := cr_SequenceNumber s\<rparr>],
      s\<lparr>cr_SequenceNumber := cr_SequenceNumber s + 1\<rparr>)"

text \<open>Appending the events of several calls that thread the state.\<close>

fun emit_all :: "('s \<Rightarrow> 'o list \<times> 's) list \<Rightarrow> 's \<Rightarrow> 'o list \<times> 's" where
  "emit_all [] s = ([], s)"
| "emit_all (f # fs) s = (let (e1, s1) = f s; (e2, s2) = emit_all fs s1 in (e1 @ e2, s2))"

definition allocOutputIndex :: "cr_state \<Rightarrow> int \<times> cr_state" where
  "allocOutputIndex s = (cr_nextOutputIndex s, s\<lparr>cr_nextOutputIndex := cr_nextOutputIndex s + 1\<rparr>)"

definition cr_fresh :: "cr_state \<Rightarrow> string \<times> cr_state" where
  \<comment> \<open>\<open>generateItemID()\<close>\<close>
  "cr_fresh s = (let (i, g) = generateItemID (cr_rand s) in (i, s\<lparr>cr_rand := g\<rparr>))"

definition ensureChatToResponsesCreated :: "cr_state \<Rightarrow> ResponsesStreamEvent list \<times> cr_state" where
  "ensureChatToResponsesCreated s =
     (if cr_CreatedSent s then ([], s)
      else chatToResponsesEvent ''response.created''
        (zeroRSE\<lparr>rse_Response := Some (zeroResponse\<lparr>rr_ID := cr_ResponseID s, rr_Object := ''response'',
           rr_CreatedAt := cr_Created s, rr_Model := cr_Model s, rr_Status := ''in_progress'',
           rr_ServiceTier := cr_ServiceTier s, rr_Output := []\<rparr>)\<rparr>)
        (s\<lparr>cr_CreatedSent := True\<rparr>))"

definition ensureChatReasoningItem :: "cr_state \<Rightarrow> ResponsesStreamEvent list \<times> cr_state" where
  "ensureChatReasoningItem s =
     (if cr_ReasoningOpen s \<or> cr_ReasoningDone s then ([], s)
      else
        (let (i, s1) = cr_fresh (s\<lparr>cr_ReasoningOpen := True\<rparr>);
             (idx, s2) = allocOutputIndex (s1\<lparr>cr_ReasoningItemID := i\<rparr>);
             s3 = s2\<lparr>cr_ReasoningIndex := idx\<rparr>
         in emit_all
           [chatToResponsesEvent ''response.output_item.added''
              (zeroRSE\<lparr>rse_OutputIndex := cr_ReasoningIndex s3,
                 rse_Item := Some (zeroOutput\<lparr>ro_Type := ''reasoning'', ro_ID := cr_ReasoningItemID s3,
                   ro_Status := ''in_progress''\<rparr>)\<rparr>),
            chatToResponsesEvent ''response.reasoning_summary_part.added''
              (zeroRSE\<lparr>rse_OutputIndex := cr_ReasoningIndex s3, rse_SummaryIndex := 0,
                 rse_ItemID := cr_ReasoningItemID s3, rse_Part := Some (zeroPart\<lparr>rcp_Type := ''summary_text''\<rparr>)\<rparr>)] s3))"

definition closeChatReasoningItem :: "cr_state \<Rightarrow> ResponsesStreamEvent list \<times> cr_state" where
  "closeChatReasoningItem s0 =
     (if \<not> cr_ReasoningOpen s0 then ([], s0)
      else
        (let s = s0\<lparr>cr_ReasoningOpen := False, cr_ReasoningDone := True\<rparr>; reasoning = cr_Reasoning s in
         emit_all
           [chatToResponsesEvent ''response.reasoning_summary_text.done''
              (zeroRSE\<lparr>rse_OutputIndex := cr_ReasoningIndex s, rse_SummaryIndex := 0, rse_Text := reasoning,
                 rse_ItemID := cr_ReasoningItemID s\<rparr>),
            chatToResponsesEvent ''response.reasoning_summary_part.done''
              (zeroRSE\<lparr>rse_OutputIndex := cr_ReasoningIndex s, rse_SummaryIndex := 0,
                 rse_ItemID := cr_ReasoningItemID s,
                 rse_Part := Some (zeroPart\<lparr>rcp_Type := ''summary_text'', rcp_Text := reasoning\<rparr>)\<rparr>),
            chatToResponsesEvent ''response.output_item.done''
              (zeroRSE\<lparr>rse_OutputIndex := cr_ReasoningIndex s,
                 rse_Item := Some (zeroOutput\<lparr>ro_Type := ''reasoning'', ro_ID := cr_ReasoningItemID s,
                   ro_Status := ''completed'', ro_Summary := summary_of reasoning\<rparr>)\<rparr>)] s))"

definition ensureChatToResponsesMessageItem :: "cr_state \<Rightarrow> ResponsesStreamEvent list \<times> cr_state" where
  "ensureChatToResponsesMessageItem s =
     (if cr_MessageItemID s \<noteq> [] then ([], s)
      else
        (let (i, s1) = cr_fresh s;
             (idx, s2) = allocOutputIndex (s1\<lparr>cr_MessageItemID := i\<rparr>);
             s3 = s2\<lparr>cr_MessageIndex := idx\<rparr>
         in chatToResponsesEvent ''response.output_item.added''
              (zeroRSE\<lparr>rse_OutputIndex := cr_MessageIndex s3,
                 rse_Item := Some (zeroOutput\<lparr>ro_Type := ''message'', ro_ID := cr_MessageItemID s3,
                   ro_Role := ''assistant'', ro_Status := ''in_progress'',
                   ro_Content := [zeroPart\<lparr>rcp_Type := ''output_text''\<rparr>]\<rparr>)\<rparr>) s3))"

definition ensureChatToResponsesTextPart :: "cr_state \<Rightarrow> ResponsesStreamEvent list \<times> cr_state" where
  "ensureChatToResponsesTextPart s =
     (if cr_TextPartOpen s then ([], s)
      else chatToResponsesEvent ''response.content_part.added''
        (zeroRSE\<lparr>rse_OutputIndex := cr_MessageIndex s, rse_ContentIndex := 0, rse_ItemID := cr_MessageItemID s,
           rse_Part := Some (text_part [])\<rparr>)
        (s\<lparr>cr_TextPartOpen := True\<rparr>))"

definition message_text_delta :: "string \<Rightarrow> cr_state \<Rightarrow> ResponsesStreamEvent list \<times> cr_state" where
  \<comment> \<open>\<open>state.Text.WriteString\<close> and its \<open>output_text.delta\<close>\<close>
  "message_text_delta text s0 =
     (let s = s0\<lparr>cr_Text := cr_Text s0 @ text\<rparr> in
      chatToResponsesEvent ''response.output_text.delta''
        (zeroRSE\<lparr>rse_OutputIndex := cr_MessageIndex s, rse_ContentIndex := 0, rse_Delta := text,
           rse_ItemID := cr_MessageItemID s\<rparr>) s)"

definition customNameForStreamTool :: "cr_state \<Rightarrow> string \<Rightarrow> string" where
  "customNameForStreamTool s name =
     (case customToolCallName name (tn_custom (cr_names s)) (tn_function (cr_names s)) (tn_namespace (cr_names s)) of
        (customName, ok) \<Rightarrow> if ok then customName else name)"

section \<open>Tool calls\<close>

definition args_delta_event :: "int \<Rightarrow> ChatToolCall \<Rightarrow> string \<Rightarrow> cr_state \<Rightarrow> ResponsesStreamEvent list \<times> cr_state" where
  "args_delta_event idx stored delta s =
     chatToResponsesEvent ''response.function_call_arguments.delta''
       (zeroRSE\<lparr>rse_OutputIndex := get_or (cr_ToolOutputIndex s) 0 idx,
          rse_ItemID := get_or (cr_ToolItemIDs s) [] idx, rse_Delta := delta, rse_CallID := ctc_ID stored,
          rse_Name := cfc_Name (ctc_Function stored)\<rparr>) s"

definition announceChatToolItem ::
  "int \<Rightarrow> ChatToolCall \<Rightarrow> bool \<Rightarrow> cr_state \<Rightarrow> ResponsesStreamEvent list \<times> cr_state" where
  "announceChatToolItem idx stored force s =
     (let tn = cr_names s; name = cfc_Name (ctc_Function stored) in
      if get_or (cr_toolAnnounced s) False idx then ([], s)
      else if \<not> force \<and> name = []
          \<and> (tn_custom tn \<noteq> [] \<or> tn_function tn \<noteq> [] \<or> tn_toolSearch tn \<or> tn_namespace tn \<noteq> []) then ([], s)
      else
        (let (customName, isCustom) = customToolCallName name (tn_custom tn) (tn_function tn) (tn_namespace tn);
             isToolSearch = (\<not> isCustom \<and> tn_toolSearch tn \<and> name = toolSearchProxyName);
             s1 = s\<lparr>cr_toolAnnounced := (cr_toolAnnounced s)(idx \<mapsto> True),
                    cr_toolIsCustom := (cr_toolIsCustom s)(idx \<mapsto> isCustom),
                    cr_toolIsToolSearch := (cr_toolIsToolSearch s)(idx \<mapsto> isToolSearch)\<rparr>;
             itemType = (if isToolSearch then ''tool_search_call'' else if isCustom then ''custom_tool_call''
                         else ''function_call'');
             ns = (if \<not> isCustom \<and> \<not> isToolSearch then map_of (tn_namespace tn) name else None);
             s2 = (case ns of None \<Rightarrow> s1 | Some n \<Rightarrow> s1\<lparr>cr_toolNamespace := (cr_toolNamespace s1)(idx \<mapsto> n)\<rparr>);
             (itemName, itemNamespace) = (case ns of Some n \<Rightarrow> (ntn_Name n, ntn_Namespace n)
                | None \<Rightarrow> (if isCustom then customName else name, []));
             arguments = cfc_Arguments (ctc_Function stored)
         in emit_all
           [chatToResponsesEvent ''response.output_item.added''
              (zeroRSE\<lparr>rse_OutputIndex := get_or (cr_ToolOutputIndex s2) 0 idx,
                 rse_Item := Some (zeroOutput\<lparr>ro_Type := itemType, ro_ID := get_or (cr_ToolItemIDs s2) [] idx,
                   ro_CallID := ctc_ID stored, ro_Name := itemName, ro_Namespace := itemNamespace,
                   ro_Status := ''in_progress''\<rparr>)\<rparr>),
            (\<lambda>s. if \<not> isCustom \<and> \<not> isToolSearch \<and> arguments \<noteq> [] then args_delta_event idx stored arguments s
                 else ([], s))] s2))"

definition register_tool :: "int \<Rightarrow> ChatToolCall \<Rightarrow> cr_state \<Rightarrow> ResponsesStreamEvent list \<times> cr_state" where
  \<comment> \<open>the two branches on \<open>state.ToolCalls[idx]\<close>\<close>
  "register_tool idx toolCall s =
     (case map_of (cr_ToolCalls s) idx of
        None \<Rightarrow>
          (let (e1, s1) = closeChatReasoningItem s;
               (callID, s2) = (if ctc_ID toolCall = [] then cr_fresh s1 else (ctc_ID toolCall, s1));
               copyCall = toolCall\<lparr>ctc_ID := callID, ctc_Type := ''function'',
                 ctc_Function := (ctc_Function toolCall)\<lparr>cfc_Arguments := []\<rparr>\<rparr>;
               (itemID, s3) = cr_fresh (s2\<lparr>cr_ToolCalls := AList.update idx copyCall (cr_ToolCalls s2)\<rparr>);
               (o_idx, s4) = allocOutputIndex (s3\<lparr>cr_ToolItemIDs := (cr_ToolItemIDs s3)(idx \<mapsto> itemID)\<rparr>)
           in (e1, s4\<lparr>cr_ToolOutputIndex := (cr_ToolOutputIndex s4)(idx \<mapsto> o_idx)\<rparr>))
      | Some stored \<Rightarrow>
          (let name = cfc_Name (ctc_Function toolCall);
               stored1 = (if ctc_ID toolCall \<noteq> [] then stored\<lparr>ctc_ID := ctc_ID toolCall\<rparr> else stored);
               stored2 = (if name \<noteq> [] then stored1\<lparr>ctc_Function := (ctc_Function stored1)\<lparr>cfc_Name := name\<rparr>\<rparr>
                          else stored1)
           in ([], s\<lparr>cr_ToolCalls := AList.update idx stored2 (cr_ToolCalls s)\<rparr>)))"

definition stored_call :: "int \<Rightarrow> cr_state \<Rightarrow> ChatToolCall" where
  \<comment> \<open>\<open>*stored\<close>, once the call is registered\<close>
  "stored_call idx s = (case map_of (cr_ToolCalls s) idx of None \<Rightarrow> zeroToolCall | Some tc \<Rightarrow> tc)"

definition accumulate_args :: "int \<Rightarrow> string \<Rightarrow> cr_state \<Rightarrow> ResponsesStreamEvent list \<times> cr_state" where
  "accumulate_args idx arguments s =
     (if arguments = [] then ([], s)
      else
        (let stored = stored_call idx s;
             stored' = stored\<lparr>ctc_Function := (ctc_Function stored)
                 \<lparr>cfc_Arguments := cfc_Arguments (ctc_Function stored) @ arguments\<rparr>\<rparr>;
             s1 = s\<lparr>cr_ToolCalls := AList.update idx stored' (cr_ToolCalls s)\<rparr>
         in if get_or (cr_toolAnnounced s1) False idx \<and> \<not> get_or (cr_toolIsCustom s1) False idx
               \<and> \<not> get_or (cr_toolIsToolSearch s1) False idx
            then args_delta_event idx stored' arguments s1 else ([], s1)))"

definition cr_tool_step :: "ChatToolCall \<Rightarrow> cr_state \<Rightarrow> ResponsesStreamEvent list \<times> cr_state" where
  \<comment> \<open>the body of the loop over \<open>choice.Delta.ToolCalls\<close>\<close>
  "cr_tool_step toolCall s =
     (let idx = (case ctc_Index toolCall of None \<Rightarrow> 0 | Some i \<Rightarrow> i) in
      emit_all [register_tool idx toolCall,
        (\<lambda>s. announceChatToolItem idx (stored_call idx s) False s),
        accumulate_args idx (cfc_Arguments (ctc_Function toolCall))] s)"

definition close_tool :: "int \<Rightarrow> cr_state \<Rightarrow> ResponsesStreamEvent list \<times> cr_state" where
  \<comment> \<open>the body of the loop in \<open>closeChatToolItems\<close>\<close>
  "close_tool i s =
     (case (map_of (cr_ToolCalls s) i, cr_ToolItemIDs s i) of
        (Some toolCall, Some itemID) \<Rightarrow>
          (let (e1, s1) = announceChatToolItem i toolCall True s;
               arguments = args_or_empty_object (cfc_Arguments (ctc_Function toolCall));
               outputIndex = get_or (cr_ToolOutputIndex s1) 0 i;
               fname = cfc_Name (ctc_Function toolCall);
               (e2, s2) =
                 (if get_or (cr_toolIsCustom s1) False i then
                    (let inp = extractCustomToolCallInput arguments; name = customNameForStreamTool s1 fname in
                     emit_all
                       [(\<lambda>s. if inp \<noteq> [] then chatToResponsesEvent ''response.custom_tool_call_input.delta''
                           (zeroRSE\<lparr>rse_OutputIndex := outputIndex, rse_ItemID := itemID, rse_Delta := inp\<rparr>) s
                         else ([], s)),
                        chatToResponsesEvent ''response.custom_tool_call_input.done''
                          (zeroRSE\<lparr>rse_OutputIndex := outputIndex, rse_ItemID := itemID, rse_CallID := ctc_ID toolCall,
                             rse_Name := name, rse_Input := inp\<rparr>),
                        chatToResponsesEvent ''response.output_item.done''
                          (zeroRSE\<lparr>rse_OutputIndex := outputIndex,
                             rse_Item := Some (custom_call_item itemID (ctc_ID toolCall) name inp)\<rparr>)] s1)
                  else if get_or (cr_toolIsToolSearch s1) False i then
                    chatToResponsesEvent ''response.output_item.done''
                      (zeroRSE\<lparr>rse_OutputIndex := outputIndex,
                         rse_Item := Some (search_call_item itemID (ctc_ID toolCall) arguments)\<rparr>) s1
                  else
                    (let (name, namespace) = (case cr_toolNamespace s1 i of None \<Rightarrow> (fname, [])
                           | Some ns \<Rightarrow> (ntn_Name ns, ntn_Namespace ns))
                     in emit_all
                       [chatToResponsesEvent ''response.function_call_arguments.done''
                          (zeroRSE\<lparr>rse_OutputIndex := outputIndex, rse_ItemID := itemID, rse_CallID := ctc_ID toolCall,
                             rse_Name := name, rse_Arguments := arguments\<rparr>),
                        chatToResponsesEvent ''response.output_item.done''
                          (zeroRSE\<lparr>rse_OutputIndex := outputIndex,
                             rse_Item := Some (function_call_item itemID (ctc_ID toolCall) name namespace arguments)\<rparr>)] s1))
           in (e1 @ e2, s2))
      | _ \<Rightarrow> ([], s))"

definition closeChatToolItems :: "cr_state \<Rightarrow> ResponsesStreamEvent list \<times> cr_state" where
  "closeChatToolItems s = run_conv close_tool (map int [0..<length (cr_ToolCalls s)]) s"

section \<open>Chunks\<close>

definition cr_reasoning_part :: "ChatDelta \<Rightarrow> cr_state \<Rightarrow> ResponsesStreamEvent list \<times> cr_state" where
  "cr_reasoning_part d s =
     (case delta_reasoningText d of None \<Rightarrow> ([], s)
      | Some reasoning \<Rightarrow>
        if reasoning = [] then ([], s)
        else emit_all [ensureChatReasoningItem,
          (\<lambda>s0. let s = s0\<lparr>cr_Reasoning := cr_Reasoning s0 @ reasoning\<rparr> in
            chatToResponsesEvent ''response.reasoning_summary_text.delta''
              (zeroRSE\<lparr>rse_OutputIndex := cr_ReasoningIndex s, rse_SummaryIndex := 0, rse_Delta := reasoning,
                 rse_ItemID := cr_ReasoningItemID s\<rparr>) s)] s)"

definition cr_content_part :: "ChatDelta \<Rightarrow> cr_state \<Rightarrow> ResponsesStreamEvent list \<times> cr_state" where
  "cr_content_part d s =
     (case cd_Content d of None \<Rightarrow> ([], s)
      | Some content \<Rightarrow>
        if content = [] then ([], s)
        else emit_all [closeChatReasoningItem, ensureChatToResponsesMessageItem, ensureChatToResponsesTextPart,
               message_text_delta content] s)"

definition cr_choice_step :: "ChatChunkChoice \<Rightarrow> cr_state \<Rightarrow> ResponsesStreamEvent list \<times> cr_state" where
  "cr_choice_step choice s =
     (let d = ccc_Delta choice in
      emit_all [cr_reasoning_part d, cr_content_part d, run_conv cr_tool_step (cd_ToolCalls d),
        (\<lambda>s. ([], case ccc_FinishReason choice of None \<Rightarrow> s
           | Some r \<Rightarrow> if r \<noteq> [] then s\<lparr>cr_FinishReason := r\<rparr> else s))] s)"

definition cr_chunk_header :: "ChatCompletionsChunk \<Rightarrow> cr_state \<Rightarrow> cr_state" where
  "cr_chunk_header chunk s =
     (let s1 = (if cck_ID chunk \<noteq> [] then s\<lparr>cr_ResponseID := cck_ID chunk\<rparr> else s);
          s2 = (if cr_Model s1 = [] \<and> cck_Model chunk \<noteq> [] then s1\<lparr>cr_Model := cck_Model chunk\<rparr> else s1);
          s3 = (if cck_ServiceTier chunk \<noteq> [] then s2\<lparr>cr_ServiceTier := cck_ServiceTier chunk\<rparr> else s2)
      in if cck_Usage chunk \<noteq> None then s3\<lparr>cr_Usage := ChatUsageToResponsesUsage (cck_Usage chunk)\<rparr> else s3)"

definition cr_chunk_step :: "ChatCompletionsChunk \<Rightarrow> cr_state \<Rightarrow> ResponsesStreamEvent list \<times> cr_state" where
  \<comment> \<open>\<open>ChatCompletionsChunkToResponsesEvents\<close> after its nil checks\<close>
  "cr_chunk_step chunk s =
     emit_all [ensureChatToResponsesCreated, run_conv cr_choice_step (cck_Choices chunk)] (cr_chunk_header chunk s)"

definition ChatCompletionsChunkToResponsesEvents ::
  "ChatCompletionsChunk option \<Rightarrow> cr_state option \<Rightarrow> ResponsesStreamEvent list \<times> cr_state option" where
  "ChatCompletionsChunkToResponsesEvents chunk state =
     (case (chunk, state) of
        (Some c, Some s) \<Rightarrow> (case cr_chunk_step c s of (es, s') \<Rightarrow> (es, Some s'))
      | _ \<Rightarrow> ([], state))"

section \<open>The end of the stream\<close>

definition synthesizeChatReasoningFallbackMessage :: "cr_state \<Rightarrow> ResponsesStreamEvent list \<times> cr_state" where
  "synthesizeChatReasoningFallbackMessage s =
     (if cr_MessageItemID s \<noteq> [] \<or> cr_Text s \<noteq> [] \<or> cr_Reasoning s = [] \<or> cr_ToolCalls s \<noteq> []
         \<or> TrimSpace (cr_Reasoning s) = [] then ([], s)
      else emit_all [ensureChatToResponsesMessageItem, ensureChatToResponsesTextPart,
             message_text_delta (cr_Reasoning s)] s)"

definition close_message :: "cr_state \<Rightarrow> ResponsesStreamEvent list \<times> cr_state" where
  \<comment> \<open>the \<open>if state.MessageItemID != ""\<close> block of the finaliser\<close>
  "close_message s =
     (if cr_MessageItemID s = [] then ([], s)
      else emit_all
        [(\<lambda>s. if cr_TextPartOpen s then emit_all
            [chatToResponsesEvent ''response.output_text.done''
               (zeroRSE\<lparr>rse_OutputIndex := cr_MessageIndex s, rse_ContentIndex := 0, rse_Text := cr_Text s,
                  rse_ItemID := cr_MessageItemID s\<rparr>),
             chatToResponsesEvent ''response.content_part.done''
               (zeroRSE\<lparr>rse_OutputIndex := cr_MessageIndex s, rse_ContentIndex := 0, rse_ItemID := cr_MessageItemID s,
                  rse_Part := Some (text_part (cr_Text s))\<rparr>)] s
          else ([], s)),
         chatToResponsesEvent ''response.output_item.done''
           (zeroRSE\<lparr>rse_OutputIndex := cr_MessageIndex s,
              rse_Item := Some (message_item (cr_MessageItemID s) [text_part (cr_Text s)])\<rparr>)] s)"

definition chat_output_tool :: "int \<Rightarrow> cr_state \<Rightarrow> ResponsesOutput list \<times> cr_state" where
  \<comment> \<open>the body of the loop in \<open>chatOutput\<close>\<close>
  "chat_output_tool i s =
     (case map_of (cr_ToolCalls s) i of None \<Rightarrow> ([], s)
      | Some toolCall \<Rightarrow>
        (let arguments = args_or_empty_object (cfc_Arguments (ctc_Function toolCall));
             fname = cfc_Name (ctc_Function toolCall);
             (j, s1) = cr_fresh s;
             (name, namespace) = (case cr_toolNamespace s i of None \<Rightarrow> (fname, [])
                | Some ns \<Rightarrow> (ntn_Name ns, ntn_Namespace ns))
         in ([if get_or (cr_toolIsCustom s) False i then
                custom_call_item j (ctc_ID toolCall) (customNameForStreamTool s fname) (extractCustomToolCallInput arguments)
              else if get_or (cr_toolIsToolSearch s) False i then search_call_item j (ctc_ID toolCall) arguments
              else function_call_item j (ctc_ID toolCall) name namespace arguments], s1)))"

definition chatOutput :: "cr_state \<Rightarrow> ResponsesOutput list \<times> cr_state" where
  "chatOutput s =
     emit_all
       [(\<lambda>s. if cr_Reasoning s \<noteq> [] then
            (let (i, s1) = cr_fresh s in
             ([zeroOutput\<lparr>ro_Type := ''reasoning'', ro_ID := i, ro_Summary := summary_of (cr_Reasoning s)\<rparr>], s1))
          else ([], s)),
        (\<lambda>s. if cr_MessageItemID s \<noteq> [] \<or> cr_ToolCalls s = [] then
            (let (i, s1) = cr_fresh s in
             ([message_item (if cr_MessageItemID s \<noteq> [] then cr_MessageItemID s else i) [text_part (cr_Text s)]], s1))
          else ([], s)),
        run_conv chat_output_tool (map int [0..<length (cr_ToolCalls s)])] s"

definition complete_response :: "cr_state \<Rightarrow> ResponsesStreamEvent list \<times> cr_state" where
  "complete_response s0 =
     (let len = (cr_FinishReason s0 = ''length'');
          (items, s) = chatOutput (s0\<lparr>cr_CompletedSent := True\<rparr>)
      in chatToResponsesEvent ''response.completed''
           (zeroRSE\<lparr>rse_Response := Some (zeroResponse\<lparr>rr_ID := cr_ResponseID s, rr_Object := ''response'',
              rr_CreatedAt := cr_Created s, rr_Model := cr_Model s,
              rr_Status := (if len then ''incomplete'' else ''completed''),
              rr_ServiceTier := cr_ServiceTier s, rr_Output := items, rr_Usage := cr_Usage s,
              rr_IncompleteDetails := (if len then Some \<lparr>rid_Reason = ''max_output_tokens''\<rparr> else None)\<rparr>)\<rparr>) s)"

definition cr_finalize_step :: "cr_state \<Rightarrow> ResponsesStreamEvent list \<times> cr_state" where
  "cr_finalize_step s =
     (if cr_CompletedSent s then ([], s)
      else emit_all [ensureChatToResponsesCreated, closeChatReasoningItem, synthesizeChatReasoningFallbackMessage,
             close_message, closeChatToolItems, complete_response] s)"

definition FinalizeChatCompletionsResponsesStream ::
  "cr_state option \<Rightarrow> ResponsesStreamEvent list \<times> cr_state option" where
  "FinalizeChatCompletionsResponsesStream state =
     (case state of None \<Rightarrow> ([], None)
      | Some s \<Rightarrow> (case cr_finalize_step s of (es, s') \<Rightarrow> (es, Some s')))"

end
