(* ===== verification/ChatConversionsAgree.thy ===== *)
theory ChatConversionsAgree
  imports ChatToResponses ChatToAnthropic
begin

text \<open>
  \<open>ChatCompletionsResponseToAnthropic\<close> is documented as equivalent to the composition of
  \<open>ChatCompletionsResponseToResponses\<close> and \<open>ResponsesToAnthropic\<close>.  This theory proves it
  for the answers described by \<open>plain_chat\<close>.
\<close>

section \<open>The direct conversion and the composition\<close>

lemma no_custom [simp]: "customToolCallName name [] [] [] = ([], False)"
  by (simp add: customToolCallName_def)

text \<open>The chat answers on which the two agree.\<close>

definition usage_counts_ok :: "ChatUsage option \<Rightarrow> bool" where
  "usage_counts_ok usage = (case usage of None \<Rightarrow> True
     | Some u \<Rightarrow> (case cu_PromptTokensDetails u of None \<Rightarrow> True
         | Some d \<Rightarrow> 0 \<le> ctd_CachedTokens d \<and> 0 \<le> ctd_CacheCreationTokens d \<and> 0 \<le> ctd_CacheWriteTokens d))"

definition plain_message :: "ChatMessage \<Rightarrow> bool" where
  "plain_message m \<longleftrightarrow>
     list_all (\<lambda>tc. Valid (args_or_empty_object (cfc_Arguments (ctc_Function tc)))) (cm_ToolCalls m)
     \<and> (message_reasoningText m \<noteq> [] \<longrightarrow> TrimSpace (message_reasoningText m) \<noteq> [])"

definition plain_chat :: "ChatCompletionsResponse \<Rightarrow> bool" where
  "plain_chat r \<longleftrightarrow> usage_counts_ok (ccr_Usage r)
     \<and> (case ccr_Choices r of [] \<Rightarrow> True
        | ch # _ \<Rightarrow> plain_message (cc_Message ch) \<and> (cc_FinishReason ch = ''tool_calls'' \<longrightarrow> cm_ToolCalls (cc_Message ch) \<noteq> []))"

lemma usage_direct:
  assumes "usage_counts_ok u"
  shows "anthropicUsageFromResponsesUsage (ChatUsageToResponsesUsage u) = chatUsageToAnthropicUsage u"
proof (cases u)
  case None
  then show ?thesis
    by (simp add: anthropicUsageFromResponsesUsage_def ChatUsageToResponsesUsage_def chatUsageToAnthropicUsage_def)
next
  case (Some c)
  show ?thesis
  proof (cases "cu_PromptTokensDetails c")
    case None
    with Some show ?thesis
      by (simp add: anthropicUsageFromResponsesUsage_def ChatUsageToResponsesUsage_def chatUsageToAnthropicUsage_def
          zeroResponsesUsage_def Let_def)
  next
    case d: (Some d)
    with Some assms have "0 \<le> ctd_CachedTokens d" "0 \<le> ctd_CacheCreationTokens d" "0 \<le> ctd_CacheWriteTokens d"
      by (simp_all add: usage_counts_ok_def)
    with Some d show ?thesis
      by (cases "ctd_CachedTokens d > 0 \<or> ctd_CacheCreationTokens d > 0 \<or> ctd_CacheWriteTokens d > 0")
         (auto simp: anthropicUsageFromResponsesUsage_def ChatUsageToResponsesUsage_def chatUsageToAnthropicUsage_def
          zeroResponsesUsage_def zeroInputDetails_def Let_def)
  qed
qed

definition tool_block :: "ChatToolCall \<Rightarrow> AnthropicContentBlock" where
  "tool_block toolCall = zeroBlock\<lparr>acb_Type := ''tool_use'', acb_ID := fromResponsesCallID (ctc_ID toolCall),
     acb_Name := cfc_Name (ctc_Function toolCall),
     acb_Input := sanitizeAnthropicToolUseInput (cfc_Name (ctc_Function toolCall))
       (args_or_empty_object (cfc_Arguments (ctc_Function toolCall)))\<rparr>"

definition blocks_of :: "ResponsesOutput list \<Rightarrow> AnthropicContentBlock list" where
  "blocks_of items = concat (map item_to_anthropic_blocks items)"

lemma blocks_of_simps [simp]:
  "blocks_of [] = []" "blocks_of (x # xs) = item_to_anthropic_blocks x @ blocks_of xs"
  "blocks_of (xs @ ys) = blocks_of xs @ blocks_of ys"
  by (simp_all add: blocks_of_def)

lemma item_blocks [simp]:
  "item_to_anthropic_blocks (function_call_item i c n ns a)
     = [zeroBlock\<lparr>acb_Type := ''tool_use'', acb_ID := fromResponsesCallID c, acb_Name := n,
          acb_Input := sanitizeAnthropicToolUseInput n a\<rparr>]"
  "item_to_anthropic_blocks (message_item i [text_part t]) = (if t = [] then [] else [zeroBlock\<lparr>acb_Type := ''text'', acb_Text := t\<rparr>])"
  "r \<noteq> [] \<Longrightarrow> item_to_anthropic_blocks (zeroOutput\<lparr>ro_Type := ''reasoning'', ro_ID := i, ro_Summary := summary_of r\<rparr>)
     = [zeroBlock\<lparr>acb_Type := ''thinking'', acb_Thinking := r\<rparr>]"
  by (simp_all add: item_to_anthropic_blocks_def function_call_item_def message_item_def text_part_def
      summary_of_def summary_text_def Let_def zeroBlock_def)

lemma tool_items_blocks:
  assumes "list_all (\<lambda>tc. Valid (args_or_empty_object (cfc_Arguments (ctc_Function tc)))) tcs"
    and "fold (tool_call_to_item no_tool_names) tcs (outs, g) = (outs', g')"
  shows "blocks_of outs' = blocks_of outs @ map tool_block tcs \<and> length outs' = length outs + length tcs"
  using assms
proof (induction tcs arbitrary: outs g)
  case (Cons tc tcs)
  obtain i g1 where i: "generateItemID g = (i, g1)" by fastforce
  let ?n = "cfc_Name (ctc_Function tc)" and ?a = "args_or_empty_object (cfc_Arguments (ctc_Function tc))"
  have "tool_call_to_item no_tool_names tc (outs, g) = (outs @ [function_call_item i (ctc_ID tc) ?n [] ?a], g1)"
    using Cons.prems(1) by (simp add: tool_call_to_item_def i no_tool_names_def Let_def)
  with Cons.prems have "fold (tool_call_to_item no_tool_names) tcs (outs @ [function_call_item i (ctc_ID tc) ?n [] ?a], g1) = (outs', g')"
    by simp
  from Cons.IH [OF _ this] Cons.prems(1) show ?case by (simp add: tool_block_def)
qed simp

definition direct_text :: "ChatMessage \<Rightarrow> string" where
  "direct_text m = (if chatMessageContentText (cm_Content m) = [] \<and> TrimSpace (message_reasoningText m) \<noteq> []
      \<and> cm_ToolCalls m = [] then message_reasoningText m else chatMessageContentText (cm_Content m))"

definition think_block :: "string \<Rightarrow> AnthropicContentBlock list" where
  "think_block r = (if r \<noteq> [] then [zeroBlock\<lparr>acb_Type := ''thinking'', acb_Thinking := r\<rparr>] else [])"

definition text_block :: "string \<Rightarrow> AnthropicContentBlock" where
  "text_block t = zeroBlock\<lparr>acb_Type := ''text'', acb_Text := t\<rparr>"

lemma direct_message_blocks:
  "chatMessageToAnthropicBlocks m = think_block (message_reasoningText m)
     @ (if direct_text m \<noteq> [] \<or> cm_ToolCalls m = [] then [text_block (direct_text m)] else []) @ map tool_block (cm_ToolCalls m)"
  by (simp only: chatMessageToAnthropicBlocks_def Let_def tool_block_def [abs_def] direct_text_def think_block_def text_block_def)

lemma composed_message_blocks:
  assumes pm: "plain_message m" and out: "chatMessageToResponsesOutput m no_tool_names g = (items, g')"
  shows "blocks_of items = think_block (message_reasoningText m)
     @ (if direct_text m \<noteq> [] then [text_block (direct_text m)] else []) @ map tool_block (cm_ToolCalls m)"
    and "items \<noteq> []"
proof -
  let ?r = "message_reasoningText m" and ?tcs = "cm_ToolCalls m"
  obtain o1 g1 where 1: "(if ?r \<noteq> [] then (let (i, g') = generateItemID g in
               ([zeroOutput\<lparr>ro_Type := ''reasoning'', ro_ID := i, ro_Summary := summary_of ?r\<rparr>], g'))
            else ([], g)) = (o1, g1)" by fastforce
  obtain o2 g2 where 2: "(if direct_text m \<noteq> [] \<or> ?tcs = [] then
              (let (i, g') = generateItemID g1 in (o1 @ [message_item i [text_part (direct_text m)]], g')) else (o1, g1)) = (o2, g2)"
    by fastforce
  have 3: "fold (tool_call_to_item no_tool_names) ?tcs (o2, g2) = (items, g')"
    using out
    by (simp only: chatMessageToResponsesOutput_def Let_def 1 [unfolded Let_def] prod.case direct_text_def [symmetric]
        2 [unfolded Let_def])
  have b1: "blocks_of o1 = think_block ?r"
    using 1 by (cases "?r = []") (auto simp: think_block_def Let_def split: prod.splits)
  have b2: "blocks_of o2 = blocks_of o1 @ (if direct_text m \<noteq> [] then [text_block (direct_text m)] else [])"
      "o2 \<noteq> [] \<or> ?tcs \<noteq> []"
    using 2 by (cases "direct_text m = []"; cases "?tcs = []"; auto simp: text_block_def Let_def split: prod.splits)+
  from tool_items_blocks [OF _ 3] pm have b3: "blocks_of items = blocks_of o2 @ map tool_block ?tcs"
      "length items = length o2 + length ?tcs"
    by (auto simp: plain_message_def)
  from b3(2) b2(2) show "items \<noteq> []" by auto
  from b1 b2(1) b3(1) show "blocks_of items = think_block ?r
     @ (if direct_text m \<noteq> [] then [text_block (direct_text m)] else []) @ map tool_block ?tcs" by simp
qed

lemma direct_blocks:
  assumes pm: "plain_message m" and out: "chatMessageToResponsesOutput m no_tool_names g = (items, g')"
  shows "(if blocks_of items = [] then [text_block []] else blocks_of items) = chatMessageToAnthropicBlocks m"
proof (cases "direct_text m = [] \<and> cm_ToolCalls m = []")
  case True
  then have "message_reasoningText m = []" using pm by (auto simp: plain_message_def direct_text_def split: if_splits)
  with True show ?thesis
    unfolding direct_message_blocks composed_message_blocks [OF assms] by (simp add: think_block_def)
next
  case False
  then show ?thesis
    unfolding direct_message_blocks composed_message_blocks [OF assms] by auto
qed

definition chat_id :: "ChatCompletionsResponse \<Rightarrow> rng \<Rightarrow> string" where
  "chat_id r g = (if ccr_ID r = [] then fst (generateResponsesID g) else ccr_ID r)"

definition chat_model :: "string \<Rightarrow> ChatCompletionsResponse \<Rightarrow> string" where
  "chat_model model r = (if model = [] then ccr_Model r else model)"

definition chat_blocks :: "ChatCompletionsResponse \<Rightarrow> AnthropicContentBlock list" where
  "chat_blocks r = (case ccr_Choices r of [] \<Rightarrow> [text_block []] | ch # _ \<Rightarrow> chatMessageToAnthropicBlocks (cc_Message ch))"

definition chat_reason :: "ChatCompletionsResponse \<Rightarrow> string" where
  "chat_reason r = (case ccr_Choices r of [] \<Rightarrow> [] | ch # _ \<Rightarrow> cc_FinishReason ch)"

lemma direct_nonempty: "chatMessageToAnthropicBlocks m \<noteq> []"
  by (auto simp: direct_message_blocks)

lemma stop_reason_nonempty [simp]: "chatFinishReasonToAnthropicStopReason r bs \<noteq> []"
  by (simp add: chatFinishReasonToAnthropicStopReason_def)

lemma text_block_empty: "text_block [] = zeroBlock\<lparr>acb_Type := ''text''\<rparr>"
  by (simp add: text_block_def zeroBlock_def)

lemma direct_shape:
  "fst (ChatCompletionsResponseToAnthropic (Some r) model g) =
     zeroAnthropicResponse\<lparr>ar_ID := chat_id r g, ar_Type := ''message'', ar_Role := ''assistant'',
       ar_Model := chat_model model r, ar_Content := chat_blocks r,
       ar_StopReason := Some (chatFinishReasonToAnthropicStopReason (chat_reason r) (chat_blocks r)),
       ar_Usage := (if ccr_Usage r \<noteq> None then chatUsageToAnthropicUsage (ccr_Usage r) else zeroAnthropicUsage)\<rparr>"
proof (cases "ccr_Choices r")
  case Nil
  then show ?thesis
    by (cases "ccr_Usage r"; cases "ccr_ID r = []")
       (simp_all add: ChatCompletionsResponseToAnthropic_def Let_def chat_id_def chat_model_def chat_blocks_def chat_reason_def
        AnthropicStopReasonPtr_def AnthropicStopReasonString_def text_block_empty zeroAnthropicResponse_def split: prod.split)
next
  case (Cons ch chs)
  then show ?thesis
    by (cases "ccr_Usage r"; cases "ccr_ID r = []")
       (simp_all add: ChatCompletionsResponseToAnthropic_def Let_def chat_id_def chat_model_def chat_blocks_def chat_reason_def
        AnthropicStopReasonPtr_def AnthropicStopReasonString_def direct_nonempty zeroAnthropicResponse_def split: prod.split)
qed

lemma composed_response:
  assumes "plain_chat r" and c: "fst (ChatCompletionsResponseToResponses (Some r) model no_tool_names now g) = rr"
  shows "rr_ID rr = chat_id r g" "rr_Model rr = chat_model model r"
    "(if blocks_of (rr_Output rr) = [] then [text_block []] else blocks_of (rr_Output rr)) = chat_blocks r"
    "rr_Status rr = (if chat_reason r = ''length'' then ''incomplete'' else ''completed'')"
    "rr_IncompleteDetails rr = (if chat_reason r = ''length'' then Some \<lparr>rid_Reason = ''max_output_tokens''\<rparr> else None)"
    "rr_Usage rr = ChatUsageToResponsesUsage (ccr_Usage r)"
proof -
  obtain i g1 where 1: "(if ccr_ID r = [] then generateResponsesID g else (ccr_ID r, g)) = (i, g1)" by fastforce
  have i: "i = chat_id r g" using 1 by (auto simp: chat_id_def split: if_splits)
  have none: "ChatUsageToResponsesUsage None = None" by (simp add: ChatUsageToResponsesUsage_def)
  have "rr_ID rr = chat_id r g \<and> rr_Model rr = chat_model model r
    \<and> (if blocks_of (rr_Output rr) = [] then [text_block []] else blocks_of (rr_Output rr)) = chat_blocks r
    \<and> rr_Status rr = (if chat_reason r = ''length'' then ''incomplete'' else ''completed'')
    \<and> rr_IncompleteDetails rr = (if chat_reason r = ''length'' then Some \<lparr>rid_Reason = ''max_output_tokens''\<rparr> else None)
    \<and> rr_Usage rr = ChatUsageToResponsesUsage (ccr_Usage r)"
  proof (cases "ccr_Choices r")
    case Nil
    obtain j g2 where 2: "generateItemID g1 = (j, g2)" by fastforce
    show ?thesis
      unfolding c [symmetric]
      by (cases "ccr_Usage r")
         (simp_all add: ChatCompletionsResponseToResponses_def Let_def Nil 1 [unfolded i] i 2 emptyResponsesMessageOutput_def
          chat_model_def chat_blocks_def chat_reason_def none)
  next
    case (Cons ch chs)
    obtain items g2 where 2: "chatMessageToResponsesOutput (cc_Message ch) no_tool_names g1 = (items, g2)" by fastforce
    have pm: "plain_message (cc_Message ch)" using assms(1) Cons by (simp add: plain_chat_def)
    note ne = composed_message_blocks(2) [OF pm 2]
    have bl: "(if blocks_of items = [] then [text_block []] else blocks_of items) = chat_blocks r"
      using direct_blocks [OF pm 2] by (simp add: chat_blocks_def Cons)
    show ?thesis
      unfolding c [symmetric] bl [symmetric]
      by (cases "ccr_Usage r"; cases "cc_FinishReason ch = ''length''")
         (simp_all add: ChatCompletionsResponseToResponses_def Let_def Cons 1 [unfolded i] i 2 ne
          chat_model_def chat_reason_def none zeroResponse_def)
  qed
  then show "rr_ID rr = chat_id r g" "rr_Model rr = chat_model model r"
    "(if blocks_of (rr_Output rr) = [] then [text_block []] else blocks_of (rr_Output rr)) = chat_blocks r"
    "rr_Status rr = (if chat_reason r = ''length'' then ''incomplete'' else ''completed'')"
    "rr_IncompleteDetails rr = (if chat_reason r = ''length'' then Some \<lparr>rid_Reason = ''max_output_tokens''\<rparr> else None)"
    "rr_Usage rr = ChatUsageToResponsesUsage (ccr_Usage r)" by blast+
qed

lemma tools_in_blocks: "cm_ToolCalls m \<noteq> [] \<Longrightarrow> containsAnthropicToolUseBlock (chatMessageToAnthropicBlocks m)"
  by (cases "cm_ToolCalls m") (simp_all add: direct_message_blocks containsAnthropicToolUseBlock_def tool_block_def)

lemma stop_reason_agrees:
  assumes "plain_chat r"
  shows "responsesStatusToAnthropicStopReason (if chat_reason r = ''length'' then ''incomplete'' else ''completed'')
      (if chat_reason r = ''length'' then Some \<lparr>rid_Reason = ''max_output_tokens''\<rparr> else None) (chat_blocks r)
    = chatFinishReasonToAnthropicStopReason (chat_reason r) (chat_blocks r)"
proof (cases "chat_reason r = ''tool_calls''")
  case True
  then obtain ch chs where ch: "ccr_Choices r = ch # chs" "cc_FinishReason ch = ''tool_calls''"
    by (auto simp: chat_reason_def split: list.splits)
  with assms have "cm_ToolCalls (cc_Message ch) \<noteq> []" by (simp add: plain_chat_def)
  from tools_in_blocks [OF this] True ch show ?thesis
    by (simp add: responsesStatusToAnthropicStopReason_def chatFinishReasonToAnthropicStopReason_def chat_blocks_def)
next
  case False
  then show ?thesis
    by (simp add: responsesStatusToAnthropicStopReason_def chatFinishReasonToAnthropicStopReason_def)
qed

lemma composition_agrees:
  assumes "plain_chat r" and c: "fst (ChatCompletionsResponseToResponses (Some r) model no_tool_names now g) = rr"
  shows "ResponsesToAnthropic rr (rr_Model rr) = fst (ChatCompletionsResponseToAnthropic (Some r) model g)"
proof -
  note f = composed_response [OF assms]
  have u: "usage_counts_ok (ccr_Usage r)" using assms(1) by (simp add: plain_chat_def)
  have n: "(ChatUsageToResponsesUsage (ccr_Usage r) \<noteq> None) = (ccr_Usage r \<noteq> None)"
    by (cases "ccr_Usage r") (simp_all add: ChatUsageToResponsesUsage_def Let_def)
  show ?thesis
    unfolding direct_shape ResponsesToAnthropic_def Let_def blocks_of_def [symmetric] text_block_empty [symmetric]
      f(1,2,4,5,6) f(3) n usage_direct [OF u] stop_reason_agrees [OF assms(1)] AnthropicStopReasonPtr_def
    by simp
qed

end
