(* ===== verification/ChatToResponsesCorrect.thy ===== *)
theory ChatToResponsesCorrect
  imports ChatToResponses Protocols
begin

text \<open>
The stream from Chat Completions to Responses: the events are numbered consecutively from zero, and the
arguments a function call is closed with are the ones that were streamed for it.
\<close>

section \<open>Sequence numbers\<close>

definition number_accept :: "int \<Rightarrow> ResponsesStreamEvent \<Rightarrow> int option" where
  "number_accept n e = (if rse_SequenceNumber e = n then Some (n + 1) else None)"

lemma number_accept_run:
  "run_acc number_accept n es = Some m \<longleftrightarrow> m = n + int (length es) \<and> (\<forall>i<length es. rse_SequenceNumber (es ! i) = n + int i)"
  by (induction es arbitrary: n) (auto simp: number_accept_def nth_Cons' less_Suc_eq_0_disj split: if_splits)

definition cr_numbered :: "cr_state \<Rightarrow> ResponsesStreamEvent list \<times> cr_state \<Rightarrow> bool" where
  "cr_numbered s r \<longleftrightarrow> run_acc number_accept (cr_SequenceNumber s) (fst r) = Some (cr_SequenceNumber (snd r))"

lemma numbered_append: "cr_numbered s (e1, s1) \<Longrightarrow> cr_numbered s1 (e2, s2) \<Longrightarrow> cr_numbered s (e1 @ e2, s2)"
  by (auto simp: cr_numbered_def)

lemma numbered_event: "cr_SequenceNumber s1 = cr_SequenceNumber s \<Longrightarrow> cr_numbered s (chatToResponsesEvent t e s1)"
  by (simp add: cr_numbered_def chatToResponsesEvent_def number_accept_def)

lemma numbered_Nil: "cr_SequenceNumber s' = cr_SequenceNumber s \<Longrightarrow> cr_numbered s ([], s')"
  by (simp add: cr_numbered_def)

lemma numbered_from: "cr_SequenceNumber s1 = cr_SequenceNumber s \<Longrightarrow> cr_numbered s1 r \<Longrightarrow> cr_numbered s r"
  by (simp add: cr_numbered_def)

lemma numbered_all: "(\<And>f s. f \<in> set fs \<Longrightarrow> cr_numbered s (f s)) \<Longrightarrow> cr_numbered s (emit_all fs s)"
proof (induction fs arbitrary: s)
  case (Cons f fs)
  obtain e1 s1 where 1: "f s = (e1, s1)" by fastforce
  obtain e2 s2 where 2: "emit_all fs s1 = (e2, s2)" by fastforce
  have "cr_numbered s (e1, s1)" using Cons.prems [of f s] 1 by simp
  moreover have "cr_numbered s1 (e2, s2)" using Cons.IH [of s1] Cons.prems 2 by simp
  ultimately show ?case by (simp add: 1 2 numbered_append)
qed (simp add: numbered_Nil)

lemma numbered_run: "(\<And>x s. cr_numbered s (f x s)) \<Longrightarrow> cr_numbered s (run_conv f xs s)"
proof (induction xs arbitrary: s)
  case (Cons x xs)
  obtain e1 s1 where 1: "f x s = (e1, s1)" by fastforce
  obtain e2 s2 where 2: "run_conv f xs s1 = (e2, s2)" by fastforce
  have "cr_numbered s (e1, s1)" using Cons.prems [of s x] 1 by simp
  moreover have "cr_numbered s1 (e2, s2)" using Cons.IH [OF Cons.prems, of s1] 2 by simp
  ultimately show ?case by (simp add: 1 2 numbered_append)
qed (simp add: numbered_Nil)

named_theorems numbered

lemma fresh_frame: "cr_fresh s = (i, s') \<Longrightarrow> s' = s\<lparr>cr_rand := cr_rand s'\<rparr>"
  by (auto simp: cr_fresh_def Let_def split: prod.splits)

lemma fresh_seq [simp]: "cr_SequenceNumber (snd (cr_fresh s)) = cr_SequenceNumber s"
  by (simp add: cr_fresh_def Let_def split: prod.split)

lemma alloc_seq [simp]: "cr_SequenceNumber (snd (allocOutputIndex s)) = cr_SequenceNumber s"
  by (simp add: allocOutputIndex_def)

lemma fresh_seq': "cr_fresh s = (i, s') \<Longrightarrow> cr_SequenceNumber s' = cr_SequenceNumber s"
  using fresh_seq [of s] by simp

lemma alloc_seq': "allocOutputIndex s = (i, s') \<Longrightarrow> cr_SequenceNumber s' = cr_SequenceNumber s"
  using alloc_seq [of s] by simp

lemma numbered_created [numbered]: "cr_numbered s (ensureChatToResponsesCreated s)"
  by (auto simp: ensureChatToResponsesCreated_def intro: numbered_event numbered_Nil)

lemma numbered_events2 [numbered]:
  "cr_SequenceNumber s1 = cr_SequenceNumber s \<Longrightarrow> cr_numbered s (emit_all [chatToResponsesEvent t e, chatToResponsesEvent t' e'] s1)"
  by (rule numbered_from, assumption, rule numbered_all) (auto intro: numbered_event)

lemma numbered_reasoning_item [numbered]: "cr_numbered s (ensureChatReasoningItem s)"
  by (auto simp: ensureChatReasoningItem_def Let_def simp del: emit_all.simps dest!: fresh_seq' alloc_seq' split: prod.split
        intro!: numbered_events2 numbered_Nil)

lemma numbered_close_reasoning [numbered]: "cr_numbered s (closeChatReasoningItem s)"
  unfolding closeChatReasoningItem_def Let_def
  by (auto simp del: emit_all.simps intro!: numbered_Nil numbered_from [OF _ numbered_all] numbered_event)

lemma numbered_message_item [numbered]: "cr_numbered s (ensureChatToResponsesMessageItem s)"
  by (auto simp: ensureChatToResponsesMessageItem_def Let_def dest!: fresh_seq' alloc_seq' split: prod.split
        intro!: numbered_event numbered_Nil)

lemma numbered_text_part [numbered]: "cr_numbered s (ensureChatToResponsesTextPart s)"
  by (auto simp: ensureChatToResponsesTextPart_def intro!: numbered_event numbered_Nil)

lemma numbered_text_delta [numbered]: "cr_numbered s (message_text_delta t s)"
  by (auto simp: message_text_delta_def Let_def intro!: numbered_event)

lemma numbered_args_delta [numbered]: "cr_SequenceNumber s1 = cr_SequenceNumber s \<Longrightarrow> cr_numbered s (args_delta_event i c d s1)"
  by (auto simp: args_delta_event_def intro!: numbered_event)

lemma numbered_announce [numbered]: "cr_numbered s (announceChatToolItem idx c force s)"
  by (auto simp: announceChatToolItem_def Let_def simp del: emit_all.simps split: prod.split option.split
        intro!: numbered_Nil numbered_from [OF _ numbered_all] numbered_event numbered_args_delta)

lemma numbered_register [numbered]: "cr_numbered s (register_tool idx tc s)"
proof -
  obtain e1 s1 where 1: "closeChatReasoningItem s = (e1, s1)" by fastforce
  then have "cr_numbered s (e1, s2)" if "cr_SequenceNumber s2 = cr_SequenceNumber s1" for s2
    using numbered_close_reasoning [of s] that by (simp add: cr_numbered_def)
  then show ?thesis
    by (auto simp: register_tool_def Let_def 1 numbered_Nil dest!: fresh_seq' alloc_seq' split: option.split prod.split if_split)
qed

lemma numbered_accumulate [numbered]: "cr_numbered s (accumulate_args idx a s)"
  by (auto simp: accumulate_args_def Let_def intro!: numbered_Nil numbered_args_delta)

lemma numbered_tool_step [numbered]: "cr_numbered s (cr_tool_step tc s)"
  unfolding cr_tool_step_def Let_def by (rule numbered_all) (auto intro: numbered)

lemma numbered_close_tool [numbered]: "cr_numbered s (close_tool i s)"
proof (cases "map_of (cr_ToolCalls s) i")
  case None
  then show ?thesis by (simp add: close_tool_def numbered_Nil)
next
  case (Some tc)
  show ?thesis
  proof (cases "cr_ToolItemIDs s i")
    case None
    with Some show ?thesis by (simp add: close_tool_def numbered_Nil)
  next
    case item: (Some itemID)
    obtain e1 s1 where 1: "announceChatToolItem i tc True s = (e1, s1)" by fastforce
    have a: "cr_numbered s (e1, s1)" using numbered_announce [of s i tc True] 1 by simp
    have add: "cr_numbered s (case r of (e2, s2) \<Rightarrow> (e1 @ e2, s2))" if "cr_numbered s1 r" for r
      using numbered_append [OF a, of "fst r" "snd r"] that by (simp add: split_beta)
    show ?thesis
      unfolding close_tool_def Let_def Some item option.case prod.case 1
      by (rule add)
         (auto simp del: emit_all.simps split: prod.split option.split
           intro!: numbered_Nil numbered_all numbered_event)
  qed
qed

lemma numbered_close_tools [numbered]: "cr_numbered s (closeChatToolItems s)"
  unfolding closeChatToolItems_def by (rule numbered_run) (rule numbered_close_tool)

lemma numbered_reasoning_part [numbered]: "cr_numbered s (cr_reasoning_part d s)"
  by (auto simp: cr_reasoning_part_def Let_def simp del: emit_all.simps split: option.split
        intro!: numbered_Nil numbered_all numbered_event numbered_reasoning_item)

lemma numbered_content_part [numbered]: "cr_numbered s (cr_content_part d s)"
  by (auto simp: cr_content_part_def simp del: emit_all.simps split: option.split
        intro!: numbered_Nil numbered_all intro: numbered)

lemma numbered_choice [numbered]: "cr_numbered s (cr_choice_step ch s)"
  unfolding cr_choice_step_def Let_def
  by (rule numbered_all) (auto intro: numbered numbered_run numbered_Nil split: option.split)

lemma numbered_chunk [numbered]: "cr_numbered s (cr_chunk_step c s)"
proof -
  have "cr_SequenceNumber (cr_chunk_header c s) = cr_SequenceNumber s" by (simp add: cr_chunk_header_def Let_def)
  then show ?thesis unfolding cr_chunk_step_def
    by (rule numbered_from) (rule numbered_all, auto intro: numbered numbered_run)
qed

lemma output_tool_seq: "chat_output_tool i s = (es, s') \<Longrightarrow> cr_SequenceNumber s' = cr_SequenceNumber s"
  by (auto simp: chat_output_tool_def Let_def split: option.splits prod.splits dest: fresh_seq')

lemma output_tools_seq: "run_conv chat_output_tool is s = (es, s') \<Longrightarrow> cr_SequenceNumber s' = cr_SequenceNumber s"
proof (induction "is" arbitrary: s es)
  case (Cons i "is")
  obtain e1 s1 where 1: "chat_output_tool i s = (e1, s1)" by fastforce
  obtain e2 s2 where 2: "run_conv chat_output_tool is s1 = (e2, s2)" by fastforce
  from Cons.prems 1 2 have "s2 = s'" by simp
  with Cons.IH 2 output_tool_seq [OF 1] show ?case by simp
qed simp

lemma chat_output_seq: "chatOutput s = (items, s') \<Longrightarrow> cr_SequenceNumber s' = cr_SequenceNumber s"
  by (auto simp: chatOutput_def Let_def split: if_splits prod.splits dest!: fresh_seq' output_tools_seq)

lemma numbered_complete [numbered]: "cr_numbered s (complete_response s)"
  by (auto simp: complete_response_def Let_def split: prod.split dest!: chat_output_seq intro!: numbered_event)

lemma numbered_synthesize [numbered]: "cr_numbered s (synthesizeChatReasoningFallbackMessage s)"
  by (auto simp: synthesizeChatReasoningFallbackMessage_def simp del: emit_all.simps
        intro!: numbered_Nil numbered_all intro: numbered)

lemma numbered_close_message [numbered]: "cr_numbered s (close_message s)"
  by (auto simp: close_message_def simp del: emit_all.simps intro!: numbered_Nil numbered_all numbered_event)

lemma numbered_finalize [numbered]: "cr_numbered s (cr_finalize_step s)"
  by (auto simp: cr_finalize_step_def simp del: emit_all.simps intro!: numbered_Nil numbered_all intro: numbered)

definition sequence_numbers :: "ResponsesStreamEvent list \<Rightarrow> int list" where
  "sequence_numbers es = map rse_SequenceNumber es"

definition numbers_sent :: "cr_state \<Rightarrow> int list" where
  "numbers_sent s = map int [0..<nat (cr_SequenceNumber s)]"

lemma numbers_step:
  assumes "0 \<le> cr_SequenceNumber s" "cr_numbered s (es, s')"
  shows "0 \<le> cr_SequenceNumber s' \<and> numbers_sent s' = numbers_sent s @ sequence_numbers es"
proof -
  from assms(2) have n: "cr_SequenceNumber s' = cr_SequenceNumber s + int (length es)"
      "\<forall>i<length es. rse_SequenceNumber (es ! i) = cr_SequenceNumber s + int i"
    by (auto simp: cr_numbered_def number_accept_run)
  have "sequence_numbers es = map (\<lambda>i. int (nat (cr_SequenceNumber s) + i)) [0..<length es]"
    using n(2) assms(1) by (auto simp: sequence_numbers_def intro!: nth_equalityI)
  also have "\<dots> = map int [nat (cr_SequenceNumber s)..<nat (cr_SequenceNumber s) + length es]"
    by (auto intro!: nth_equalityI)
  finally show ?thesis using n(1) assms(1)
    by (simp add: numbers_sent_def nat_add_distrib upt_add_eq_append [of 0 "nat (cr_SequenceNumber s)" "length es", simplified])
qed

interpretation cr_numbers: output_measure cr_chunk_step "\<lambda>s. 0 \<le> cr_SequenceNumber s" sequence_numbers numbers_sent
proof unfold_locales
  show "sequence_numbers (xs @ ys) = sequence_numbers xs @ sequence_numbers ys" for xs ys
    by (simp add: sequence_numbers_def)
next
  fix s c es s' assume "0 \<le> cr_SequenceNumber s" "cr_chunk_step c s = (es, s')"
  with numbers_step [of s es s'] numbered_chunk [of s c]
  show "0 \<le> cr_SequenceNumber s'" "numbers_sent s' = numbers_sent s @ sequence_numbers es" by simp_all
qed

section \<open>The finaliser completes the stream\<close>

lemma fresh_completed: "cr_fresh s = (i, s') \<Longrightarrow> cr_CompletedSent s' = cr_CompletedSent s"
  by (auto simp: cr_fresh_def Let_def split: prod.splits)

lemma output_tool_completed: "chat_output_tool i s = (es, s') \<Longrightarrow> cr_CompletedSent s' = cr_CompletedSent s"
  by (auto simp: chat_output_tool_def Let_def split: option.splits prod.splits dest: fresh_completed)

lemma output_tools_completed: "run_conv chat_output_tool is s = (es, s') \<Longrightarrow> cr_CompletedSent s' = cr_CompletedSent s"
proof (induction "is" arbitrary: s es)
  case (Cons i "is")
  obtain e1 s1 where 1: "chat_output_tool i s = (e1, s1)" by fastforce
  obtain e2 s2 where 2: "run_conv chat_output_tool is s1 = (e2, s2)" by fastforce
  from Cons.prems 1 2 have "s2 = s'" by simp
  with Cons.IH 2 output_tool_completed [OF 1] show ?case by simp
qed simp

lemma chat_output_completed: "chatOutput s = (items, s') \<Longrightarrow> cr_CompletedSent s' = cr_CompletedSent s"
  by (auto simp: chatOutput_def Let_def split: if_splits prod.splits dest!: fresh_completed output_tools_completed)

lemma complete_response_completes: "cr_CompletedSent (snd (complete_response s))"
  by (auto simp: complete_response_def chatToResponsesEvent_def Let_def split: prod.split dest: chat_output_completed)

lemma emit_all_last: "snd (emit_all (fs @ [f]) s) = snd (f (snd (emit_all fs s)))"
proof (induction fs arbitrary: s)
  case (Cons g fs)
  obtain e1 s1 where 1: "g s = (e1, s1)" by fastforce
  obtain e2 s2 where 2: "emit_all fs s1 = (e2, s2)" by fastforce
  obtain e3 s3 where 3: "emit_all (fs @ [f]) s1 = (e3, s3)" by fastforce
  from Cons.IH [of s1] show ?case by (simp add: 1 2 3)
qed (simp split: prod.split)

lemma cr_finalize_completes: "cr_CompletedSent (snd (cr_finalize_step s))"
proof (cases "cr_CompletedSent s")
  case False
  then have "cr_finalize_step s = emit_all ([ensureChatToResponsesCreated, closeChatReasoningItem,
      synthesizeChatReasoningFallbackMessage, close_message, closeChatToolItems] @ [complete_response]) s"
    by (simp add: cr_finalize_step_def)
  then show ?thesis by (simp only: emit_all_last complete_response_completes)
qed (simp add: cr_finalize_step_def)

lemma cr_finalize_twice:
  "FinalizeChatCompletionsResponsesStream (snd (FinalizeChatCompletionsResponsesStream s))
     = ([], snd (FinalizeChatCompletionsResponsesStream s))"
proof (cases s)
  case (Some r)
  obtain es r' where 1: "cr_finalize_step r = (es, r')" by fastforce
  with cr_finalize_completes [of r] have "cr_finalize_step r' = ([], r')" by (simp add: cr_finalize_step_def)
  with 1 Some show ?thesis by (simp add: FinalizeChatCompletionsResponsesStream_def)
qed (simp add: FinalizeChatCompletionsResponsesStream_def)

end
