(* ===== verification/KeywordMatcher.thy ===== *)
theory KeywordMatcher
  imports GoStrings
begin

text \<open>
  The multi-keyword matcher of the content moderation service
  (\<open>service/content_moderation_keyword_matcher.go\<close>): an Aho-Corasick automaton over the
  bytes of the lower-cased keywords, laid out in arrays that point at each other by index.

  Indices are \<open>int32\<close> and \<open>uint32\<close> in the code, and wrap around here as they do there.
  \<open>strings.ToLower\<close>, whose case tables are data of the Go distribution, is the argument
  \<open>lower\<close>.  A loop over linked edges or failure links is a recursion with fuel; the theory
  \<open>KeywordMatcherCorrect\<close> shows that the fuel given is enough.
\<close>

section \<open>Data\<close>

definition i32 :: "int \<Rightarrow> int" where
  \<comment> \<open>conversion to \<open>int32\<close>\<close>
  "i32 x = (x + 2 ^ 31) mod 2 ^ 32 - 2 ^ 31"

definition u32 :: "int \<Rightarrow> int" where
  "u32 x = x mod 2 ^ 32"

definition u16 :: "int \<Rightarrow> int" where
  "u16 x = x mod 2 ^ 16"

record contentModerationKeywordNode =
  kn_failure :: int
  kn_bestKeyword :: int
  kn_edgeStart :: int
  kn_edgeCount :: int

record contentModerationKeywordEdge =
  ke_target :: int
  ke_label :: char

record contentModerationKeywordBuildEdge =
  kb_target :: int
  kb_nextSibling :: int
  kb_label :: char

text \<open>The array \<open>rootTransitions [256]int32\<close> is a function from bytes.\<close>

record contentModerationKeywordMatcher =
  km_nodes :: "contentModerationKeywordNode list"
  km_edges :: "contentModerationKeywordEdge list"
  km_rootTransitions :: "char \<Rightarrow> int"
  km_keywords :: "string list"

type_synonym build_nodes = "contentModerationKeywordNode list"
type_synonym build_edges = "contentModerationKeywordBuildEdge list"

section \<open>Building the trie\<close>

definition newContentModerationKeywordNode :: contentModerationKeywordNode where
  "newContentModerationKeywordNode =
     \<lparr>kn_failure = 0, kn_bestKeyword = -1, kn_edgeStart = 0, kn_edgeCount = 0\<rparr>"

definition contentModerationKeywordBuildFirstEdge :: "contentModerationKeywordNode \<Rightarrow> int" where
  "contentModerationKeywordBuildFirstEdge node =
     (if kn_edgeStart node = 0 then -1 else i32 (u32 (kn_edgeStart node - 1)))"

text \<open>The edges the loop over \<open>nextSibling\<close> visits, from an edge index on.\<close>

fun sibling_chain :: "nat \<Rightarrow> build_edges \<Rightarrow> int \<Rightarrow> build_edges" where
  "sibling_chain 0 edges i = []"
| "sibling_chain (Suc n) edges i =
     (if i \<ge> 0 then edges ! nat i # sibling_chain n edges (kb_nextSibling (edges ! nat i)) else [])"

definition out_edges :: "build_nodes \<Rightarrow> build_edges \<Rightarrow> int \<Rightarrow> build_edges" where
  \<comment> \<open>the edges of a node, in the order in which the code's loops see them\<close>
  "out_edges nodes edges state =
     sibling_chain (length edges) edges (contentModerationKeywordBuildFirstEdge (nodes ! nat state))"

definition contentModerationKeywordBuildTransition :: "build_nodes \<Rightarrow> build_edges \<Rightarrow> int \<Rightarrow> char \<Rightarrow> int" where
  "contentModerationKeywordBuildTransition nodes edges state label =
     (if state < 0 \<or> state \<ge> int (length nodes) then -1
      else case find (\<lambda>e. kb_label e = label) (out_edges nodes edges state) of
        Some e \<Rightarrow> kb_target e | None \<Rightarrow> -1)"

definition minKeywordIndex :: "int \<Rightarrow> int \<Rightarrow> int" where
  "minKeywordIndex left right =
     (if left < 0 then right else if right < 0 \<or> left < right then left else right)"

definition add_edge :: "int \<Rightarrow> char \<Rightarrow> build_nodes \<times> build_edges \<Rightarrow> build_nodes \<times> build_edges" where
  \<comment> \<open>a fresh node, linked in front of the edges of \<open>state\<close>\<close>
  "add_edge state label b = (case b of (nodes, edges) \<Rightarrow>
     let nodes' = nodes @ [newContentModerationKeywordNode];
         edges' = edges @ [\<lparr>kb_target = i32 (int (length nodes)),
                    kb_nextSibling = contentModerationKeywordBuildFirstEdge (nodes' ! nat state),
                    kb_label = label\<rparr>]
     in (nodes'[nat state := (nodes' ! nat state)\<lparr>kn_edgeStart := u32 (int (length edges'))\<rparr>], edges'))"

fun insert_labels :: "string \<Rightarrow> build_nodes \<times> build_edges \<Rightarrow> int \<Rightarrow> (build_nodes \<times> build_edges) \<times> int" where
  "insert_labels [] b state = (b, state)"
| "insert_labels (label # labels) b state =
     (let next_state = contentModerationKeywordBuildTransition (fst b) (snd b) state label in
      if next_state < 0
      then insert_labels labels (add_edge state label b) (i32 (int (length (fst b))))
      else insert_labels labels b next_state)"

definition insert_keyword :: "(string \<Rightarrow> string) \<Rightarrow> nat \<times> string \<Rightarrow> build_nodes \<times> build_edges \<Rightarrow> build_nodes \<times> build_edges" where
  "insert_keyword lower ik b = (case ik of (keywordIndex, keyword) \<Rightarrow>
     if keyword = [] then b
     else (case insert_labels (lower keyword) b 0 of ((nodes, edges), state) \<Rightarrow>
       let current = kn_bestKeyword (nodes ! nat state) in
       if current < 0 \<or> i32 (int keywordIndex) < current
       then (nodes[nat state := (nodes ! nat state)\<lparr>kn_bestKeyword := i32 (int keywordIndex)\<rparr>], edges)
       else (nodes, edges)))"

definition build_trie :: "(string \<Rightarrow> string) \<Rightarrow> string list \<Rightarrow> build_nodes \<times> build_edges" where
  "build_trie lower keywords =
     fold (insert_keyword lower) (enumerate 0 keywords) ([newContentModerationKeywordNode], [])"

section \<open>Failure links\<close>

fun failure_search :: "nat \<Rightarrow> build_nodes \<Rightarrow> build_edges \<Rightarrow> int \<Rightarrow> char \<Rightarrow> int" where
  \<comment> \<open>the loop \<open>for fallback < 0 && failure != 0\<close>\<close>
  "failure_search 0 nodes edges failure label = contentModerationKeywordBuildTransition nodes edges failure label"
| "failure_search (Suc n) nodes edges failure label =
     (let fallback = contentModerationKeywordBuildTransition nodes edges failure label in
      if fallback < 0 \<and> failure \<noteq> 0
      then failure_search n nodes edges (kn_failure (nodes ! nat failure)) label
      else fallback)"

definition link_child :: "int \<Rightarrow> build_edges \<Rightarrow> contentModerationKeywordBuildEdge \<Rightarrow> build_nodes \<Rightarrow> build_nodes" where
  "link_child state edges edge nodes =
     (let t = nat (kb_target edge);
          fallback = failure_search (length nodes) nodes edges (kn_failure (nodes ! nat state)) (kb_label edge);
          nodes1 = (if fallback \<ge> 0 then nodes[t := (nodes ! t)\<lparr>kn_failure := fallback\<rparr>] else nodes)
      in nodes1[t := (nodes1 ! t)\<lparr>kn_bestKeyword :=
           minKeywordIndex (kn_bestKeyword (nodes1 ! t))
             (kn_bestKeyword (nodes1 ! nat (kn_failure (nodes1 ! t))))\<rparr>])"

fun link_failures :: "nat \<Rightarrow> build_edges \<Rightarrow> int list \<Rightarrow> build_nodes \<Rightarrow> build_nodes" where
  \<comment> \<open>the breadth-first loop; the list is what is left of the queue\<close>
  "link_failures 0 edges queue nodes = nodes"
| "link_failures (Suc n) edges queue nodes =
     (case queue of [] \<Rightarrow> nodes
      | state # rest \<Rightarrow>
          link_failures n edges (rest @ map kb_target (out_edges nodes edges state))
            (fold (link_child state edges) (out_edges nodes edges state) nodes))"

section \<open>The compact layout\<close>

fun insert_left :: "contentModerationKeywordEdge \<Rightarrow> contentModerationKeywordEdge list \<Rightarrow> contentModerationKeywordEdge list" where
  \<comment> \<open>shift \<open>current\<close> to its place in the sorted prefix, which is given from its right end\<close>
  "insert_left current [] = [current]"
| "insert_left current (p # ps) =
     (if byte (ke_label current) < byte (ke_label p) then p # insert_left current ps else current # p # ps)"

definition sort_edges :: "contentModerationKeywordEdge list \<Rightarrow> contentModerationKeywordEdge list" where
  "sort_edges outgoing = rev (fold insert_left outgoing [])"

definition layout_node :: "build_edges \<Rightarrow> nat \<Rightarrow> build_nodes \<times> contentModerationKeywordEdge list
    \<Rightarrow> build_nodes \<times> contentModerationKeywordEdge list" where
  "layout_node bedges i b = (case b of (nodes, edges) \<Rightarrow>
     let outgoing = map (\<lambda>e. \<lparr>ke_target = kb_target e, ke_label = kb_label e\<rparr>) (out_edges nodes bedges (int i))
     in (nodes[i := (nodes ! i)\<lparr>kn_edgeStart := u32 (int (length edges)), kn_edgeCount := u16 (int (length outgoing))\<rparr>],
         edges @ sort_edges outgoing))"

definition newContentModerationKeywordMatcher :: "(string \<Rightarrow> string) \<Rightarrow> string list \<Rightarrow> contentModerationKeywordMatcher option" where
  "newContentModerationKeywordMatcher lower keywords =
     (if keywords = [] then None
      else case build_trie lower keywords of (nodes0, bedges) \<Rightarrow>
        if length nodes0 = 1 then None
        else
          let roots = out_edges nodes0 bedges 0;
              rootTransitions = fold (\<lambda>e f. f(kb_label e := kb_target e)) roots (\<lambda>_. 0);
              nodes1 = link_failures (length nodes0) bedges (map kb_target roots) nodes0;
              (nodes, edges) = fold (layout_node bedges) [0..<length nodes1] (nodes1, [])
          in Some \<lparr>km_nodes = nodes, km_edges = edges, km_rootTransitions = rootTransitions,
                   km_keywords = keywords\<rparr>)"

section \<open>Matching\<close>

function binary_search :: "contentModerationKeywordEdge list \<Rightarrow> char \<Rightarrow> int \<Rightarrow> int \<Rightarrow> int" where
  "binary_search edges label left right =
     (if left < right then
        let middle = left + (right - left) div 2 in
        if byte (ke_label (edges ! nat middle)) < byte label
        then binary_search edges label (middle + 1) right
        else binary_search edges label left middle
      else left)"
  by pat_completeness auto
termination
  by (relation "measure (\<lambda>(_, _, l, r). nat (r - l))") auto

declare binary_search.simps [simp del]

definition matcher_next :: "contentModerationKeywordMatcher \<Rightarrow> int \<Rightarrow> char \<Rightarrow> int" where
  "matcher_next m state label =
     (if state = 0 then km_rootTransitions m label
      else if state < 0 \<or> state \<ge> int (length (km_nodes m)) then 0
      else let node = km_nodes m ! nat state;
               upper = kn_edgeStart node + kn_edgeCount node;
               left = binary_search (km_edges m) label (kn_edgeStart node) upper
           in if left < upper \<and> ke_label (km_edges m ! nat left) = label
              then ke_target (km_edges m ! nat left) else 0)"

fun follow :: "nat \<Rightarrow> contentModerationKeywordMatcher \<Rightarrow> int \<Rightarrow> char \<Rightarrow> int" where
  \<comment> \<open>the inner loop of \<open>Match\<close>: along the failure links until a transition exists\<close>
  "follow 0 m state label = state"
| "follow (Suc n) m state label =
     (let next_state = matcher_next m state label in
      if next_state \<noteq> 0 then next_state
      else if state = 0 then 0
      else follow n m (kn_failure (km_nodes m ! nat state)) label)"

fun match_loop :: "contentModerationKeywordMatcher \<Rightarrow> string \<Rightarrow> int \<Rightarrow> int \<Rightarrow> string \<times> bool" where
  "match_loop m [] state bestKeyword =
     (if bestKeyword < 0 \<or> bestKeyword \<ge> int (length (km_keywords m)) then ([], False)
      else (km_keywords m ! nat bestKeyword, True))"
| "match_loop m (label # rest) state bestKeyword =
     (let state' = follow (length (km_nodes m)) m state label;
          best' = minKeywordIndex bestKeyword (kn_bestKeyword (km_nodes m ! nat state'))
      in if best' = 0 then (km_keywords m ! 0, True) else match_loop m rest state' best')"

definition Match :: "(string \<Rightarrow> string) \<Rightarrow> contentModerationKeywordMatcher option \<Rightarrow> string \<Rightarrow> string \<times> bool" where
  "Match lower mo text = (case mo of None \<Rightarrow> ([], False)
     | Some m \<Rightarrow> if text = [] \<or> km_nodes m = [] \<or> km_keywords m = [] then ([], False)
                 else match_loop m (lower text) 0 (-1))"

end
