(* ===== verification/KeywordTrie.thy ===== *)
theory KeywordTrie
  imports KeywordMatcher "HOL-Library.Sublist"
begin

text \<open>
  Building the keyword automaton: the trie the insertion loops build (\<open>trie\<close>, one word per
  node), the keyword stored at every node (\<open>keyword_trie\<close>), and the failure links the
  breadth-first loop sets (\<open>node_final\<close>: the failure link of a node leads to the longest proper
  suffix of its word that is a word of the trie, and its keyword index is the least of all the
  keywords that end its word).  \<open>build_trie_correct\<close> and \<open>link_failures_correct\<close> show that the fuel
  of the loops is enough and that every index they use is in range.
\<close>

section \<open>Longest suffixes\<close>

text \<open>\<open>longest W u x\<close>: among the words of \<open>W\<close> that end \<open>x\<close>, \<open>u\<close> is the longest.\<close>

definition longest :: "string set \<Rightarrow> string \<Rightarrow> string \<Rightarrow> bool" where
  "longest W u x \<longleftrightarrow> u \<in> W \<and> suffix u x \<and> (\<forall>v\<in>W. suffix v x \<longrightarrow> suffix v u)"

lemma longestD:
  assumes "longest W u x"
  shows "u \<in> W" "suffix u x" "v \<in> W \<Longrightarrow> suffix v x \<Longrightarrow> suffix v u"
  using assms by (auto simp: longest_def)

lemma suffix_snocE: "suffix v (x @ [c]) \<Longrightarrow> v = [] \<or> (\<exists>v'. v = v' @ [c] \<and> suffix v' x)"
  by (cases v rule: rev_cases) auto

text \<open>
  The search along failure links.  \<open>searching W c x u\<close>: every word of \<open>W\<close> that ends \<open>x\<close> and
  can be extended by \<open>c\<close> ends \<open>u\<close>.
\<close>

definition searching :: "string set \<Rightarrow> char \<Rightarrow> string \<Rightarrow> string \<Rightarrow> bool" where
  "searching W c x u \<longleftrightarrow> u \<in> W \<and> suffix u x \<and> (\<forall>v. v @ [c] \<in> W \<longrightarrow> suffix v x \<longrightarrow> suffix v u)"

definition prefix_closed :: "string set \<Rightarrow> bool" where
  "prefix_closed W \<longleftrightarrow> [] \<in> W \<and> (\<forall>v c. v @ [c] \<in> W \<longrightarrow> v \<in> W)"

lemma prefix_closed_butlast: "prefix_closed W \<Longrightarrow> w \<in> W \<Longrightarrow> butlast w \<in> W"
  by (cases w rule: rev_cases) (auto simp: prefix_closed_def)

lemma searching_start: "prefix_closed W \<Longrightarrow> longest W u x \<Longrightarrow> searching W c x u"
  by (auto simp: searching_def longest_def prefix_closed_def)

lemma searching_found:
  assumes "prefix_closed W" "searching W c x u" "u @ [c] \<in> W"
  shows "longest W (u @ [c]) (x @ [c])"
  using assms by (auto simp: searching_def longest_def dest!: suffix_snocE)

lemma searching_root:
  assumes "prefix_closed W" "searching W c x []" "[c] \<notin> W"
  shows "longest W [] (x @ [c])"
  using assms by (fastforce simp: searching_def longest_def prefix_closed_def dest!: suffix_snocE)

lemma searching_next:
  assumes "prefix_closed W" "searching W c x u" "u @ [c] \<notin> W" "u \<noteq> []" "longest W f (tl u)"
  shows "searching W c x f"
proof -
  have tl: "suffix (tl u) u" by (cases u) (auto simp: suffix_Cons)
  have "suffix f u" using longestD(2) [OF assms(5)] tl by (rule suffix_order.trans)
  with assms(2) have "suffix f x" by (auto simp: searching_def intro: suffix_order.trans)
  moreover have "suffix v f" if v: "v @ [c] \<in> W" "suffix v x" for v
  proof -
    from v assms(2) have "suffix v u" by (auto simp: searching_def)
    moreover from v(1) assms(3) have "v \<noteq> u" by auto
    ultimately have "suffix v (tl u)" using assms(4) by (cases u) (auto simp: suffix_Cons)
    with v(1) assms(1) show ?thesis by (intro longestD(3) [OF assms(5)]) (auto simp: prefix_closed_def)
  qed
  ultimately show ?thesis using longestD(1) [OF assms(5)] by (simp add: searching_def)
qed

lemma suffix_tl_iff: "u \<noteq> [] \<Longrightarrow> suffix v u \<longleftrightarrow> v = u \<or> suffix v (tl u)"
  by (cases u) (auto simp: suffix_Cons)

section \<open>The trie\<close>

lemma i32_id [simp]: "- (2 ^ 31) \<le> x \<Longrightarrow> x < 2 ^ 31 \<Longrightarrow> i32 x = x"
  by (simp add: i32_def)

lemma u32_id [simp]: "0 \<le> x \<Longrightarrow> x < 2 ^ 32 \<Longrightarrow> u32 x = x"
  by (simp add: u32_def)

text \<open>Edges are linked towards smaller indices, so a chain is finite and unaffected by later edges.\<close>

definition linked_down :: "build_edges \<Rightarrow> bool" where
  "linked_down es \<longleftrightarrow> (\<forall>j < length es. kb_nextSibling (es ! j) < int j)"

lemma sibling_chain_neg: "i < 0 \<Longrightarrow> sibling_chain n es i = []"
  by (cases n) simp_all

lemma sibling_chain_fuel:
  "linked_down es \<Longrightarrow> i < int (length es) \<Longrightarrow> i < int n \<Longrightarrow> i < int m
    \<Longrightarrow> sibling_chain n (es @ xs) i = sibling_chain m es i"
proof (induction n "es @ xs" i arbitrary: m rule: sibling_chain.induct)
  case (2 n i)
  show ?case
  proof (cases "i \<ge> 0")
    case True
    with "2.prems" obtain k where m: "m = Suc k" by (cases m) auto
    from True "2.prems" have e: "(es @ xs) ! nat i = es ! nat i" by (simp add: nth_append)
    from True "2.prems" have "kb_nextSibling (es ! nat i) < i" by (auto simp: linked_down_def dest: spec [of _ "nat i"])
    with True "2.prems" m show ?thesis by (simp add: e "2.hyps" [unfolded e])
  qed (simp add: sibling_chain_neg)
qed (simp add: sibling_chain_neg)

text \<open>
  The words of the trie, one per node: node \<open>j + 1\<close> is the target of edge \<open>j\<close>, and the edges of
  a node are listed last one first.
\<close>

definition trie :: "build_nodes \<Rightarrow> build_edges \<Rightarrow> string list \<Rightarrow> bool" where
  "trie ns es ws \<longleftrightarrow> length ns = length ws \<and> Suc (length es) = length ws \<and> length ws < 2 ^ 31
     \<and> ws ! 0 = [] \<and> distinct ws \<and> linked_down es
     \<and> (\<forall>s < length ns. 0 \<le> kn_edgeStart (ns ! s) \<and> kn_edgeStart (ns ! s) \<le> int (length es))
     \<and> (\<forall>j < length es. kb_target (es ! j) = int j + 1
          \<and> (\<exists>s \<le> j. ws ! Suc j = ws ! s @ [kb_label (es ! j)]))
     \<and> (\<forall>s < length ns. out_edges ns es (int s) = rev (filter (\<lambda>e. butlast (ws ! nat (kb_target e)) = ws ! s) es))"

lemma first_edge: "0 \<le> kn_edgeStart nd \<Longrightarrow> kn_edgeStart nd < 2 ^ 31 \<Longrightarrow>
    contentModerationKeywordBuildFirstEdge nd = kn_edgeStart nd - 1"
  by (simp add: contentModerationKeywordBuildFirstEdge_def)

lemma trieD:
  assumes "trie ns es ws"
  shows "length ns = length ws" "Suc (length es) = length ws" "length ws < 2 ^ 31" "ws ! 0 = []" "distinct ws"
    "linked_down es" "s < length ns \<Longrightarrow> 0 \<le> kn_edgeStart (ns ! s) \<and> kn_edgeStart (ns ! s) \<le> int (length es)"
    "j < length es \<Longrightarrow> kb_target (es ! j) = int j + 1"
    "j < length es \<Longrightarrow> \<exists>s \<le> j. ws ! Suc j = ws ! s @ [kb_label (es ! j)]"
    "s < length ns \<Longrightarrow> out_edges ns es (int s) = rev (filter (\<lambda>e. butlast (ws ! nat (kb_target e)) = ws ! s) es)"
  using assms unfolding trie_def by blast+

lemma trie_edge:
  assumes t: "trie ns es ws" and s: "s < length ns" and e: "e \<in> set (out_edges ns es (int s))"
  shows "0 < kb_target e" "nat (kb_target e) < length ws" "ws ! nat (kb_target e) = ws ! s @ [kb_label e]"
    "kb_target e < 2 ^ 31"
proof -
  from e obtain j where j: "j < length es" "e = es ! j" "butlast (ws ! nat (kb_target e)) = ws ! s"
    by (auto simp: trieD(10) [OF t s] in_set_conv_nth)
  note tgt = trieD(8) [OF t j(1)]
  from tgt j(1,2) trieD(2,3) [OF t] show "0 < kb_target e" "nat (kb_target e) < length ws" "kb_target e < 2 ^ 31" by auto
  from tgt have n: "nat (kb_target (es ! j)) = Suc j" by simp
  from trieD(9) [OF t j(1)] j(3) show "ws ! nat (kb_target e) = ws ! s @ [kb_label e]"
    by (auto simp: j(2) n)
qed

lemma trie_child:
  assumes t: "trie ns es ws" and n: "n < length ws" "0 < n"
  obtains s e where "s < n" "e \<in> set (out_edges ns es (int s))" "kb_target e = int n" "ws ! n = ws ! s @ [kb_label e]"
proof -
  from n obtain j where j: "n = Suc j" by (cases n) auto
  with n trieD(2) [OF t] have jl: "j < length es" by simp
  from trieD(9) [OF t jl] obtain s where s: "s \<le> j" "ws ! n = ws ! s @ [kb_label (es ! j)]" using j by auto
  have tgt: "kb_target (es ! j) = int n" using trieD(8) [OF t jl] j by simp
  from s(1) n j trieD(1) [OF t] have sl: "s < length ns" by simp
  have "es ! j \<in> set (out_edges ns es (int s))"
    unfolding trieD(10) [OF t sl] using jl by (simp add: tgt s(2))
  with s j tgt show ?thesis by (intro that [of s "es ! j"]) auto
qed

lemma trie_transition:
  assumes t: "trie ns es ws" and s: "s < length ws"
  shows "case contentModerationKeywordBuildTransition ns es (int s) c of
      v \<Rightarrow> (if ws ! s @ [c] \<in> set ws then 0 < v \<and> nat v < length ws \<and> ws ! nat v = ws ! s @ [c] else v = -1)"
proof -
  from s trieD(1) [OF t] have sl: "s < length ns" by simp
  let ?f = "find (\<lambda>e. kb_label e = c) (out_edges ns es (int s))"
  have tr: "contentModerationKeywordBuildTransition ns es (int s) c = (case ?f of Some e \<Rightarrow> kb_target e | None \<Rightarrow> -1)"
    using sl by (simp add: contentModerationKeywordBuildTransition_def)
  show ?thesis
  proof (cases ?f)
    case None
    then have no: "\<forall>e\<in>set (out_edges ns es (int s)). kb_label e \<noteq> c" by (auto simp: find_None_iff)
    have "ws ! s @ [c] \<notin> set ws"
    proof
      assume "ws ! s @ [c] \<in> set ws"
      then obtain n where n: "n < length ws" "ws ! n = ws ! s @ [c]" by (auto simp: in_set_conv_nth)
      with trieD(4) [OF t] have "0 < n" by (cases n) auto
      from trie_child [OF t n(1) this] obtain p e where p: "p < n" "e \<in> set (out_edges ns es (int p))"
        "ws ! n = ws ! p @ [kb_label e]" by metis
      with n have "ws ! p = ws ! s" "kb_label e = c" by auto
      moreover from this(1) p(1) n(1) s trieD(5) [OF t] have "p = s" by (simp add: nth_eq_iff_index_eq)
      ultimately show False using no p(2) by auto
    qed
    with tr None show ?thesis by simp
  next
    case (Some e)
    then have e: "e \<in> set (out_edges ns es (int s))" "kb_label e = c" by (auto simp: find_Some_iff)
    from trie_edge [OF t sl e(1)] e(2) have "ws ! nat (kb_target e) = ws ! s @ [c]" "nat (kb_target e) < length ws" "0 < kb_target e"
      by auto
    then show ?thesis using tr Some nth_mem by force
  qed
qed

lemma trie_prefix_closed: "trie ns es ws \<Longrightarrow> prefix_closed (set ws)"
  unfolding prefix_closed_def
proof (intro conjI allI impI)
  assume t: "trie ns es ws"
  then have "0 < length ws" "ws ! 0 = []" using trieD(2,4) by fastforce+
  then show "[] \<in> set ws" using nth_mem by force
  fix v c assume "v @ [c] \<in> set ws"
  then obtain n where n: "n < length ws" "ws ! n = v @ [c]" by (auto simp: in_set_conv_nth)
  with trieD(4) [OF t] have "0 < n" by (cases n) auto
  from trie_child [OF t n(1) this] obtain s where "s < n" "v = ws ! s" using n(2) by (metis butlast_snoc)
  with n(1) show "v \<in> set ws" by simp
qed

text \<open>Only \<open>edgeStart\<close> and the edges matter for the trie.\<close>

lemma out_edges_cong:
  "map kn_edgeStart ns' = map kn_edgeStart ns \<Longrightarrow> s < length ns \<Longrightarrow> out_edges ns' es (int s) = out_edges ns es (int s)"
proof -
  assume m: "map kn_edgeStart ns' = map kn_edgeStart ns" and s: "s < length ns"
  then have "length ns' = length ns" by (metis length_map)
  with m s have "kn_edgeStart (ns' ! s) = kn_edgeStart (ns ! s)" by (metis nth_map)
  then show ?thesis by (simp add: out_edges_def contentModerationKeywordBuildFirstEdge_def)
qed

lemma trie_cong:
  assumes t: "trie ns es ws" and m: "map kn_edgeStart ns' = map kn_edgeStart ns"
  shows "trie ns' es ws"
proof -
  from m have l: "length ns' = length ns" by (metis length_map)
  have "kn_edgeStart (ns' ! s) = kn_edgeStart (ns ! s)" if "s < length ns" for s using m l that by (metis nth_map)
  with t l show ?thesis using out_edges_cong [OF m] by (simp add: trie_def)
qed

lemma trie_initial: "trie [newContentModerationKeywordNode] [] [[]]"
  by (simp add: trie_def linked_down_def newContentModerationKeywordNode_def out_edges_def)

abbreviation new_edge :: "build_nodes \<Rightarrow> nat \<Rightarrow> char \<Rightarrow> contentModerationKeywordBuildEdge" where
  "new_edge ns s c \<equiv> \<lparr>kb_target = int (length ns),
     kb_nextSibling = contentModerationKeywordBuildFirstEdge (ns ! s), kb_label = c\<rparr>"

abbreviation new_nodes :: "build_nodes \<Rightarrow> nat \<Rightarrow> build_nodes" where
  "new_nodes ns s \<equiv> (ns @ [newContentModerationKeywordNode])[s := (ns ! s)\<lparr>kn_edgeStart := int (length ns)\<rparr>]"

lemma add_edge_eq:
  assumes t: "trie ns es ws" and s: "s < length ws"
  shows "add_edge (int s) c (ns, es) = (new_nodes ns s, es @ [new_edge ns s c])"
proof -
  have "int (length es) + 1 = int (length ns)" using trieD(1,2) [OF t] by simp
  then show ?thesis
    using s trieD(1,3) [OF t] by (simp add: add_edge_def Let_def nth_append add.commute)
qed

lemma first_edge_trie:
  "trie ns es ws \<Longrightarrow> k < length ns \<Longrightarrow> contentModerationKeywordBuildFirstEdge (ns ! k) = kn_edgeStart (ns ! k) - 1
     \<and> kn_edgeStart (ns ! k) - 1 < int (length es)"
  using trieD(2,3,7) [of ns es ws] by (subst first_edge) force+

lemma out_edges_add_edge:
  assumes t: "trie ns es ws" and s: "s < length ws" and k: "k \<le> length ws"
  shows "out_edges (new_nodes ns s) (es @ [new_edge ns s c]) (int k) =
    (if k = length ws then [] else (if k = s then [new_edge ns s c] else []) @ out_edges ns es (int k))"
proof -
  note d = trieD [OF t]
  from s d(1) have sl: "s < length ns" by simp
  have chain: "sibling_chain n (es @ [x]) (contentModerationKeywordBuildFirstEdge (ns ! k)) = out_edges ns es (int k)"
    if "k < length ns" "length es \<le> n" for n x k
    using first_edge_trie [OF t that(1)] d(6) that(2) by (simp add: out_edges_def sibling_chain_fuel)
  show ?thesis
  proof (cases "k = length ws")
    case True
    then show ?thesis
      using d(1) s by (simp add: out_edges_def nth_append contentModerationKeywordBuildFirstEdge_def
          newContentModerationKeywordNode_def)
  next
    case False
    with k d(1) have kl: "k < length ns" by simp
    have f: "contentModerationKeywordBuildFirstEdge ((ns ! s)\<lparr>kn_edgeStart := int (length ns)\<rparr>) = int (length es)"
      using d(1,2,3) by (subst first_edge) auto
    show ?thesis
      using sl kl False f chain [OF kl, of "length es"] chain [OF kl, of "Suc (length es)"]
      by (cases "k = s") (simp_all add: out_edges_def nth_append del: sibling_chain.simps(2), simp_all)
  qed
qed

lemma trie_add_edge:
  assumes t: "trie ns es ws" and s: "s < length ws" and c: "ws ! s @ [c] \<notin> set ws" and lim: "Suc (length ws) < 2 ^ 31"
  shows "trie (fst (add_edge (int s) c (ns, es))) (snd (add_edge (int s) c (ns, es))) (ws @ [ws ! s @ [c]])"
proof -
  note d = trieD [OF t]
  from s d(1) have sl: "s < length ns" by simp
  let ?ws = "ws @ [ws ! s @ [c]]" and ?es = "es @ [new_edge ns s c]" and ?ns = "new_nodes ns s"
  have tgts: "nat (kb_target e) < length ws" if "e \<in> set es" for e
    using that d(2,8) by (auto simp: in_set_conv_nth)
  have filt: "filter (\<lambda>e. butlast (?ws ! nat (kb_target e)) = w) ?es
      = filter (\<lambda>e. butlast (ws ! nat (kb_target e)) = w) es @ (if w = ws ! s then [new_edge ns s c] else [])" for w
    using tgts d(1) by (auto intro!: filter_cong simp: nth_append)
  have new: "filter (\<lambda>e. butlast (ws ! nat (kb_target e)) = ws ! s @ [c]) es = []"
    unfolding filter_empty_conv
    using prefix_closed_butlast [OF trie_prefix_closed [OF t] nth_mem [OF tgts]] c by metis
  have out: "out_edges ?ns ?es (int k) = rev (filter (\<lambda>e. butlast (?ws ! nat (kb_target e)) = ?ws ! k) ?es)"
    if k: "k < length ?ws" for k
  proof (cases "k < length ws")
    case True
    moreover from this s d(5) have "ws ! k = ws ! s \<longleftrightarrow> k = s" by (simp add: nth_eq_iff_index_eq)
    moreover from True have "?ws ! k = ws ! k" by (simp add: nth_append)
    ultimately show ?thesis
      unfolding filt using True out_edges_add_edge [OF t s, of k c] d(1) d(10) [of k] by simp
  next
    case False
    with k have "k = length ws" by simp
    moreover from this c s have "?ws ! k = ws ! s @ [c]" by simp
    ultimately show ?thesis unfolding filt using out_edges_add_edge [OF t s, of k c] new by simp
  qed
  have es: "\<exists>p\<le>j. ?ws ! Suc j = ?ws ! p @ [kb_label (?es ! j)]" if j: "j < length ?es" for j
  proof (cases "j < length es")
    case True
    from d(9) [OF True] obtain p where "p \<le> j" "ws ! Suc j = ws ! p @ [kb_label (es ! j)]" by blast
    with True d(2) show ?thesis by (intro exI [of _ p]) (simp add: nth_append)
  next
    case False
    with j have "j = length es" by simp
    with d(2) s show ?thesis by (intro exI [of _ s]) (auto simp: nth_append)
  qed
  have down: "linked_down ?es"
    using d(6) first_edge_trie [OF t sl] by (auto simp: linked_down_def nth_append less_Suc_eq)
  have st: "0 \<le> kn_edgeStart (?ns ! k) \<and> kn_edgeStart (?ns ! k) \<le> int (length ?es)" if "k < length ?ns" for k
    using that sl d(1,2) d(7) [of k]
    by (cases "k = s"; cases "k < length ns") (auto simp: nth_append newContentModerationKeywordNode_def)
  have "?ws ! 0 = []" using d(4) s by (auto simp: nth_append)
  moreover have "kb_target (?es ! j) = int j + 1" if "j < length ?es" for j
    using that d(1,2,8) by (auto simp: nth_append less_Suc_eq)
  moreover have "length ?ns = length ?ws" "Suc (length ?es) = length ?ws" "length ?ws < 2 ^ 31" "distinct ?ws"
    using d(1,2,5) c lim by simp_all
  moreover from this(1) have "out_edges ?ns ?es (int k) = rev (filter (\<lambda>e. butlast (?ws ! nat (kb_target e)) = ?ws ! k) ?es)"
    if "k < length ?ns" for k using out that by metis
  ultimately show ?thesis
    unfolding add_edge_eq [OF t s] fst_conv snd_conv trie_def using down es st by blast
qed

section \<open>Inserting the keywords\<close>

lemma add_edge_data:
  assumes "trie ns es ws" "s < length ws"
  shows "map kn_bestKeyword (fst (add_edge (int s) c (ns, es))) = map kn_bestKeyword ns @ [-1]"
    "map kn_failure (fst (add_edge (int s) c (ns, es))) = map kn_failure ns @ [0]"
  using assms trieD(1) [OF assms(1)]
  by (auto simp: add_edge_def Let_def newContentModerationKeywordNode_def nth_append map_update intro!: nth_equalityI
      split: if_splits) (auto simp: nth_list_update nth_append)

lemma insert_labels_trie:
  assumes "trie ns es ws" "s < length ws" "length ws + length labels < 2 ^ 31"
  shows "\<exists>ns' es' xs t. insert_labels labels (ns, es) (int s) = ((ns', es'), int t) \<and> trie ns' es' (ws @ xs)
      \<and> length xs \<le> length labels \<and> t < length (ws @ xs) \<and> (ws @ xs) ! t = ws ! s @ labels
      \<and> map kn_bestKeyword ns' = map kn_bestKeyword ns @ replicate (length xs) (-1)
      \<and> map kn_failure ns' = map kn_failure ns @ replicate (length xs) 0"
  using assms
proof (induction labels arbitrary: ns es ws s)
  case Nil
  then show ?case by (intro exI [of _ ns] exI [of _ es] exI [of _ "[]"] exI [of _ s]) simp
next
  case (Cons c cs)
  let ?v = "contentModerationKeywordBuildTransition ns es (int s) c"
  note v = trie_transition [OF Cons.prems(1,2), of c]
  show ?case
  proof (cases "ws ! s @ [c] \<in> set ws")
    case True
    with v have v: "0 < ?v" "nat ?v < length ws" "ws ! nat ?v = ws ! s @ [c]" by auto
    from Cons.prems(3) have "length ws + length cs < 2 ^ 31" by simp
    from Cons.IH [OF Cons.prems(1) v(2) this] obtain ns' es' xs t where
      "insert_labels cs (ns, es) ?v = ((ns', es'), int t) \<and> trie ns' es' (ws @ xs)
      \<and> length xs \<le> length cs \<and> t < length (ws @ xs) \<and> (ws @ xs) ! t = ws ! s @ (c # cs)
      \<and> map kn_bestKeyword ns' = map kn_bestKeyword ns @ replicate (length xs) (-1)
      \<and> map kn_failure ns' = map kn_failure ns @ replicate (length xs) 0"
      using v by auto
    then show ?thesis using v(1) by (intro exI [of _ ns'] exI [of _ es'] exI [of _ xs] exI [of _ t]) (simp add: Let_def)
  next
    case False
    with v have v: "?v = -1" by simp
    obtain ns1 es1 where 1: "add_edge (int s) c (ns, es) = (ns1, es1)" by fastforce
    let ?ws = "ws @ [ws ! s @ [c]]"
    from trie_add_edge [OF Cons.prems(1,2) False] Cons.prems(3) 1 have t: "trie ns1 es1 ?ws" by simp
    from add_edge_data [OF Cons.prems(1,2), of c] 1 have data: "map kn_bestKeyword ns1 = map kn_bestKeyword ns @ [-1]"
      "map kn_failure ns1 = map kn_failure ns @ [0]" by auto
    have l: "i32 (int (length ns)) = int (length ws)" using trieD(1,3) [OF Cons.prems(1)] by simp
    from Cons.IH [OF t, of "length ws"] Cons.prems(3) obtain ns' es' xs u where
      "insert_labels cs (ns1, es1) (int (length ws)) = ((ns', es'), int u) \<and> trie ns' es' (?ws @ xs)
      \<and> length xs \<le> length cs \<and> u < length (?ws @ xs) \<and> (?ws @ xs) ! u = ws ! s @ (c # cs)
      \<and> map kn_bestKeyword ns' = map kn_bestKeyword ns1 @ replicate (length xs) (-1)
      \<and> map kn_failure ns' = map kn_failure ns1 @ replicate (length xs) 0"
      by auto
    then show ?thesis
      using v by (intro exI [of _ ns'] exI [of _ es'] exI [of _ "(ws ! s @ [c]) # xs"] exI [of _ u])
        (simp add: Let_def l 1 data)
  qed
qed

text \<open>\<open>is_least b S\<close>: the keyword index \<open>b\<close> is the least of \<open>S\<close>, and -1 when there is none.\<close>

definition is_least :: "int \<Rightarrow> nat set \<Rightarrow> bool" where
  "is_least b S \<longleftrightarrow> (if b < 0 then b = -1 \<and> S = {} else nat b \<in> S \<and> (\<forall>i\<in>S. nat b \<le> i))"

lemma is_least_min: "is_least a S \<Longrightarrow> is_least b T \<Longrightarrow> is_least (minKeywordIndex a b) (S \<union> T)"
  by (auto simp: is_least_def minKeywordIndex_def split: if_splits)

lemma is_least_empty [simp]: "is_least (-1) {}"
  by (simp add: is_least_def)

definition keywords_at :: "(string \<Rightarrow> string) \<Rightarrow> string list \<Rightarrow> nat \<Rightarrow> (string \<Rightarrow> bool) \<Rightarrow> nat set" where
  \<comment> \<open>the keywords among the first \<open>m\<close> whose lower case satisfies \<open>P\<close>\<close>
  "keywords_at lower kws m P = {i. i < m \<and> kws ! i \<noteq> [] \<and> P (lower (kws ! i))}"

text \<open>Before the failure links are set, a node knows the least keyword that ends at it.\<close>

definition node_data :: "(string \<Rightarrow> string) \<Rightarrow> string list \<Rightarrow> nat \<Rightarrow> build_nodes \<Rightarrow> string list \<Rightarrow> bool" where
  "node_data lower kws m ns ws \<longleftrightarrow> (\<forall>s < length ns. kn_failure (ns ! s) = 0
     \<and> is_least (kn_bestKeyword (ns ! s)) (keywords_at lower kws m (\<lambda>w. w = ws ! s)))"

definition keyword_trie :: "(string \<Rightarrow> string) \<Rightarrow> string list \<Rightarrow> nat \<Rightarrow> build_nodes \<Rightarrow> build_edges \<Rightarrow> string list \<Rightarrow> bool" where
  "keyword_trie lower kws m ns es ws \<longleftrightarrow> trie ns es ws \<and> node_data lower kws m ns ws
     \<and> length ws \<le> Suc (sum_list (map (\<lambda>k. length (lower k)) (take m kws)))
     \<and> (\<forall>i < m. kws ! i \<noteq> [] \<longrightarrow> lower (kws ! i) \<in> set ws)"

lemma keywords_at_Suc: "keywords_at lower kws (Suc m) P =
    keywords_at lower kws m P \<union> (if kws ! m \<noteq> [] \<and> P (lower (kws ! m)) then {m} else {})"
  by (auto simp: keywords_at_def less_Suc_eq)

lemma keywords_at_less: "i \<in> keywords_at lower kws m P \<Longrightarrow> i < m"
  by (simp add: keywords_at_def)

lemma node_data_extend:
  assumes nd: "node_data lower kws m ns ws" and l: "length ns = length ws" "length ns1 = length (ws @ xs)"
    and mem: "\<And>i. i < m \<Longrightarrow> kws ! i \<noteq> [] \<Longrightarrow> lower (kws ! i) \<in> set ws" and dist: "distinct (ws @ xs)"
    and best: "map kn_bestKeyword ns1 = map kn_bestKeyword ns @ replicate (length xs) (-1)"
    and fail: "map kn_failure ns1 = map kn_failure ns @ replicate (length xs) 0"
  shows "node_data lower kws m ns1 (ws @ xs)"
  unfolding node_data_def
proof (intro allI impI)
  fix s assume s: "s < length ns1"
  have b1: "kn_bestKeyword (ns1 ! s) = (if s < length ws then kn_bestKeyword (ns ! s) else -1)"
    and f1: "kn_failure (ns1 ! s) = (if s < length ws then kn_failure (ns ! s) else 0)"
    using arg_cong [OF best, of "\<lambda>xs. xs ! s"] arg_cong [OF fail, of "\<lambda>xs. xs ! s"] s l
    by (auto simp: nth_append)
  show "kn_failure (ns1 ! s) = 0 \<and> is_least (kn_bestKeyword (ns1 ! s)) (keywords_at lower kws m (\<lambda>w. w = (ws @ xs) ! s))"
  proof (cases "s < length ws")
    case True
    with nd l show ?thesis by (simp add: node_data_def b1 f1 nth_append)
  next
    case False
    with s l dist have "(ws @ xs) ! s \<notin> set ws" by (auto simp: nth_append)
    with mem have "keywords_at lower kws m (\<lambda>w. w = (ws @ xs) ! s) = {}"
      unfolding keywords_at_def by (metis (mono_tags, lifting) empty_Collect_eq)
    with False show ?thesis by (simp add: b1 f1)
  qed
qed

lemma node_data_set:
  assumes nd: "node_data lower kws m ns W" and l: "length ns = length W" and dist: "distinct W"
    and u: "u < length W" "W ! u = lower (kws ! m)" and k: "kws ! m \<noteq> []"
  shows "node_data lower kws (Suc m) (if kn_bestKeyword (ns ! u) < 0 then ns[u := (ns ! u)\<lparr>kn_bestKeyword := int m\<rparr>] else ns) W"
    (is "node_data lower kws _ ?ns W")
  unfolding node_data_def
proof (intro allI impI)
  fix s assume "s < length ?ns"
  then have s: "s < length ns" by (auto split: if_splits)
  with nd have at: "kn_failure (ns ! s) = 0" "is_least (kn_bestKeyword (ns ! s)) (keywords_at lower kws m (\<lambda>w. w = W ! s))"
    by (auto simp: node_data_def)
  have eq: "lower (kws ! m) = W ! s \<longleftrightarrow> s = u" using s l u dist by (metis nth_eq_iff_index_eq)
  show "kn_failure (?ns ! s) = 0 \<and> is_least (kn_bestKeyword (?ns ! s)) (keywords_at lower kws (Suc m) (\<lambda>w. w = W ! s))"
    using at eq k s keywords_at_less [of "nat (kn_bestKeyword (ns ! s))" lower kws m "\<lambda>w. w = W ! s"]
    by (auto simp: keywords_at_Suc is_least_def nth_list_update less_imp_le)
qed

lemma insert_keyword_trie:
  assumes k: "keyword_trie lower kws m ns es ws" and m: "m < length kws" "length kws < 2 ^ 31"
    and lim: "Suc (sum_list (map (\<lambda>k. length (lower k)) kws)) < 2 ^ 31"
  shows "\<exists>ns' es' ws'. insert_keyword lower (m, kws ! m) (ns, es) = (ns', es') \<and> keyword_trie lower kws (Suc m) ns' es' ws'"
proof (cases "kws ! m = []")
  case True
  then have "insert_keyword lower (m, kws ! m) (ns, es) = (ns, es)" by (simp add: insert_keyword_def)
  moreover have "keyword_trie lower kws (Suc m) ns es ws"
    using k m(1) by (auto simp: keyword_trie_def node_data_def keywords_at_Suc True take_Suc_conv_app_nth less_Suc_eq)
  ultimately show ?thesis by blast
next
  case False
  let ?w = "lower (kws ! m)"
  let ?sum = "\<lambda>xs. sum_list (map (\<lambda>k. length (lower k)) xs)"
  from k have t: "trie ns es ws" and len: "length ws \<le> Suc (?sum (take m kws))" and nd: "node_data lower kws m ns ws"
    and mem: "\<And>i. i < m \<Longrightarrow> kws ! i \<noteq> [] \<Longrightarrow> lower (kws ! i) \<in> set ws"
    by (auto simp: keyword_trie_def)
  have split: "?sum kws = ?sum (take m kws) + (length ?w + ?sum (drop (Suc m) kws))"
    using arg_cong [OF id_take_nth_drop [OF m(1)], of ?sum] by simp
  from t have 0: "0 < length ws" using trieD(2) by fastforce
  have "length ws + length ?w < 2 ^ 31" using len lim split by linarith
  from insert_labels_trie [OF t 0 this] obtain ns1 es1 xs u where ins: "insert_labels ?w (ns, es) 0 = ((ns1, es1), int u)"
    and t1: "trie ns1 es1 (ws @ xs)" and xs: "length xs \<le> length ?w" and u: "u < length (ws @ xs)" "(ws @ xs) ! u = ws ! 0 @ ?w"
    and data: "map kn_bestKeyword ns1 = map kn_bestKeyword ns @ replicate (length xs) (-1)"
      "map kn_failure ns1 = map kn_failure ns @ replicate (length xs) 0"
    by auto
  note l = trieD(1) [OF t] trieD(1) [OF t1]
  have w0: "(ws @ xs) ! u = ?w" using u(2) trieD(4) [OF t] by simp
  let ?ns = "if kn_bestKeyword (ns1 ! u) < 0 then ns1[u := (ns1 ! u)\<lparr>kn_bestKeyword := int m\<rparr>] else ns1"
  have nd1: "node_data lower kws m ns1 (ws @ xs)"
    by (rule node_data_extend [OF nd l _ trieD(5) [OF t1] data]) (rule mem)
  then have cur: "kn_bestKeyword (ns1 ! u) < int m"
    using u(1) l by (fastforce simp: node_data_def is_least_def dest!: keywords_at_less split: if_splits)
  have "insert_keyword lower (m, kws ! m) (ns, es) = (?ns, es1)"
    using False m cur by (simp add: insert_keyword_def ins Let_def)
  moreover have "trie ?ns es1 (ws @ xs)"
    using u(1) l(2) by (intro trie_cong [OF t1] nth_equalityI) (auto simp: nth_list_update split: if_splits)
  moreover have "lower (kws ! i) \<in> set (ws @ xs)" if "i < Suc m" "kws ! i \<noteq> []" for i
    using that mem [of i] w0 u(1) by (metis Un_iff less_SucE nth_mem set_append)
  moreover have "length (ws @ xs) \<le> Suc (?sum (take (Suc m) kws))" using len xs m(1) by (simp add: take_Suc_conv_app_nth)
  ultimately show ?thesis
    using node_data_set [OF nd1 l(2) trieD(5) [OF t1] u(1) w0 False] unfolding keyword_trie_def by blast
qed

lemma build_trie_correct:
  assumes "length kws < 2 ^ 31" and lim: "Suc (sum_list (map (\<lambda>k. length (lower k)) kws)) < 2 ^ 31"
  shows "\<exists>ns es ws. build_trie lower kws = (ns, es) \<and> keyword_trie lower kws (length kws) ns es ws"
proof -
  let ?f = "\<lambda>m. fold (insert_keyword lower) (enumerate 0 (take m kws)) ([newContentModerationKeywordNode], [])"
  have "m \<le> length kws \<Longrightarrow> \<exists>ns es ws. ?f m = (ns, es) \<and> keyword_trie lower kws m ns es ws" for m
  proof (induction m)
    case 0
    have "keyword_trie lower kws 0 [newContentModerationKeywordNode] [] [[]]"
      using trie_initial by (simp add: keyword_trie_def node_data_def keywords_at_def newContentModerationKeywordNode_def)
    then show ?case by auto
  next
    case (Suc m)
    then obtain ns es ws where 1: "?f m = (ns, es)" "keyword_trie lower kws m ns es ws" by auto
    from Suc.prems have "enumerate 0 (take (Suc m) kws) = enumerate 0 (take m kws) @ [(m, kws ! m)]"
      by (simp add: take_Suc_conv_app_nth enumerate_append_eq)
    with insert_keyword_trie [OF 1(2) _ assms] 1(1) Suc.prems show ?case by simp
  qed
  from this [of "length kws"] show ?thesis by (simp add: build_trie_def)
qed

section \<open>The failure links\<close>

definition node_raw :: "(string \<Rightarrow> string) \<Rightarrow> string list \<Rightarrow> build_nodes \<Rightarrow> string list \<Rightarrow> nat \<Rightarrow> bool" where
  "node_raw lower kws ns ws t \<longleftrightarrow> kn_failure (ns ! t) = 0
     \<and> is_least (kn_bestKeyword (ns ! t)) (keywords_at lower kws (length kws) (\<lambda>w. w = ws ! t))"

definition node_final :: "(string \<Rightarrow> string) \<Rightarrow> string list \<Rightarrow> build_nodes \<Rightarrow> string list \<Rightarrow> nat \<Rightarrow> bool" where
  "node_final lower kws ns ws t \<longleftrightarrow> 0 \<le> kn_failure (ns ! t) \<and> nat (kn_failure (ns ! t)) < length ws
     \<and> longest (set ws) (ws ! nat (kn_failure (ns ! t))) (tl (ws ! t))
     \<and> is_least (kn_bestKeyword (ns ! t)) (keywords_at lower kws (length kws) (\<lambda>w. suffix w (ws ! t)))"

definition linking :: "(string \<Rightarrow> string) \<Rightarrow> string list \<Rightarrow> build_nodes \<Rightarrow> build_edges \<Rightarrow> string list \<Rightarrow> string set \<Rightarrow> bool" where
  "linking lower kws ns es ws E \<longleftrightarrow> trie ns es ws
     \<and> (\<forall>i < length kws. kws ! i \<noteq> [] \<longrightarrow> lower (kws ! i) \<in> set ws \<and> lower (kws ! i) \<noteq> [])
     \<and> (\<forall>t < length ws. if ws ! t \<in> E then node_final lower kws ns ws t else node_raw lower kws ns ws t)"

lemma linkingD:
  assumes "linking lower kws ns es ws E"
  shows "trie ns es ws" "i < length kws \<Longrightarrow> kws ! i \<noteq> [] \<Longrightarrow> lower (kws ! i) \<in> set ws \<and> lower (kws ! i) \<noteq> []"
    "t < length ws \<Longrightarrow> ws ! t \<in> E \<Longrightarrow> node_final lower kws ns ws t"
    "t < length ws \<Longrightarrow> ws ! t \<notin> E \<Longrightarrow> node_raw lower kws ns ws t"
  using assms by (auto simp: linking_def)

text \<open>Keywords that end \<open>w\<close>: \<open>w\<close> itself, and those that end the longest suffix of its tail.\<close>

lemma keywords_at_suffix:
  assumes l: "linking lower kws ns es ws E" and u: "longest (set ws) u (tl w)" and w: "w \<noteq> []"
  shows "keywords_at lower kws (length kws) (\<lambda>k. k = w) \<union> keywords_at lower kws (length kws) (\<lambda>k. suffix k u)
    = keywords_at lower kws (length kws) (\<lambda>k. suffix k w)"
proof -
  have "suffix (lower (kws ! i)) u \<longleftrightarrow> suffix (lower (kws ! i)) (tl w)" if "i < length kws" "kws ! i \<noteq> []" for i
    using longestD(2,3) [OF u] linkingD(2) [OF l that] suffix_order.trans by blast
  then show ?thesis by (auto simp: keywords_at_def suffix_tl_iff [OF w])
qed

lemma failure_search_correct:
  assumes l: "linking lower kws ns es ws E" and low: "\<And>v. v \<in> set ws \<Longrightarrow> length v \<le> D \<Longrightarrow> v \<in> E"
  shows "searching (set ws) c x (ws ! u) \<Longrightarrow> u < length ws \<Longrightarrow> length (ws ! u) \<le> D \<Longrightarrow> length (ws ! u) \<le> n \<Longrightarrow>
    (case failure_search n ns es (int u) c of v \<Rightarrow>
       if v < 0 then longest (set ws) [] (x @ [c])
       else nat v < length ws \<and> longest (set ws) (ws ! nat v) (x @ [c]))"
proof (induction n arbitrary: u)
  case 0
  note t = linkingD(1) [OF l]
  note closed = trie_prefix_closed [OF t]
  from 0 have "ws ! u = []" by simp
  with trie_transition [OF t 0(2), of c] searching_found [OF closed 0(1)] searching_root [OF closed, of c x] 0(1) show ?case
    by (auto split: if_splits)
next
  case (Suc n)
  note t = linkingD(1) [OF l]
  note closed = trie_prefix_closed [OF t]
  let ?v = "contentModerationKeywordBuildTransition ns es (int u) c"
  let ?f = "kn_failure (ns ! u)"
  consider (found) "ws ! u @ [c] \<in> set ws" | (root) "ws ! u @ [c] \<notin> set ws" "u = 0" | (up) "ws ! u @ [c] \<notin> set ws" "u \<noteq> 0"
    by blast
  then show ?case
  proof cases
    case found
    with trie_transition [OF t Suc.prems(2), of c] have "0 < ?v" "nat ?v < length ws" "ws ! nat ?v = ws ! u @ [c]" by auto
    with searching_found [OF closed Suc.prems(1) found] show ?thesis by (simp add: Let_def)
  next
    case root
    with trie_transition [OF t Suc.prems(2), of c] have "?v = -1" by simp
    moreover from root trieD(4) [OF t] Suc.prems(1) have "longest (set ws) [] (x @ [c])"
      by (intro searching_root [OF closed]) auto
    ultimately show ?thesis using root by (simp add: Let_def)
  next
    case up
    from up(2) Suc.prems(2) trieD(4,5) [OF t] have ne: "ws ! u \<noteq> []"
      by (metis gr_zeroI less_trans nth_eq_iff_index_eq)
    have "ws ! u \<in> E" using low Suc.prems(2,3) by simp
    from linkingD(3) [OF l Suc.prems(2) this] have f: "0 \<le> ?f" "nat ?f < length ws" "longest (set ws) (ws ! nat ?f) (tl (ws ! u))"
      by (auto simp: node_final_def)
    from longestD(2) [OF f(3)] ne have len: "length (ws ! nat ?f) < length (ws ! u)"
      by (cases "ws ! u") (auto dest: suffix_length_le)
    have "searching (set ws) c x (ws ! nat ?f)" by (rule searching_next [OF closed Suc.prems(1) up(1) ne f(3)])
    from Suc.IH [OF this f(2), unfolded nat_0_le [OF f(1)]] len Suc.prems(3,4)
    have rec: "case failure_search n ns es ?f c of v \<Rightarrow> if v < 0 then longest (set ws) [] (x @ [c])
       else nat v < length ws \<and> longest (set ws) (ws ! nat v) (x @ [c])" by simp
    from up(1) trie_transition [OF t Suc.prems(2), of c] have "?v = -1" by simp
    with up(2) have "failure_search (Suc n) ns es (int u) c = failure_search n ns es ?f c" by (simp add: Let_def)
    with rec show ?thesis by simp
  qed
qed

lemma prefix_closed_prefixes: "prefix_closed W \<Longrightarrow> w \<in> W \<Longrightarrow> prefix v w \<Longrightarrow> v \<in> W"
  by (induction w rule: rev_induct) (auto simp: prefix_closed_def)

lemma word_length: "trie ns es ws \<Longrightarrow> w \<in> set ws \<Longrightarrow> length w < length ws"
proof -
  assume t: "trie ns es ws" and w: "w \<in> set ws"
  have "set (prefixes w) \<subseteq> set ws" using prefix_closed_prefixes [OF trie_prefix_closed [OF t] w] by auto
  then have "card (set (prefixes w)) \<le> card (set ws)" by (intro card_mono) auto
  also have "\<dots> \<le> length ws" by (rule card_length)
  finally show ?thesis by (simp add: distinct_card)
qed

lemma linking_update:
  assumes l: "linking lower kws ns es ws E" and t: "t < length ws" and fin: "node_final lower kws ns' ws t"
    and edge: "map kn_edgeStart ns' = map kn_edgeStart ns" and other: "\<And>k. k \<noteq> t \<Longrightarrow> ns' ! k = ns ! k"
  shows "linking lower kws ns' es ws (insert (ws ! t) E)"
  unfolding linking_def
proof (intro conjI allI impI)
  show "trie ns' es ws" by (rule trie_cong [OF linkingD(1) [OF l] edge])
  fix k assume k: "k < length ws"
  show "if ws ! k \<in> insert (ws ! t) E then node_final lower kws ns' ws k else node_raw lower kws ns' ws k"
  proof (cases "k = t")
    case False
    then have "ws ! k \<noteq> ws ! t" using k t trieD(5) [OF linkingD(1) [OF l]] by (simp add: nth_eq_iff_index_eq)
    with linkingD(3,4) [OF l k] other [OF False] show ?thesis by (simp add: node_final_def node_raw_def)
  qed (simp add: fin)
qed (use linkingD(2) [OF l] in auto)

lemma link_child_correct:
  assumes l: "linking lower kws ns es ws E" and s: "s < length ws" "ws ! s \<in> E" "ws ! s \<noteq> []"
    and low: "\<And>v. v \<in> set ws \<Longrightarrow> length v \<le> length (ws ! s) \<Longrightarrow> v \<in> E"
    and e: "e \<in> set (out_edges ns es (int s))" "ws ! nat (kb_target e) \<notin> E"
  shows "linking lower kws (link_child (int s) es e ns) es ws (insert (ws ! nat (kb_target e)) E)"
    and "map kn_edgeStart (link_child (int s) es e ns) = map kn_edgeStart ns"
proof -
  note t = linkingD(1) [OF l]
  note len = trieD(1) [OF t]
  let ?t = "nat (kb_target e)" and ?c = "kb_label e" and ?f = "kn_failure (ns ! s)"
  let ?v = "failure_search (length ns) ns es ?f ?c"
  from s(1) len have sl: "s < length ns" by simp
  from trie_edge [OF t sl e(1)] len have tgt: "?t < length ns" "?t < length ws" "ws ! ?t = ws ! s @ [?c]" by auto
  have tlt: "tl (ws ! ?t) = tl (ws ! s) @ [?c]" using s(3) tgt(3) by simp
  from linkingD(3) [OF l s(1,2)] have f: "0 \<le> ?f" "nat ?f < length ws" "longest (set ws) (ws ! nat ?f) (tl (ws ! s))"
    by (auto simp: node_final_def)
  from linkingD(4) [OF l tgt(2) e(2)] have raw: "kn_failure (ns ! ?t) = 0"
    "is_least (kn_bestKeyword (ns ! ?t)) (keywords_at lower kws (length kws) (\<lambda>w. w = ws ! ?t))"
    by (auto simp: node_raw_def)
  have flen: "length (ws ! nat ?f) \<le> length (ws ! s)" using longestD(2) [OF f(3)] by (auto dest!: suffix_length_le)
  have st: "searching (set ws) ?c (tl (ws ! s)) (ws ! nat ?f)" by (rule searching_start [OF trie_prefix_closed [OF t] f(3)])
  have nlen: "length (ws ! nat ?f) \<le> length ns" using word_length [OF t nth_mem [OF f(2)]] len by simp
  define g where "g = (if ?v < 0 then 0 else ?v)"
  have "case ?v of v \<Rightarrow> if v < 0 then longest (set ws) [] (tl (ws ! s) @ [?c])
      else nat v < length ws \<and> longest (set ws) (ws ! nat v) (tl (ws ! s) @ [?c])"
    by (rule failure_search_correct [OF l low st f(2) flen nlen, unfolded nat_0_le [OF f(1)]])
  then have g: "0 \<le> g" "nat g < length ws" "longest (set ws) (ws ! nat g) (tl (ws ! ?t))"
    using s(1) trieD(4) [OF t] by (auto simp: g_def tlt split: if_splits)
  have glen: "length (ws ! nat g) \<le> length (ws ! s)"
    using longestD(2) [OF g(3)] s(3) by (auto simp: tlt dest!: suffix_length_le) (cases "ws ! s"; simp)
  then have ne: "nat g \<noteq> ?t" using tgt(3) by auto
  let ?b = "minKeywordIndex (kn_bestKeyword (ns ! ?t)) (kn_bestKeyword (ns ! nat g))"
  have eq: "link_child (int s) es e ns = ns[?t := (ns ! ?t)\<lparr>kn_failure := g, kn_bestKeyword := ?b\<rparr>]"
    using raw(1) tgt(1) ne by (cases "ns ! ?t") (auto simp: link_child_def Let_def g_def nth_list_update)
  have "ws ! nat g \<in> E" using low g(2) glen by simp
  from linkingD(3) [OF l g(2) this] have best: "is_least (kn_bestKeyword (ns ! nat g)) (keywords_at lower kws (length kws) (\<lambda>w. suffix w (ws ! nat g)))"
    by (simp add: node_final_def)
  have "is_least ?b (keywords_at lower kws (length kws) (\<lambda>w. suffix w (ws ! ?t)))"
    using is_least_min [OF raw(2) best] keywords_at_suffix [OF l g(3)] tgt(3) by simp
  then have fin: "node_final lower kws (link_child (int s) es e ns) ws ?t"
    using g tgt(1) by (simp add: node_final_def eq)
  have other: "link_child (int s) es e ns ! k = ns ! k" if "k \<noteq> ?t" for k using that by (simp add: eq)
  show edge: "map kn_edgeStart (link_child (int s) es e ns) = map kn_edgeStart ns"
    using tgt(1) by (intro nth_equalityI) (auto simp: eq nth_list_update)
  show "linking lower kws (link_child (int s) es e ns) es ws (insert (ws ! ?t) E)"
    by (rule linking_update [OF l tgt(2) fin edge other])
qed

text \<open>All the edges of a node, then the whole queue.\<close>

lemma link_children_correct:
  assumes s: "s < length ws" "ws ! s \<in> E" "ws ! s \<noteq> []"
    and low: "\<And>v. v \<in> set ws \<Longrightarrow> length v \<le> length (ws ! s) \<Longrightarrow> v \<in> E"
  shows "linking lower kws ns es ws E \<Longrightarrow> set xs \<subseteq> set (out_edges ns es (int s)) \<Longrightarrow> distinct (map (\<lambda>e. ws ! nat (kb_target e)) xs)
    \<Longrightarrow> (\<And>e. e \<in> set xs \<Longrightarrow> ws ! nat (kb_target e) \<notin> E)
    \<Longrightarrow> linking lower kws (fold (link_child (int s) es) xs ns) es ws (E \<union> (\<lambda>e. ws ! nat (kb_target e)) ` set xs)
      \<and> map kn_edgeStart (fold (link_child (int s) es) xs ns) = map kn_edgeStart ns"
  using s(2) low
proof (induction xs arbitrary: ns E)
  case (Cons e xs)
  let ?ns = "link_child (int s) es e ns" and ?E = "insert (ws ! nat (kb_target e)) E"
  from Cons.prems(2) have e: "e \<in> set (out_edges ns es (int s))" by simp
  note c = link_child_correct [OF Cons.prems(1) s(1) Cons.prems(5) s(3) Cons.prems(6) e Cons.prems(4)]
  have l: "linking lower kws ?ns es ws ?E" and m: "map kn_edgeStart ?ns = map kn_edgeStart ns" by (rule c; simp)+
  have "s < length ns" using s(1) trieD(1) [OF linkingD(1) [OF Cons.prems(1)]] by simp
  from out_edges_cong [OF m this] have oe: "out_edges ?ns es (int s) = out_edges ns es (int s)" .
  have "linking lower kws (fold (link_child (int s) es) xs ?ns) es ws (?E \<union> (\<lambda>e. ws ! nat (kb_target e)) ` set xs)
      \<and> map kn_edgeStart (fold (link_child (int s) es) xs ?ns) = map kn_edgeStart ?ns"
  proof (rule Cons.IH [OF l])
    fix a assume a: "a \<in> set xs"
    from Cons.prems(3) have "ws ! nat (kb_target e) \<notin> (\<lambda>e. ws ! nat (kb_target e)) ` set xs" by simp
    moreover have "ws ! nat (kb_target a) \<in> (\<lambda>e. ws ! nat (kb_target e)) ` set xs" using a by (rule imageI)
    ultimately have "ws ! nat (kb_target a) \<noteq> ws ! nat (kb_target e)" by (rule_tac notI) (simp only:)
    with a Cons.prems(4) show "ws ! nat (kb_target a) \<notin> ?E" by simp
  qed (use Cons.prems in \<open>auto simp: oe\<close>)
  with m show ?case by simp
qed simp

definition children :: "string list \<Rightarrow> string \<Rightarrow> string set" where
  "children ws u = {w \<in> set ws. w \<noteq> [] \<and> butlast w = u}"

lemma out_edges_children:
  assumes t: "trie ns es ws" and s: "s < length ws"
  shows "(\<lambda>e. ws ! nat (kb_target e)) ` set (out_edges ns es (int s)) = children ws (ws ! s)"
    and "distinct (map (\<lambda>e. ws ! nat (kb_target e)) (out_edges ns es (int s)))"
proof -
  from s trieD(1) [OF t] have sl: "s < length ns" by simp
  show "(\<lambda>e. ws ! nat (kb_target e)) ` set (out_edges ns es (int s)) = children ws (ws ! s)"
  proof (intro equalityI subsetI)
    fix w assume "w \<in> children ws (ws ! s)"
    then have w: "w \<in> set ws" "w \<noteq> []" "butlast w = ws ! s" by (auto simp: children_def)
    then obtain n where n: "n < length ws" "ws ! n = w" by (auto simp: in_set_conv_nth)
    with w(2) trieD(4) [OF t] have "0 < n" by (cases n) auto
    from trie_child [OF t n(1) this] obtain p e where p: "p < n" "e \<in> set (out_edges ns es (int p))"
      "kb_target e = int n" "w = ws ! p @ [kb_label e]" using n(2) by metis
    from p(1,4) w(3) n(1) s trieD(5) [OF t] have "p = s" by (simp add: nth_eq_iff_index_eq)
    with p n(2) show "w \<in> (\<lambda>e. ws ! nat (kb_target e)) ` set (out_edges ns es (int s))" by force
  next
    fix w assume "w \<in> (\<lambda>e. ws ! nat (kb_target e)) ` set (out_edges ns es (int s))"
    then obtain e where e: "e \<in> set (out_edges ns es (int s))" "w = ws ! nat (kb_target e)" by blast
    with nth_mem [OF trie_edge(2) [OF t sl e(1)]] trie_edge(3) [OF t sl e(1)] show "w \<in> children ws (ws ! s)"
      by (simp add: children_def)
  qed
  have "distinct (map (\<lambda>e. ws ! nat (kb_target e)) es)"
    unfolding distinct_conv_nth using trieD(2,5,8) [OF t] by (auto simp: nth_eq_iff_index_eq)
  then show "distinct (map (\<lambda>e. ws ! nat (kb_target e)) (out_edges ns es (int s)))"
    unfolding trieD(10) [OF t sl] by (simp add: rev_map [symmetric] distinct_map_filter)
qed

text \<open>
  Breadth first.  \<open>P\<close> holds the words of the nodes whose edges have been processed; a word is
  final once its parent is in \<open>P\<close>, and the queue holds the words that are final but not
  processed, in the order of their length.
\<close>

definition reached :: "string list \<Rightarrow> string set \<Rightarrow> string set" where
  "reached ws P = {w \<in> set ws. w = [] \<or> butlast w \<in> P}"

definition breadth_first :: "string list \<Rightarrow> string set \<Rightarrow> string list \<Rightarrow> bool" where
  "breadth_first ws P Q \<longleftrightarrow> [] \<in> P \<and> P \<subseteq> reached ws P \<and> set Q = reached ws P - P \<and> distinct Q
     \<and> sorted (map length Q) \<and> (\<forall>q \<in> set Q. length q \<le> Suc (length (hd Q)))"

lemma breadth_firstD:
  assumes "breadth_first ws P (u # Q)"
  shows "[] \<in> P" "P \<subseteq> reached ws P" "set (u # Q) = reached ws P - P" "distinct (u # Q)" "sorted (map length (u # Q))"
    "q \<in> set Q \<Longrightarrow> length q \<le> Suc (length u)" "q \<in> set (u # Q) \<Longrightarrow> length u \<le> length q"
proof -
  note b = assms [unfolded breadth_first_def]
  from b show "[] \<in> P" "P \<subseteq> reached ws P" "set (u # Q) = reached ws P - P" "distinct (u # Q)" by blast+
  from b show s: "sorted (map length (u # Q))" by blast
  from b show "q \<in> set Q \<Longrightarrow> length q \<le> Suc (length u)" by simp
  from s show "q \<in> set (u # Q) \<Longrightarrow> length u \<le> length q" by auto
qed

lemma breadth_first_low:
  assumes b: "breadth_first ws P (u # Q)" and c: "prefix_closed (set ws)" and v: "v \<in> set ws" "length v \<le> length u"
  shows "v \<in> reached ws P"
  using v
proof (induction v rule: rev_induct)
  case (snoc c v)
  with c have "v \<in> set ws" by (auto simp: prefix_closed_def)
  with snoc have "v \<in> reached ws P" by simp
  moreover have "v \<notin> set (u # Q)" using breadth_firstD(7) [OF b, of v] snoc.prems(2) by fastforce
  ultimately have "v \<in> P" using breadth_firstD(3) [OF b] by blast
  with snoc.prems(1) show ?case by (simp add: reached_def)
qed (simp add: reached_def)

lemma breadth_first_done:
  assumes b: "breadth_first ws P []" and c: "prefix_closed (set ws)"
  shows "reached ws P = set ws"
proof -
  have "v \<in> set ws \<Longrightarrow> v \<in> reached ws P" for v
  proof (induction v rule: rev_induct)
    case (snoc c v)
    with c have "v \<in> reached ws P" by (auto simp: prefix_closed_def)
    with b have "v \<in> P" by (auto simp: breadth_first_def)
    with snoc.prems(1) show ?case by (simp add: reached_def)
  qed (simp add: reached_def)
  then show ?thesis by (auto simp: reached_def)
qed

lemma reached_insert: "reached ws (insert u P) = reached ws P \<union> children ws u"
  by (auto simp: reached_def children_def)

lemma breadth_first_step:
  assumes b: "breadth_first ws P (u # Q)" and C: "set C = children ws u" "distinct C"
  shows "breadth_first ws (insert u P) (Q @ C)" and "set C \<inter> reached ws P = {}"
proof -
  note bb = breadth_firstD [OF b]
  from bb(1,3) have u: "u \<notin> P" "u \<in> reached ws P" by auto
  show dis: "set C \<inter> reached ws P = {}" using u(1) C(1) by (auto simp: reached_def children_def)
  have len: "length w = Suc (length u)" if "w \<in> set C" for w
    using that C(1) by (cases w rule: rev_cases) (auto simp: children_def)
  have low: "\<forall>q \<in> set Q. length u \<le> length q" using bb(7) by auto
  have "set (Q @ C) = reached ws (insert u P) - insert u P"
  proof -
    have "set Q = reached ws P - P - {u}" using bb(3,4) by auto
    moreover have "set C \<inter> insert u P = {}" using dis u(2) bb(2) by blast
    ultimately show ?thesis using C(1) u(2) by (auto simp: reached_insert)
  qed
  moreover have "distinct (Q @ C)" using bb(3,4) C(2) dis by auto
  moreover have "map length C = map (\<lambda>_. Suc (length u)) C" using len by simp
  then have "sorted (map length C)" by (simp add: map_replicate_const)
  then have "sorted (map length (Q @ C))" using bb(5,6) len by (auto simp: sorted_append)
  moreover have "length q \<le> Suc (length (hd (Q @ C)))" if "q \<in> set (Q @ C)" for q
  proof -
    have "hd (Q @ C) \<in> set (Q @ C)" using that by (metis empty_iff list.set_sel(1) list.set(1))
    with low len have "length u \<le> length (hd (Q @ C))" by auto
    with that bb(6) len show ?thesis by fastforce
  qed
  ultimately show "breadth_first ws (insert u P) (Q @ C)"
    using bb(1,2) u(2) by (auto simp: breadth_first_def reached_insert)
qed

lemma link_failures_correct:
  "linking lower kws ns es ws (reached ws P) \<Longrightarrow> breadth_first ws P (map (\<lambda>s. ws ! nat s) queue)
    \<Longrightarrow> \<forall>s \<in> set queue. 0 \<le> s \<and> nat s < length ws \<Longrightarrow> card (set ws - P) \<le> n
    \<Longrightarrow> linking lower kws (link_failures n es queue ns) es ws (set ws)
      \<and> map kn_edgeStart (link_failures n es queue ns) = map kn_edgeStart ns"
proof (induction n es queue ns arbitrary: P rule: link_failures.induct)
  case (1 es queue ns)
  then have "set ws \<subseteq> P" by auto
  with 1(2) have "queue = []" by (cases queue) (auto simp: breadth_first_def reached_def)
  with 1 show ?case using breadth_first_done trie_prefix_closed linkingD(1) by fastforce
next
  case (2 n es queue ns)
  note t = linkingD(1) [OF "2.prems"(1)]
  show ?case
  proof (cases queue)
    case Nil
    with "2.prems" breadth_first_done [OF _ trie_prefix_closed [OF t]] show ?thesis by auto
  next
    case (Cons q rest)
    define s where "s = nat q"
    have q: "q = int s" "s < length ws" using "2.prems"(3) Cons by (auto simp: s_def)
    let ?u = "ws ! s" and ?oe = "out_edges ns es (int s)"
    let ?C = "map (\<lambda>e. ws ! nat (kb_target e)) ?oe"
    have b: "breadth_first ws P (?u # map (\<lambda>s. ws ! nat s) rest)" using "2.prems"(2) Cons q by simp
    have C: "set ?C = children ws ?u" "distinct ?C" using out_edges_children [OF t q(2)] by simp_all
    note step = breadth_first_step [OF b C]
    have u: "?u \<in> reached ws P" "?u \<notin> P" "?u \<noteq> []" using b by (auto simp: breadth_first_def)
    let ?ns = "fold (link_child (int s) es) ?oe ns"
    have "linking lower kws ?ns es ws (reached ws P \<union> (\<lambda>e. ws ! nat (kb_target e)) ` set ?oe)
      \<and> map kn_edgeStart ?ns = map kn_edgeStart ns"
    proof (rule link_children_correct [OF q(2) u(1,3) _ "2.prems"(1) subset_refl C(2)])
      show "v \<in> reached ws P" if "v \<in> set ws" "length v \<le> length ?u" for v
        using that by (rule breadth_first_low [OF b trie_prefix_closed [OF t]])
      show "ws ! nat (kb_target e) \<notin> reached ws P" if "e \<in> set ?oe" for e
        using that step(2) by auto
    qed
    then have l: "linking lower kws ?ns es ws (reached ws (insert ?u P))" and m: "map kn_edgeStart ?ns = map kn_edgeStart ns"
      using C(1) by (auto simp: reached_insert)
    have "set ws - insert ?u P \<subset> set ws - P" using u(2) nth_mem [OF q(2)] by blast
    then have "card (set ws - insert ?u P) < card (set ws - P)" by (simp add: psubset_card_mono)
    with "2.prems"(4) have card: "card (set ws - insert ?u P) \<le> n" by simp
    have bf: "breadth_first ws (insert ?u P) (map (\<lambda>s. ws ! nat s) (rest @ map kb_target ?oe))"
      using step(1) by (simp add: comp_def)
    have "\<forall>s \<in> set (rest @ map kb_target ?oe). 0 \<le> s \<and> nat s < length ws"
      using "2.prems"(3) Cons trie_edge(1,2) [OF t] q(2) trieD(1) [OF t] by (auto intro: less_imp_le)
    from "2.IH" [OF Cons [unfolded q(1)] l bf this card]
    have "linking lower kws (link_failures n es (rest @ map kb_target ?oe) ?ns) es ws (set ws)
      \<and> map kn_edgeStart (link_failures n es (rest @ map kb_target ?oe) ?ns) = map kn_edgeStart ?ns" by simp
    with m Cons q(1) show ?thesis by simp
  qed
qed

end
