(* ===== verification/KeywordMatcherCorrect.thy ===== *)
theory KeywordMatcherCorrect
  imports KeywordTrie
begin

text \<open>
  The finished matcher: the compact layout keeps the transitions (binary search in a sorted
  segment of the edge array finds what the linked list found), and \<open>Match\<close> returns the first
  keyword of the list that occurs in the text.
\<close>

section \<open>Failure links of the built trie\<close>

lemma trie_nonempty: "trie ns es ws \<Longrightarrow> 0 < length ws"
  by (metis trieD(2) zero_less_Suc)

lemma trie_linking:
  assumes k: "keyword_trie lower kws (length kws) ns es ws"
    and ne: "\<And>i. i < length kws \<Longrightarrow> kws ! i \<noteq> [] \<Longrightarrow> lower (kws ! i) \<noteq> []"
  shows "linking lower kws ns es ws (reached ws {[]})"
proof -
  from k have t: "trie ns es ws" and nd: "node_data lower kws (length kws) ns ws"
    and mem: "\<And>i. i < length kws \<Longrightarrow> kws ! i \<noteq> [] \<Longrightarrow> lower (kws ! i) \<in> set ws"
    by (auto simp: keyword_trie_def)
  have raw: "node_raw lower kws ns ws s" if "s < length ws" for s
    using nd that trieD(1) [OF t] by (simp add: node_data_def node_raw_def)
  have "node_final lower kws ns ws s" if s: "s < length ws" "ws ! s \<in> reached ws {[]}" for s
  proof -
    have w: "ws ! s = [] \<or> (\<exists>c. ws ! s = [c])"
      using s(2) by (cases "ws ! s" rule: rev_cases) (auto simp: reached_def)
    then have tl: "tl (ws ! s) = []" by auto
    have suf: "suffix k (ws ! s) \<longleftrightarrow> k = ws ! s" if "k \<noteq> []" for k
      using w that by (auto simp: suffix_Cons)
    have "keywords_at lower kws (length kws) (\<lambda>k. suffix k (ws ! s)) = keywords_at lower kws (length kws) (\<lambda>k. k = ws ! s)"
      using suf ne by (auto simp: keywords_at_def)
    moreover have "longest (set ws) [] []"
      using trie_prefix_closed [OF t] by (simp add: longest_def prefix_closed_def)
    moreover note trie_nonempty [OF t]
    ultimately show ?thesis
      using raw [OF s(1)] trieD(4) [OF t] by (simp add: node_final_def node_raw_def tl)
  qed
  with raw t mem ne show ?thesis by (simp add: linking_def)
qed

lemma trie_breadth_first:
  assumes t: "trie ns es ws"
  shows "breadth_first ws {[]} (map (\<lambda>s. ws ! nat s) (map kb_target (out_edges ns es 0)))"
proof -
  note 0 = trie_nonempty [OF t]
  let ?Q = "map (\<lambda>e. ws ! nat (kb_target e)) (out_edges ns es 0)"
  have Q: "set ?Q = children ws []" "distinct ?Q"
    using out_edges_children [OF t 0] trieD(4) [OF t] by simp_all
  have len: "length w = 1" if "w \<in> set ?Q" for w
    using that unfolding Q(1) by (cases w rule: rev_cases) (auto simp: children_def)
  then have m: "map length ?Q = map (\<lambda>_. 1) ?Q" by (simp only: map_eq_conv) blast
  have "sorted (map length ?Q)" unfolding m by (simp add: map_replicate_const)
  moreover have "set ?Q = reached ws {[]} - {[]}"
    unfolding Q(1) by (auto simp: reached_def children_def)
  moreover have "{[]} \<subseteq> reached ws {[]}"
    using trie_prefix_closed [OF t] by (simp add: reached_def prefix_closed_def)
  moreover have "length q \<le> Suc (length (hd ?Q))" if "q \<in> set ?Q" for q
    using len [OF that] by simp
  ultimately have "breadth_first ws {[]} ?Q" using Q(2) unfolding breadth_first_def by blast
  then show ?thesis by (simp add: comp_def)
qed

lemma linked_correct:
  assumes l: "linking lower kws ns es ws (reached ws {[]})"
  shows "linking lower kws (link_failures (length ns) es (map kb_target (out_edges ns es 0)) ns) es ws (set ws)
    \<and> map kn_edgeStart (link_failures (length ns) es (map kb_target (out_edges ns es 0)) ns) = map kn_edgeStart ns"
proof (rule link_failures_correct [OF l])
  note t = linkingD(1) [OF l]
  have 0: "0 < length ns" using trieD(1) [OF t] trie_nonempty [OF t] by simp
  show "breadth_first ws {[]} (map (\<lambda>s. ws ! nat s) (map kb_target (out_edges ns es 0)))"
    by (rule trie_breadth_first [OF t])
  show "\<forall>s \<in> set (map kb_target (out_edges ns es 0)). 0 \<le> s \<and> nat s < length ws"
    using trie_edge(1,2) [OF t 0] by (auto intro: less_imp_le)
  have "card (set ws - {[]}) \<le> card (set ws)" by (rule card_mono) auto
  also have "\<dots> \<le> length ns" using card_length [of ws] trieD(1) [OF t] by simp
  finally show "card (set ws - {[]}) \<le> length ns" .
qed

section \<open>Sorted segments and binary search\<close>

abbreviation label_less :: "contentModerationKeywordEdge \<Rightarrow> contentModerationKeywordEdge \<Rightarrow> bool" where
  "label_less a b \<equiv> byte (ke_label a) \<le> byte (ke_label b)"

lemma insert_left_sorted:
  "sorted_wrt (\<lambda>a b. label_less b a) xs \<Longrightarrow> set (insert_left e xs) = insert e (set xs)
     \<and> sorted_wrt (\<lambda>a b. label_less b a) (insert_left e xs) \<and> length (insert_left e xs) = Suc (length xs)"
  by (induction xs) auto

lemma sort_edges_sorted:
  "set (sort_edges xs) = set xs \<and> sorted_wrt label_less (sort_edges xs) \<and> length (sort_edges xs) = length xs"
proof -
  have "sorted_wrt (\<lambda>a b. label_less b a) acc \<Longrightarrow> set (fold insert_left xs acc) = set xs \<union> set acc
      \<and> sorted_wrt (\<lambda>a b. label_less b a) (fold insert_left xs acc) \<and> length (fold insert_left xs acc) = length xs + length acc"
    for acc
    by (induction xs arbitrary: acc) (auto simp: insert_left_sorted)
  from this [of "[]"] show ?thesis by (simp add: sort_edges_def sorted_wrt_rev)
qed

lemma binary_search_bound:
  assumes "0 \<le> l" "l \<le> r" "\<And>i j. l \<le> i \<Longrightarrow> i \<le> j \<Longrightarrow> j < r \<Longrightarrow> label_less (es ! nat i) (es ! nat j)"
  shows "l \<le> binary_search es c l r \<and> binary_search es c l r \<le> r
    \<and> (\<forall>i. l \<le> i \<longrightarrow> i < binary_search es c l r \<longrightarrow> byte (ke_label (es ! nat i)) < byte c)
    \<and> (\<forall>i. binary_search es c l r \<le> i \<longrightarrow> i < r \<longrightarrow> byte c \<le> byte (ke_label (es ! nat i)))"
  using assms
proof (induction es c l r rule: binary_search.induct)
  case (1 es c l r)
  let ?m = "l + (r - l) div 2"
  show ?case
  proof (cases "l < r")
    case False
    then have "binary_search es c l r = l" by (subst binary_search.simps) simp
    with False "1.prems" show ?thesis by simp
  next
    case True
    then have m: "l \<le> ?m" "?m < r" by auto
    show ?thesis
    proof (cases "byte (ke_label (es ! nat ?m)) < byte c")
      case lt: True
      have eq: "binary_search es c l r = binary_search es c (?m + 1) r"
        using True lt by (simp add: binary_search.simps [of es c l r] Let_def)
      have below: "byte (ke_label (es ! nat i)) < byte c" if "l \<le> i" "i \<le> ?m" for i
        using "1.prems"(3) [OF that m(2)] lt by simp
      have "?m + 1 \<le> binary_search es c (?m + 1) r \<and> binary_search es c (?m + 1) r \<le> r
        \<and> (\<forall>i. ?m + 1 \<le> i \<longrightarrow> i < binary_search es c (?m + 1) r \<longrightarrow> byte (ke_label (es ! nat i)) < byte c)
        \<and> (\<forall>i. binary_search es c (?m + 1) r \<le> i \<longrightarrow> i < r \<longrightarrow> byte c \<le> byte (ke_label (es ! nat i)))"
        using "1.prems" m by (intro "1.IH"(1) [OF True refl lt]) auto
      moreover have "i \<le> ?m \<or> ?m + 1 \<le> i" for i by linarith
      ultimately show ?thesis unfolding eq using below m(1) by (meson add_increasing2 order.trans zero_le_one)
    next
      case ge: False
      have eq: "binary_search es c l r = binary_search es c l ?m"
        using True ge by (simp add: binary_search.simps [of es c l r] Let_def)
      have above: "byte c \<le> byte (ke_label (es ! nat i))" if "?m \<le> i" "i < r" for i
        using "1.prems"(3) [OF m(1) that] ge by simp
      have "l \<le> binary_search es c l ?m \<and> binary_search es c l ?m \<le> ?m
        \<and> (\<forall>i. l \<le> i \<longrightarrow> i < binary_search es c l ?m \<longrightarrow> byte (ke_label (es ! nat i)) < byte c)
        \<and> (\<forall>i. binary_search es c l ?m \<le> i \<longrightarrow> i < ?m \<longrightarrow> byte c \<le> byte (ke_label (es ! nat i)))"
        using "1.prems" m by (intro "1.IH"(2) [OF True refl ge]) auto
      moreover have "i < ?m \<or> ?m \<le> i" for i by linarith
      ultimately show ?thesis unfolding eq using above m(2) by (meson less_imp_le order.trans)
    qed
  qed
qed

section \<open>The compact layout\<close>

definition segment :: "build_nodes \<Rightarrow> build_edges \<Rightarrow> nat \<Rightarrow> contentModerationKeywordEdge list" where
  "segment ns bes i = sort_edges (map (\<lambda>e. \<lparr>ke_target = kb_target e, ke_label = kb_label e\<rparr>) (out_edges ns bes (int i)))"

definition offset :: "build_nodes \<Rightarrow> build_edges \<Rightarrow> nat \<Rightarrow> nat" where
  "offset ns bes i = length (concat (map (segment ns bes) [0..<i]))"

definition laid_out :: "build_nodes \<Rightarrow> build_edges \<Rightarrow> nat \<Rightarrow> build_nodes \<Rightarrow> bool" where
  "laid_out ns bes m ns' \<longleftrightarrow> length ns' = length ns \<and> (\<forall>i < length ns. ns' ! i =
     (if i < m then (ns ! i)\<lparr>kn_edgeStart := u32 (int (offset ns bes i)), kn_edgeCount := u16 (int (length (segment ns bes i)))\<rparr>
      else ns ! i))"

lemma layout_fold:
  "m \<le> length ns \<Longrightarrow> \<exists>ns'. fold (layout_node bes) [0..<m] (ns, []) = (ns', concat (map (segment ns bes) [0..<m])) \<and> laid_out ns bes m ns'"
proof (induction m)
  case 0
  then show ?case by (simp add: laid_out_def)
next
  case (Suc m)
  then obtain ns' where 1: "fold (layout_node bes) [0..<m] (ns, []) = (ns', concat (map (segment ns bes) [0..<m]))"
    and l: "laid_out ns bes m ns'" by auto
  from l Suc.prems have "out_edges ns' bes (int m) = out_edges ns bes (int m)"
    by (simp add: laid_out_def out_edges_def)
  then have "layout_node bes m (ns', concat (map (segment ns bes) [0..<m])) =
      (ns'[m := (ns' ! m)\<lparr>kn_edgeStart := u32 (int (offset ns bes m)), kn_edgeCount := u16 (int (length (segment ns bes m)))\<rparr>],
       concat (map (segment ns bes) [0..<Suc m]))"
    by (simp add: layout_node_def Let_def offset_def segment_def sort_edges_sorted)
  moreover have "laid_out ns bes (Suc m)
      (ns'[m := (ns' ! m)\<lparr>kn_edgeStart := u32 (int (offset ns bes m)), kn_edgeCount := u16 (int (length (segment ns bes m)))\<rparr>])"
    using l Suc.prems by (auto simp: laid_out_def nth_list_update less_Suc_eq)
  ultimately show ?case using 1 by simp
qed

text \<open>The segments of different nodes share no edge, so their total length is at most that of the edge list.\<close>

lemma filter_partition:
  "distinct xs \<Longrightarrow> sum_list (map (\<lambda>x. length (filter (\<lambda>e. f e = x) es)) xs) \<le> length es"
proof (induction es)
  case (Cons e es)
  have "sum_list (map (\<lambda>x. length (filter (\<lambda>e. f e = x) (e # es))) xs)
      = sum_list (map (\<lambda>x. length (filter (\<lambda>e. f e = x) es)) xs) + sum_list (map (\<lambda>x. if f e = x then 1 else 0) xs)"
    by (simp add: sum_list_addf [symmetric]) (rule arg_cong [where f = sum_list], simp)
  also have "sum_list (map (\<lambda>x. if f e = x then 1 else 0) xs) = (if f e \<in> set xs then 1 else 0 :: nat)"
    using Cons.prems by (induction xs) auto
  finally show ?case using Cons by (simp split: if_splits)
qed simp

lemma offset_bound:
  assumes t: "trie ns es ws" and m: "m \<le> length ns"
  shows "offset ns es m \<le> length es"
proof -
  have "offset ns es m = sum_list (map (\<lambda>i. length (out_edges ns es (int i))) [0..<m])"
    by (simp add: offset_def length_concat segment_def sort_edges_sorted comp_def)
  also have "\<dots> = sum_list (map (\<lambda>i. length (filter (\<lambda>e. butlast (ws ! nat (kb_target e)) = ws ! i) es)) [0..<m])"
    using m by (intro arg_cong [where f = sum_list] map_cong) (auto simp: trieD(10) [OF t])
  also have "\<dots> = sum_list (map (\<lambda>w. length (filter (\<lambda>e. butlast (ws ! nat (kb_target e)) = w) es)) (take m ws))"
    using m trieD(1) [OF t] by (intro arg_cong [where f = sum_list] nth_equalityI) auto
  also have "\<dots> \<le> length es" using trieD(5) [OF t] by (intro filter_partition) simp
  finally show ?thesis .
qed

lemma segment_length: "trie ns es ws \<Longrightarrow> i < length ns \<Longrightarrow> length (segment ns es i) \<le> 256"
proof -
  assume t: "trie ns es ws" and i: "i < length ns"
  let ?oe = "out_edges ns es (int i)"
  have "distinct (map kb_label ?oe)"
  proof -
    have "map (\<lambda>e. ws ! nat (kb_target e)) ?oe = map (\<lambda>c. ws ! i @ [c]) (map kb_label ?oe)"
      using trie_edge(3) [OF t i] by simp
    with out_edges_children(2) [OF t, of i] i trieD(1) [OF t] show ?thesis
      by (auto simp: distinct_map dest: inj_on_imageI2)
  qed
  from distinct_card [OF this] have "length ?oe = card (byte ` set (map kb_label ?oe))"
    by (subst card_image) (auto simp: byte_def inj_on_def)
  also have "\<dots> \<le> card {..<256 :: nat}" by (intro card_mono) (auto simp: byte_def)
  finally show ?thesis by (simp add: segment_def sort_edges_sorted)
qed

section \<open>Transitions of the matcher\<close>

definition transitions :: "contentModerationKeywordMatcher \<Rightarrow> string list \<Rightarrow> bool" where
  "transitions m ws \<longleftrightarrow> (\<forall>s < length ws. \<forall>c. case matcher_next m (int s) c of
     v \<Rightarrow> (if ws ! s @ [c] \<in> set ws then 0 < v \<and> nat v < length ws \<and> ws ! nat v = ws ! s @ [c] else v = 0))"

lemma unique_edge:
  assumes t: "trie ns es ws" and s: "s < length ns" and e: "e \<in> set (out_edges ns es (int s))" "kb_label e = c"
  shows "ws ! s @ [c] \<in> set ws" "0 < kb_target e" "nat (kb_target e) < length ws" "ws ! nat (kb_target e) = ws ! s @ [c]"
  using trie_edge(1-3) [OF t s e(1)] e(2) nth_mem [OF trie_edge(2) [OF t s e(1)]] by auto

lemma fold_updates:
  "fold (\<lambda>e f. f(kb_label e := kb_target e)) xs f c = f c \<and> (\<forall>e \<in> set xs. kb_label e \<noteq> c)
     \<or> (\<exists>e \<in> set xs. kb_label e = c \<and> fold (\<lambda>e f. f(kb_label e := kb_target e)) xs f c = kb_target e)"
proof (induction xs arbitrary: f)
  case (Cons x xs)
  from Cons [of "f(kb_label x := kb_target x)"] show ?case by (cases "kb_label x = c") auto
qed simp

lemma root_transition:
  assumes t: "trie ns es ws"
  shows "case fold (\<lambda>e f. f(kb_label e := kb_target e)) (out_edges ns es 0) (\<lambda>_. 0) c of
     v \<Rightarrow> (if [c] \<in> set ws then 0 < v \<and> nat v < length ws \<and> ws ! nat v = [c] else v = 0)"
proof -
  have 0: "0 < length ns" using trieD(1) [OF t] trie_nonempty [OF t] by simp
  from fold_updates [of "out_edges ns es 0" "\<lambda>_. 0" c]
consider (none) "fold (\<lambda>e f. f(kb_label e := kb_target e)) (out_edges ns es 0) (\<lambda>_. 0) c = 0"
      "\<forall>e \<in> set (out_edges ns es 0). kb_label e \<noteq> c"
    | (found) e where "e \<in> set (out_edges ns es 0)" "kb_label e = c"
      "fold (\<lambda>e f. f(kb_label e := kb_target e)) (out_edges ns es 0) (\<lambda>_. 0) c = kb_target e"
    by blast
  then show ?thesis
  proof cases
    case none
    have "[c] \<notin> set ws"
    proof
      assume "[c] \<in> set ws"
      then have "[c] \<in> children ws (ws ! 0)" using trieD(4) [OF t] by (simp add: children_def)
      with out_edges_children(1) [OF t trie_nonempty [OF t]] obtain e
        where e: "e \<in> set (out_edges ns es 0)" "[c] = ws ! nat (kb_target e)" by auto
      with trie_edge(3) [OF t 0, of e] trieD(4) [OF t] have "kb_label e = c" by simp
      with e(1) none(2) show False by blast
    qed
    with none(1) show ?thesis by simp
  next
    case found
    with unique_edge [OF t 0, of e c] trieD(4) [OF t] show ?thesis by simp
  qed
qed

lemma search_segment:
  assumes E: "E = xs @ seg @ ys" and so: "sorted_wrt label_less seg"
    and l: "l = int (length xs)" "r = l + int (length seg)" and k: "k = binary_search E c l r"
  shows "k < r \<Longrightarrow> E ! nat k \<in> set seg"
    and "e \<in> set seg \<Longrightarrow> ke_label e = c \<Longrightarrow> k < r \<and> ke_label (E ! nat k) = c"
proof -
  have nth: "E ! nat i = seg ! nat (i - l)" if "l \<le> i" "i < r" for i
    using that l by (simp add: E nth_append nat_diff_distrib)
  have sorted: "label_less (E ! nat i) (E ! nat j)" if "l \<le> i" "i \<le> j" "j < r" for i j
  proof (cases "i = j")
    case False
    with sorted_wrt_nth_less [OF so, of "nat (i - l)" "nat (j - l)"] that l
    have "label_less (seg ! nat (i - l)) (seg ! nat (j - l))" by auto
    with that show ?thesis by (simp add: nth)
  qed simp
  have bs: "l \<le> k" "k \<le> r" "\<And>i. l \<le> i \<Longrightarrow> i < k \<Longrightarrow> byte (ke_label (E ! nat i)) < byte c"
    "\<And>i. k \<le> i \<Longrightarrow> i < r \<Longrightarrow> byte c \<le> byte (ke_label (E ! nat i))"
    using binary_search_bound [of l r E c, OF _ _ sorted] l k by auto
  show "E ! nat k \<in> set seg" if "k < r" using that bs(1) l by (auto simp: nth intro!: nth_mem)
  show "k < r \<and> ke_label (E ! nat k) = c" if e: "e \<in> set seg" "ke_label e = c"
  proof -
    from e obtain j where j: "j < length seg" "ke_label (seg ! j) = c" by (auto simp: in_set_conv_nth)
    have lab: "ke_label (E ! nat (l + int j)) = c" using j nth [of "l + int j"] l by simp
    have kj: "k \<le> l + int j" using bs(3) [of "l + int j"] lab by force
    with j(1) l have kr: "k < r" by simp
    have "byte (ke_label (E ! nat k)) = byte c"
      using bs(4) [OF order_refl kr] sorted [OF bs(1) kj] j(1) l lab by simp
    with kr show ?thesis by (simp add: byte_def)
  qed
qed

lemma segment_search:
  assumes t: "trie ns es ws" and s: "s < length ns" and l: "laid_out ns es (length ns) ns'" and nz: "s \<noteq> 0"
    and m: "km_nodes m = ns'" "km_edges m = concat (map (segment ns es) [0..<length ns])"
  shows "case matcher_next m (int s) c of
     v \<Rightarrow> (if ws ! s @ [c] \<in> set ws then 0 < v \<and> nat v < length ws \<and> ws ! nat v = ws ! s @ [c] else v = 0)"
proof -
  let ?seg = "segment ns es s" and ?E = "km_edges m"
  define l r where "l = int (offset ns es s)" and "r = l + int (length (segment ns es s))"
  define k where "k = binary_search ?E c l r"
  have "offset ns es s < 2 ^ 31" using offset_bound [OF t, of s] s trieD(2,3) [OF t] by simp
  then have lo: "u32 (int (offset ns es s)) = l" by (simp add: l_def)
  have cnt: "u16 (int (length ?seg)) = int (length ?seg)" using segment_length [OF t s] by (simp add: u16_def)
  have u: "[0..<length ns] = [0..<s] @ s # [Suc s..<length ns]"
    using s upt_add_eq_append [of 0 s "length ns - s"] upt_conv_Cons [of s "length ns"] by simp
  have E: "?E = concat (map (segment ns es) [0..<s]) @ ?seg @ concat (map (segment ns es) [Suc s..<length ns])"
    unfolding m u by simp
  note found = search_segment [OF E _ l_def [unfolded offset_def] r_def k_def]
  have so: "sorted_wrt label_less ?seg" by (simp add: segment_def sort_edges_sorted)
  have next_eq: "matcher_next m (int s) c = (if k < r \<and> ke_label (?E ! nat k) = c then ke_target (?E ! nat k) else 0)"
    using nz s l lo cnt by (simp add: matcher_next_def m laid_out_def Let_def k_def r_def)
  have edge: "\<exists>b \<in> set (out_edges ns es (int s)). kb_label b = c \<and> kb_target b = ke_target (?E ! nat k)"
    if "k < r" "ke_label (?E ! nat k) = c"
    using found(1) [OF so that(1)] that(2) by (auto simp: segment_def sort_edges_sorted)
  show ?thesis
  proof (cases "ws ! s @ [c] \<in> set ws")
    case False
    then have "\<not> (k < r \<and> ke_label (?E ! nat k) = c)" using edge unique_edge(1) [OF t s] by blast
    then have "matcher_next m (int s) c = 0" unfolding next_eq by (rule if_not_P)
    with False show ?thesis by simp
  next
    case True
    then have "ws ! s @ [c] \<in> children ws (ws ! s)" by (simp add: children_def)
    with out_edges_children(1) [OF t] s trieD(1) [OF t] obtain b
      where b: "b \<in> set (out_edges ns es (int s))" "ws ! s @ [c] = ws ! nat (kb_target b)" by auto
    with trie_edge(3) [OF t s b(1)] have "kb_label b = c" by simp
    with b(1) have "\<lparr>ke_target = kb_target b, ke_label = c\<rparr> \<in> set ?seg" by (auto simp: segment_def sort_edges_sorted)
    from found(2) [OF so this] have k: "k < r \<and> ke_label (?E ! nat k) = c" by simp
    with edge obtain b' where b': "b' \<in> set (out_edges ns es (int s))" "kb_label b' = c" "kb_target b' = ke_target (?E ! nat k)"
      by blast
    with unique_edge [OF t s b'(1,2)] k have "0 < matcher_next m (int s) c" "nat (matcher_next m (int s) c) < length ws"
      "ws ! nat (matcher_next m (int s) c) = ws ! s @ [c]" unfolding next_eq if_P [OF k] by auto
    with True show ?thesis by simp
  qed
qed

section \<open>The matcher is the automaton of its keywords\<close>

definition automaton :: "(string \<Rightarrow> string) \<Rightarrow> string list \<Rightarrow> contentModerationKeywordMatcher \<Rightarrow> string list \<Rightarrow> bool" where
  "automaton lower kws m ws \<longleftrightarrow> km_keywords m = kws \<and> length (km_nodes m) = length ws \<and> ws ! 0 = [] \<and> 0 < length ws \<and> distinct ws
     \<and> prefix_closed (set ws) \<and> (\<forall>w \<in> set ws. length w < length ws)
     \<and> (\<forall>i < length kws. kws ! i \<noteq> [] \<longrightarrow> lower (kws ! i) \<in> set ws \<and> lower (kws ! i) \<noteq> [])
     \<and> (\<forall>s < length ws. node_final lower kws (km_nodes m) ws s) \<and> transitions m ws"

lemma new_matcher_automaton:
  assumes size: "length kws < 2 ^ 31" "Suc (sum_list (map (\<lambda>k. length (lower k)) kws)) < 2 ^ 31"
    and ne: "\<And>k. lower k = [] \<longleftrightarrow> k = []" and some: "k \<in> set kws" "k \<noteq> []"
  shows "\<exists>m ws. newContentModerationKeywordMatcher lower kws = Some m \<and> automaton lower kws m ws"
proof -
  from build_trie_correct [OF size] obtain ns es ws where b: "build_trie lower kws = (ns, es)"
    and k: "keyword_trie lower kws (length kws) ns es ws" by auto
  from k have t: "trie ns es ws" and mem: "\<And>i. i < length kws \<Longrightarrow> kws ! i \<noteq> [] \<Longrightarrow> lower (kws ! i) \<in> set ws"
    by (auto simp: keyword_trie_def)
  from some mem have "lower k \<in> set ws" by (auto simp: in_set_conv_nth)
  then have "length (lower k) < length ws" by (rule word_length [OF t])
  moreover have "lower k \<noteq> []" using ne some(2) by simp
  ultimately have n1: "length ns \<noteq> 1" using trieD(1) [OF t] by (cases "lower k") auto
  let ?ns = "link_failures (length ns) es (map kb_target (out_edges ns es 0)) ns"
  from linked_correct [OF trie_linking [OF k]] ne
  have l: "linking lower kws ?ns es ws (set ws)" and edge: "map kn_edgeStart ?ns = map kn_edgeStart ns" by auto
  note t1 = linkingD(1) [OF l]
  from layout_fold [of "length ?ns" ?ns es] obtain ns' where
    f: "fold (layout_node es) [0..<length ?ns] (?ns, []) = (ns', concat (map (segment ?ns es) [0..<length ?ns]))"
    and lo: "laid_out ?ns es (length ?ns) ns'" by auto
  define m where "m = \<lparr>km_nodes = ns', km_edges = concat (map (segment ?ns es) [0..<length ?ns]),
    km_rootTransitions = fold (\<lambda>e f. f(kb_label e := kb_target e)) (out_edges ns es 0) (\<lambda>_. 0), km_keywords = kws\<rparr>"
  have m: "newContentModerationKeywordMatcher lower kws = Some m"
    using some n1 by (auto simp: newContentModerationKeywordMatcher_def b f m_def Let_def)
  have len: "length ns' = length ws" using lo trieD(1) [OF t1] by (simp add: laid_out_def)
  have "node_final lower kws ns' ws s" if "s < length ws" for s
    using linkingD(3) [OF l that] lo that trieD(1) [OF t1] by (simp add: node_final_def laid_out_def)
  moreover have "transitions m ws"
    unfolding transitions_def
  proof (intro allI impI)
    fix s c assume s: "s < length ws"
    show "case matcher_next m (int s) c of
       v \<Rightarrow> (if ws ! s @ [c] \<in> set ws then 0 < v \<and> nat v < length ws \<and> ws ! nat v = ws ! s @ [c] else v = 0)"
    proof (cases "s = 0")
      case True
      with root_transition [OF t, of c] trieD(4) [OF t] show ?thesis by (simp add: matcher_next_def m_def)
    next
      case False
      with s trieD(1) [OF t1] show ?thesis by (intro segment_search [OF t1 _ lo]) (simp_all add: m_def)
    qed
  qed
  ultimately have "automaton lower kws m ws"
    using len trieD(4,5) [OF t] trie_nonempty [OF t] trie_prefix_closed [OF t] word_length [OF t] mem ne
    by (simp add: automaton_def m_def)
  with m show ?thesis by blast
qed

lemma automatonD:
  assumes "automaton lower kws m ws"
  shows "km_keywords m = kws" "length (km_nodes m) = length ws" "ws ! 0 = []" "0 < length ws" "prefix_closed (set ws)"
    "distinct ws" "w \<in> set ws \<Longrightarrow> length w < length ws"
    "i < length kws \<Longrightarrow> kws ! i \<noteq> [] \<Longrightarrow> lower (kws ! i) \<in> set ws \<and> lower (kws ! i) \<noteq> []"
    "s < length ws \<Longrightarrow> node_final lower kws (km_nodes m) ws s"
    "s < length ws \<Longrightarrow> case matcher_next m (int s) c of
       v \<Rightarrow> (if ws ! s @ [c] \<in> set ws then 0 < v \<and> nat v < length ws \<and> ws ! nat v = ws ! s @ [c] else v = 0)"
  using assms unfolding automaton_def transitions_def by blast+

lemma follow_correct:
  assumes a: "automaton lower kws m ws"
  shows "searching (set ws) c x (ws ! u) \<Longrightarrow> u < length ws \<Longrightarrow> length (ws ! u) < n \<Longrightarrow>
    \<exists>t. follow n m (int u) c = int t \<and> t < length ws \<and> longest (set ws) (ws ! t) (x @ [c])"
proof (induction n arbitrary: u)
  case (Suc n)
  note closed = automatonD(5) [OF a]
  let ?v = "matcher_next m (int u) c"
  note v = automatonD(10) [OF a Suc.prems(2), of c]
  show ?case
  proof (cases "ws ! u @ [c] \<in> set ws")
    case True
    with v have "0 < ?v" "nat ?v < length ws" "ws ! nat ?v = ws ! u @ [c]" by auto
    with searching_found [OF closed Suc.prems(1) True] show ?thesis by (intro exI [of _ "nat ?v"]) (simp add: Let_def)
  next
    case False
    with v have v0: "?v = 0" by simp
    show ?thesis
    proof (cases "u = 0")
      case True
      with False Suc.prems(1) automatonD(3) [OF a] have "longest (set ws) (ws ! 0) (x @ [c])"
        by (simp add: searching_root [OF closed])
      with v0 True automatonD(4) [OF a] show ?thesis by (intro exI [of _ 0]) (simp add: Let_def)
    next
      case nz: False
      let ?f = "kn_failure (km_nodes m ! u)"
      from automatonD(9) [OF a Suc.prems(2)] have f: "0 \<le> ?f" "nat ?f < length ws" "longest (set ws) (ws ! nat ?f) (tl (ws ! u))"
        by (auto simp: node_final_def)
      have eq: "follow (Suc n) m (int u) c = follow n m ?f c" using v0 nz by (simp add: Let_def)
      have ne: "ws ! u \<noteq> []"
        using nz Suc.prems(2) automatonD(3,4,6) [OF a] by (metis nth_eq_iff_index_eq)
      have "searching (set ws) c x (ws ! nat ?f)" by (rule searching_next [OF closed Suc.prems(1) False ne f(3)])
      moreover have "length (ws ! nat ?f) < n"
        using longestD(2) [OF f(3)] ne Suc.prems(3) by (cases "ws ! u") (auto dest: suffix_length_le)
      ultimately show ?thesis unfolding eq using Suc.IH [of "nat ?f"] f(1,2) by simp
    qed
  qed
qed simp

text \<open>The keyword the matcher is to find: the first of the list that occurs in the text.\<close>

definition first_keyword :: "(string \<Rightarrow> string) \<Rightarrow> string list \<Rightarrow> string \<Rightarrow> string \<times> bool" where
  "first_keyword lower kws input =
     (case find (\<lambda>k. k \<noteq> [] \<and> sublist (lower k) (lower input)) kws of Some k \<Rightarrow> (k, True) | None \<Rightarrow> ([], False))"

lemma first_keyword_least:
  assumes "is_least b (keywords_at lower kws (length kws) (\<lambda>k. sublist k (lower input)))"
  shows "first_keyword lower kws input =
    (if b < 0 \<or> b \<ge> int (length kws) then ([], False) else (kws ! nat b, True))"
proof (cases "b < 0")
  case True
  with assms have "find (\<lambda>k. k \<noteq> [] \<and> sublist (lower k) (lower input)) kws = None"
    by (auto simp: find_None_iff is_least_def keywords_at_def in_set_conv_nth)
  with True show ?thesis by (simp add: first_keyword_def)
next
  case False
  with assms have b: "nat b < length kws" "kws ! nat b \<noteq> []" "sublist (lower (kws ! nat b)) (lower input)"
    "\<And>i. i < length kws \<Longrightarrow> kws ! i \<noteq> [] \<Longrightarrow> sublist (lower (kws ! i)) (lower input) \<Longrightarrow> nat b \<le> i"
    by (auto simp: is_least_def keywords_at_def)
  then have "find (\<lambda>k. k \<noteq> [] \<and> sublist (lower k) (lower input)) kws = Some (kws ! nat b)"
    unfolding find_Some_iff by (intro exI [of _ "nat b"]) (metis less_trans not_less)
  with False b(1) show ?thesis by (simp add: first_keyword_def)
qed

lemma sublist_snoc_iff: "sublist k (x @ [c]) \<longleftrightarrow> sublist k x \<or> suffix k (x @ [c])"
proof
  assume "sublist k (x @ [c])"
  then obtain p q where pq: "x @ [c] = p @ k @ q" by (auto simp: sublist_def)
  then show "sublist k x \<or> suffix k (x @ [c])"
    by (cases q rule: rev_cases) (auto simp: suffix_def sublist_def)
next
  assume "sublist k x \<or> suffix k (x @ [c])"
  then show "sublist k (x @ [c])" by (metis append.assoc sublist_def suffix_imp_sublist)
qed

lemma keywords_at_snoc:
  assumes a: "automaton lower kws m ws" and l: "longest (set ws) (ws ! t) (x @ [c])"
  shows "keywords_at lower kws (length kws) (\<lambda>k. sublist k x) \<union> keywords_at lower kws (length kws) (\<lambda>k. suffix k (ws ! t))
    = keywords_at lower kws (length kws) (\<lambda>k. sublist k (x @ [c]))"
proof -
  have "suffix (lower (kws ! i)) (ws ! t) \<longleftrightarrow> suffix (lower (kws ! i)) (x @ [c])" if "i < length kws" "kws ! i \<noteq> []" for i
    using longestD(2,3) [OF l] automatonD(8) [OF a that] suffix_order.trans by blast
  then show ?thesis by (auto simp: keywords_at_def sublist_snoc_iff)
qed

lemma keywords_at_mono: "(\<And>k. P k \<Longrightarrow> Q k) \<Longrightarrow> keywords_at lower kws m P \<subseteq> keywords_at lower kws m Q"
  by (auto simp: keywords_at_def)

lemma is_least_zero: "is_least 0 S \<Longrightarrow> S \<subseteq> T \<Longrightarrow> is_least 0 T"
  by (auto simp: is_least_def)

lemma match_loop_correct:
  assumes a: "automaton lower kws m ws"
  shows "longest (set ws) (ws ! s) x \<Longrightarrow> s < length ws \<Longrightarrow> lower input = x @ rest
    \<Longrightarrow> is_least b (keywords_at lower kws (length kws) (\<lambda>k. sublist k x))
    \<Longrightarrow> match_loop m rest (int s) b = first_keyword lower kws input"
proof (induction rest arbitrary: s x b)
  case Nil
  then show ?case using first_keyword_least [of b lower kws input] automatonD(1) [OF a] by simp
next
  case (Cons c rest)
  have "length (ws ! s) < length ws" using automatonD(7) [OF a] Cons.prems(2) by simp
  note f = follow_correct [OF a searching_start [OF automatonD(5) [OF a] Cons.prems(1)] Cons.prems(2) this]
  from f [of c] obtain t where t: "follow (length ws) m (int s) c = int t" "t < length ws" "longest (set ws) (ws ! t) (x @ [c])" by blast
  let ?b = "minKeywordIndex b (kn_bestKeyword (km_nodes m ! t))"
  have "is_least (kn_bestKeyword (km_nodes m ! t)) (keywords_at lower kws (length kws) (\<lambda>k. suffix k (ws ! t)))"
    using automatonD(9) [OF a t(2)] by (simp add: node_final_def)
  from is_least_min [OF Cons.prems(4) this]
  have b: "is_least ?b (keywords_at lower kws (length kws) (\<lambda>k. sublist k (x @ [c])))"
    unfolding keywords_at_snoc [OF a t(3)] .
  show ?case
  proof (cases "?b = 0")
    case True
    have "keywords_at lower kws (length kws) (\<lambda>k. sublist k (x @ [c])) \<subseteq> keywords_at lower kws (length kws) (\<lambda>k. sublist k (lower input))"
    proof (rule keywords_at_mono)
      have "lower input = [] @ (x @ [c]) @ rest" using Cons.prems(3) by simp
      then have "sublist (x @ [c]) (lower input)" unfolding sublist_def by blast
      then show "sublist k (x @ [c]) \<Longrightarrow> sublist k (lower input)" for k by (rule sublist_order.order.trans [rotated])
    qed
    with b True have z: "is_least 0 (keywords_at lower kws (length kws) (\<lambda>k. sublist k (lower input)))"
      by (metis is_least_zero)
    then have "0 < length kws" by (auto simp: is_least_def keywords_at_def)
    with first_keyword_least [OF z] True t(1) show ?thesis
      by (simp add: automatonD(1,2) [OF a] Let_def)
  next
    case False
    have "match_loop m rest (int t) ?b = first_keyword lower kws input"
      using Cons.prems(3) by (intro Cons.IH [OF t(3,2) _ b]) simp
    with False t(1) show ?thesis by (simp add: automatonD(2) [OF a] Let_def)
  qed
qed

lemma matcher_correct:
  assumes size: "length kws < 2 ^ 31" "Suc (sum_list (map (\<lambda>k. length (lower k)) kws)) < 2 ^ 31"
    and ne: "\<And>k. lower k = [] \<longleftrightarrow> k = []"
  shows "Match lower (newContentModerationKeywordMatcher lower kws) input = first_keyword lower kws input"
proof (cases "\<exists>k \<in> set kws. k \<noteq> []")
  case False
  then have no: "\<forall>k \<in> set kws. k = []" by simp
  have "\<forall>ik \<in> set xs. snd ik = [] \<Longrightarrow> fold (insert_keyword lower) xs b = b" for xs b
    by (induction xs) (auto simp: insert_keyword_def)
  moreover have "\<forall>ik \<in> set (enumerate 0 kws). snd ik = []" using no by (metis image_eqI map_snd_enumerate set_map)
  ultimately have "fold (insert_keyword lower) (enumerate 0 kws) b = b" for b by blast
  then have "newContentModerationKeywordMatcher lower kws = None"
    by (simp add: newContentModerationKeywordMatcher_def build_trie_def)
  moreover have "find (\<lambda>k. k \<noteq> [] \<and> sublist (lower k) (lower input)) kws = None"
    unfolding find_None_iff using no by blast
  then have "first_keyword lower kws input = ([], False)" by (simp add: first_keyword_def)
  ultimately show ?thesis by (simp add: Match_def)
next
  case True
  then obtain k where k: "k \<in> set kws" "k \<noteq> []" by blast
  from new_matcher_automaton [OF size ne k] obtain m ws
    where m: "newContentModerationKeywordMatcher lower kws = Some m" and a: "automaton lower kws m ws" by blast
  note d = automatonD [OF a]
  have root: "longest (set ws) (ws ! 0) []" using d(3,5) by (simp add: longest_def prefix_closed_def)
  have "keywords_at lower kws (length kws) (\<lambda>k. sublist k []) = {}" using ne by (auto simp: keywords_at_def)
  then have none: "is_least (-1) (keywords_at lower kws (length kws) (\<lambda>k. sublist k []))" by simp
  show ?thesis
  proof (cases "input = []")
    case True
    then have "lower input = []" using ne by simp
    with first_keyword_least [of "-1" lower kws input] none True m show ?thesis by (simp add: Match_def)
  next
    case False
    moreover from d(2,4) have "km_nodes m \<noteq> []" by auto
    moreover from d(1) k(1) have "km_keywords m \<noteq> []" by auto
    ultimately have "Match lower (Some m) input = match_loop m (lower input) (int 0) (-1)" by (simp add: Match_def)
    with match_loop_correct [OF a root d(4) _ none, of input "lower input"] m show ?thesis by simp
  qed
qed

end
