(* ===== verification/StreamCircuit.thy ===== *)
theory StreamCircuit
  imports GoStrings "HOL-Library.AList"
begin

text \<open>
  The circuit breaker that quarantines a proxy whose streams keep breaking off
  (\<open>service/openai_proxy_stream_circuit.go\<close>).

  A \<open>time.Time\<close> is the number of nanoseconds since the zero time, so \<open>IsZero\<close> is equality
  with 0; a \<open>time.Duration\<close> is a 64-bit number of nanoseconds.  The map \<open>entries\<close> is an association list;
  Go visits the keys of a map in an unspecified order, which is the argument \<open>arrange\<close> of the
  operations that range over it.  The mutex makes every method atomic, so a history of the circuit is a
  sequence of method calls.
\<close>

section \<open>Durations and settings\<close>

definition Second :: int where
  "Second = 1000000000"

definition Minute :: int where
  "Minute = 60 * Second"

definition time_Sub :: "int \<Rightarrow> int \<Rightarrow> int" where
  \<comment> \<open>\<open>t.Sub(u)\<close> saturates\<close>
  "time_Sub t u = max (- (2 ^ 63)) (min (2 ^ 63 - 1) (t - u))"

record openAIProxyStreamCircuitSettings =
  ps_disabled :: bool
  ps_failureThreshold :: int
  ps_failureWindow :: int
  ps_quarantineTTL :: int
  ps_collapseInterval :: int
  ps_maxEntries :: int

record openAIProxyStreamCircuitEntry =
  pe_failureCount :: int
  pe_windowStart :: int
  pe_lastFailureAt :: int
  pe_blockedUntil :: int
  pe_lastTouched :: int

definition zeroEntry :: openAIProxyStreamCircuitEntry where
  "zeroEntry = \<lparr>pe_failureCount = 0, pe_windowStart = 0, pe_lastFailureAt = 0, pe_blockedUntil = 0, pe_lastTouched = 0\<rparr>"

record openAIProxyStreamCircuit =
  pc_settings :: openAIProxyStreamCircuitSettings
  pc_entries :: "(int \<times> openAIProxyStreamCircuitEntry) list"

definition default_settings :: openAIProxyStreamCircuitSettings where
  "default_settings = \<lparr>ps_disabled = False, ps_failureThreshold = 2, ps_failureWindow = Minute,
     ps_quarantineTTL = 10 * Minute, ps_collapseInterval = 3 * Second, ps_maxEntries = 4096\<rparr>"

record GatewayOpenAIProxyStreamCircuitConfig =
  gc_Disabled :: bool
  gc_FailureThreshold :: int
  gc_WindowSeconds :: int
  gc_TTLSeconds :: int

definition resolveOpenAIProxyStreamCircuitSettings ::
    "GatewayOpenAIProxyStreamCircuitConfig option \<Rightarrow> openAIProxyStreamCircuitSettings" where
  \<comment> \<open>\<open>None\<close>: a service without configuration\<close>
  "resolveOpenAIProxyStreamCircuitSettings cfg = (case cfg of None \<Rightarrow> default_settings
     | Some g \<Rightarrow>
       let s = default_settings\<lparr>ps_disabled := gc_Disabled g\<rparr>;
           s = (if gc_FailureThreshold g > 0 then s\<lparr>ps_failureThreshold := gc_FailureThreshold g\<rparr> else s);
           s = (if gc_WindowSeconds g > 0 then s\<lparr>ps_failureWindow := wrap64 (gc_WindowSeconds g * Second)\<rparr> else s)
       in (if gc_TTLSeconds g > 0 then s\<lparr>ps_quarantineTTL := wrap64 (gc_TTLSeconds g * Second)\<rparr> else s))"

definition newOpenAIProxyStreamCircuit :: "openAIProxyStreamCircuitSettings \<Rightarrow> openAIProxyStreamCircuit" where
  "newOpenAIProxyStreamCircuit s =
     (let s = (if ps_failureThreshold s \<le> 0 then s\<lparr>ps_failureThreshold := ps_failureThreshold default_settings\<rparr> else s);
          s = (if ps_failureWindow s \<le> 0 then s\<lparr>ps_failureWindow := ps_failureWindow default_settings\<rparr> else s);
          s = (if ps_quarantineTTL s \<le> 0 then s\<lparr>ps_quarantineTTL := ps_quarantineTTL default_settings\<rparr> else s);
          s = (if ps_maxEntries s \<le> 0 then s\<lparr>ps_maxEntries := ps_maxEntries default_settings\<rparr> else s);
          s = (if ps_collapseInterval s < 0 then s\<lparr>ps_collapseInterval := 0\<rparr> else s)
      in \<lparr>pc_settings = s, pc_entries = []\<rparr>)"

section \<open>Methods of the circuit\<close>

definition set_entry :: "int \<Rightarrow> openAIProxyStreamCircuitEntry \<Rightarrow> openAIProxyStreamCircuit \<Rightarrow> openAIProxyStreamCircuit" where
  "set_entry k e c = c\<lparr>pc_entries := AList.update k e (pc_entries c)\<rparr>"

definition delete_entry :: "int \<Rightarrow> openAIProxyStreamCircuit \<Rightarrow> openAIProxyStreamCircuit" where
  "delete_entry k c = c\<lparr>pc_entries := AList.delete k (pc_entries c)\<rparr>"

definition is_full :: "openAIProxyStreamCircuit \<Rightarrow> bool" where
  "is_full c \<longleftrightarrow> int (length (pc_entries c)) \<ge> ps_maxEntries (pc_settings c)"

definition reclaimable :: "openAIProxyStreamCircuitSettings \<Rightarrow> int \<Rightarrow> openAIProxyStreamCircuitEntry \<Rightarrow> bool" where
  "reclaimable s now e \<longleftrightarrow>
     (pe_blockedUntil e = 0 \<and> time_Sub now (pe_lastTouched e) > ps_failureWindow s)
     \<or> (pe_blockedUntil e \<noteq> 0 \<and> \<not> now < pe_blockedUntil e)"

fun oldest_entry :: "(int \<times> openAIProxyStreamCircuitEntry) list \<Rightarrow> int \<times> int \<Rightarrow> int \<times> int" where
  \<comment> \<open>the loop that looks for the least recently touched entry\<close>
  "oldest_entry [] best = best"
| "oldest_entry ((k, e) # es) best =
     oldest_entry es (if fst best = 0 \<or> pe_lastTouched e < snd best then (k, pe_lastTouched e) else best)"

type_synonym arrangement = "(int \<times> openAIProxyStreamCircuitEntry) list \<Rightarrow> (int \<times> openAIProxyStreamCircuitEntry) list"

definition ensureCapacityLocked :: "arrangement \<Rightarrow> int \<Rightarrow> openAIProxyStreamCircuit \<Rightarrow> openAIProxyStreamCircuit" where
  "ensureCapacityLocked arrange now c =
     (if \<not> is_full c then c
      else
        let c1 = c\<lparr>pc_entries := filter (\<lambda>(k, e). \<not> reclaimable (pc_settings c) now e) (pc_entries c)\<rparr> in
        if \<not> is_full c1 then c1
        else (case oldest_entry (arrange (pc_entries c1)) (0, 0) of
          (oldestProxyID, oldest) \<Rightarrow> if oldestProxyID > 0 then delete_entry oldestProxyID c1 else c1))"

definition count_failure :: "openAIProxyStreamCircuitSettings \<Rightarrow> int \<Rightarrow> openAIProxyStreamCircuitEntry
    \<Rightarrow> openAIProxyStreamCircuitEntry \<times> bool \<times> int" where
  \<comment> \<open>what \<open>recordFailure\<close> does to an entry that is not blocked: the entry to store, and the two results\<close>
  "count_failure s now e0 =
     (let e = (if pe_windowStart e0 = 0 \<or> now < pe_windowStart e0 \<or> time_Sub now (pe_windowStart e0) > ps_failureWindow s
               then e0\<lparr>pe_failureCount := 0, pe_windowStart := now, pe_blockedUntil := 0\<rparr> else e0) in
      if ps_collapseInterval s > 0 \<and> pe_lastFailureAt e \<noteq> 0 \<and> time_Sub now (pe_lastFailureAt e) \<ge> 0
         \<and> time_Sub now (pe_lastFailureAt e) < ps_collapseInterval s
      then (e\<lparr>pe_lastTouched := now\<rparr>, False, 0)
      else
        let e = e\<lparr>pe_failureCount := iadd (pe_failureCount e) 1, pe_lastFailureAt := now, pe_lastTouched := now\<rparr>;
            tripped = (pe_failureCount e \<ge> ps_failureThreshold s);
            e = (if tripped then e\<lparr>pe_blockedUntil := now + ps_quarantineTTL s\<rparr> else e)
        in (e, tripped, pe_blockedUntil e))"

definition recordFailure :: "arrangement \<Rightarrow> int \<Rightarrow> int \<Rightarrow> openAIProxyStreamCircuit \<Rightarrow> openAIProxyStreamCircuit \<times> bool \<times> int" where
  "recordFailure arrange proxyID now c =
     (if ps_disabled (pc_settings c) \<or> proxyID \<le> 0 then (c, False, 0)
      else case map_of (pc_entries c) proxyID of
        Some entry \<Rightarrow>
          if now < pe_blockedUntil entry
          then (set_entry proxyID (entry\<lparr>pe_lastTouched := now\<rparr>) c, False, pe_blockedUntil entry)
          else (case count_failure (pc_settings c) now entry of
            (e, tripped, until) \<Rightarrow> (set_entry proxyID e c, tripped, until))
      | None \<Rightarrow>
          (case count_failure (pc_settings c) now zeroEntry of
            (e, tripped, until) \<Rightarrow> (set_entry proxyID e (ensureCapacityLocked arrange now c), tripped, until)))"

definition recordSuccess :: "int \<Rightarrow> openAIProxyStreamCircuit \<Rightarrow> openAIProxyStreamCircuit \<times> bool" where
  "recordSuccess proxyID c =
     (if proxyID \<le> 0 then (c, False)
      else if map_of (pc_entries c) proxyID = None then (c, False)
      else (delete_entry proxyID c, True))"

definition isBlocked :: "int \<Rightarrow> int \<Rightarrow> openAIProxyStreamCircuit \<Rightarrow> openAIProxyStreamCircuit \<times> bool" where
  "isBlocked proxyID now c =
     (if ps_disabled (pc_settings c) \<or> proxyID \<le> 0 then (c, False)
      else case map_of (pc_entries c) proxyID of
        None \<Rightarrow> (c, False)
      | Some entry \<Rightarrow>
          if pe_blockedUntil entry = 0 then (c, False)
          else if \<not> now < pe_blockedUntil entry then (delete_entry proxyID c, False)
          else (c, True))"

definition activeBlockCount :: "int \<Rightarrow> openAIProxyStreamCircuit \<Rightarrow> nat" where
  "activeBlockCount now c =
     (if ps_disabled (pc_settings c) then 0
      else length (filter (\<lambda>(k, e). pe_blockedUntil e \<noteq> 0 \<and> now < pe_blockedUntil e) (pc_entries c)))"

section \<open>The service's use of it\<close>

record circuit_account =
  ca_Platform :: string
  ca_ProxyID :: "int option"

datatype stream_error = NoError | ContextCanceled | ContextDeadlineExceeded | OtherError

record circuit_service =
  \<comment> \<open>the fields of \<open>OpenAIGatewayService\<close> the circuit uses; its \<open>sync.Once\<close> creates the circuit once\<close>
  cs_cfg :: "GatewayOpenAIProxyStreamCircuitConfig option"
  cs_circuit :: "openAIProxyStreamCircuit option"

definition getOpenAIProxyStreamCircuit :: "circuit_service \<Rightarrow> openAIProxyStreamCircuit" where
  "getOpenAIProxyStreamCircuit s = (case cs_circuit s of Some c \<Rightarrow> c
     | None \<Rightarrow> newOpenAIProxyStreamCircuit (resolveOpenAIProxyStreamCircuitSettings (cs_cfg s)))"

definition openAIProxyStreamCircuitProxyID :: "circuit_account option \<Rightarrow> int \<times> bool" where
  "openAIProxyStreamCircuitProxyID account = (case account of None \<Rightarrow> (0, False)
     | Some a \<Rightarrow> if ca_Platform a \<noteq> ''openai'' then (0, False)
       else (case ca_ProxyID a of None \<Rightarrow> (0, False) | Some p \<Rightarrow> if p \<le> 0 then (0, False) else (p, True)))"

definition recordOpenAIProxyStreamDisconnect ::
    "arrangement \<Rightarrow> circuit_account option \<Rightarrow> stream_error \<Rightarrow> int \<Rightarrow> circuit_service \<Rightarrow> circuit_service" where
  "recordOpenAIProxyStreamDisconnect arrange account streamErr now s =
     (case openAIProxyStreamCircuitProxyID account of (proxyID, ok) \<Rightarrow>
       if \<not> ok \<or> streamErr = NoError \<or> streamErr = ContextCanceled \<or> streamErr = ContextDeadlineExceeded then s
       else s\<lparr>cs_circuit := Some (fst (recordFailure arrange proxyID now (getOpenAIProxyStreamCircuit s)))\<rparr>)"

definition clearOpenAIProxyStreamDisconnect :: "circuit_account option \<Rightarrow> circuit_service \<Rightarrow> circuit_service" where
  "clearOpenAIProxyStreamDisconnect account s =
     (case openAIProxyStreamCircuitProxyID account of (proxyID, ok) \<Rightarrow>
       if \<not> ok then s else s\<lparr>cs_circuit := Some (fst (recordSuccess proxyID (getOpenAIProxyStreamCircuit s)))\<rparr>)"

definition isOpenAIProxyStreamQuarantined :: "bool \<Rightarrow> circuit_account option \<Rightarrow> int \<Rightarrow> circuit_service \<Rightarrow> circuit_service \<times> bool" where
  \<comment> \<open>\<open>bypassed\<close>: the selection pass carries the fail-open mark in its context\<close>
  "isOpenAIProxyStreamQuarantined bypassed account now s =
     (case openAIProxyStreamCircuitProxyID account of (proxyID, ok) \<Rightarrow>
       if \<not> ok \<or> bypassed then (s, False)
       else (case isBlocked proxyID now (getOpenAIProxyStreamCircuit s) of (c, b) \<Rightarrow> (s\<lparr>cs_circuit := Some c\<rparr>, b)))"

end
