(* ===== verification/StreamCircuitCorrect.thy ===== *)
theory StreamCircuitCorrect
  imports StreamCircuit "HOL-Library.Sublist" "HOL-Library.Multiset"
begin

text \<open>
  Histories of the circuit (\<open>circuit_history\<close>), and what holds in every circuit a history leads
  to: the bound on the entries, what a quarantine rests on, and when it ends.
\<close>

section \<open>Histories\<close>

datatype circuit_event = Failure int int | Success int | Probe int int

fun failure_times :: "int \<Rightarrow> circuit_event list \<Rightarrow> int list" where
  "failure_times p [] = []"
| "failure_times p (Failure q t # h) = (if q = p then t # failure_times p h else failure_times p h)"
| "failure_times p (_ # h) = failure_times p h"

lemma failure_times_append: "failure_times p (h @ h') = failure_times p h @ failure_times p h'"
  by (induction h rule: failure_times.induct) auto

lemma failure_times_iff: "t \<in> set (failure_times p h) \<longleftrightarrow> Failure p t \<in> set h"
  by (induction h rule: failure_times.induct) auto

inductive circuit_history :: "openAIProxyStreamCircuitSettings \<Rightarrow> circuit_event list \<Rightarrow> openAIProxyStreamCircuit \<Rightarrow> bool"
  for s where
  start: "circuit_history s [] (newOpenAIProxyStreamCircuit s)"
| failure: "circuit_history s h c \<Longrightarrow> (\<And>xs. mset (arrange xs) = mset xs) \<Longrightarrow>
    circuit_history s (h @ [Failure p t]) (fst (recordFailure arrange p t c))"
| success: "circuit_history s h c \<Longrightarrow> circuit_history s (h @ [Success p]) (fst (recordSuccess p c))"
| probe: "circuit_history s h c \<Longrightarrow> circuit_history s (h @ [Probe p t]) (fst (isBlocked p t c))"

section \<open>What an operation does to the entries\<close>

abbreviation entry_of :: "openAIProxyStreamCircuit \<Rightarrow> int \<Rightarrow> openAIProxyStreamCircuitEntry option" where
  "entry_of c \<equiv> map_of (pc_entries c)"

lemma entry_simps [simp]:
  "entry_of (set_entry p e c) = (entry_of c)(p \<mapsto> e)" "entry_of (delete_entry p c) = (entry_of c)(p := None)"
  "pc_settings (set_entry p e c) = pc_settings c" "pc_settings (delete_entry p c) = pc_settings c"
  by (simp_all add: set_entry_def delete_entry_def update_conv' delete_conv')

lemma map_of_filter_sub: "map_of (filter P xs) k = Some v \<Longrightarrow> distinct (map fst xs) \<Longrightarrow> map_of xs k = Some v"
  by (induction xs) (auto split: if_splits simp: image_iff dest!: map_of_SomeD)

lemma oldest_entry_in:
  "fst (oldest_entry es best) = fst best \<or> fst (oldest_entry es best) \<in> fst ` set es"
  by (induction es best rule: oldest_entry.induct) (auto split: if_splits)

lemma oldest_entry_pos:
  "(\<forall>k \<in> fst ` set es. 0 < k) \<Longrightarrow> es \<noteq> [] \<or> 0 < fst best \<Longrightarrow> 0 \<le> fst best \<Longrightarrow> 0 < fst (oldest_entry es best)"
  by (induction es best rule: oldest_entry.induct) (auto split: if_splits)

definition well_formed :: "openAIProxyStreamCircuit \<Rightarrow> bool" where
  "well_formed c \<longleftrightarrow> distinct (map fst (pc_entries c)) \<and> (\<forall>k \<in> fst ` set (pc_entries c). 0 < k)
     \<and> 0 < ps_maxEntries (pc_settings c) \<and> int (length (pc_entries c)) \<le> ps_maxEntries (pc_settings c)"

lemma filter_bound: "int (length xs) \<le> n \<Longrightarrow> int (length (filter P xs)) \<le> n"
  by (meson length_filter_le of_nat_mono order.trans)

lemma well_formed_delete: "well_formed c \<Longrightarrow> well_formed (delete_entry p c)"
  by (auto simp: well_formed_def delete_entry_def AList.delete_eq distinct_map_filter filter_bound)

lemma ensureCapacity_entries:
  "well_formed c \<Longrightarrow> entry_of (ensureCapacityLocked arrange now c) p = Some e \<Longrightarrow> entry_of c p = Some e"
  by (auto simp: ensureCapacityLocked_def Let_def well_formed_def split: if_splits prod.splits dest: map_of_filter_sub)

lemma ensureCapacity_settings [simp]: "pc_settings (ensureCapacityLocked arrange now c) = pc_settings c"
  by (simp add: ensureCapacityLocked_def Let_def split: prod.split)

lemma ensureCapacity_room:
  assumes c: "well_formed c" and arr: "\<And>xs. mset (arrange xs) = mset xs"
  shows "well_formed (ensureCapacityLocked arrange now c)" "\<not> is_full (ensureCapacityLocked arrange now c)"
proof -
  let ?c1 = "c\<lparr>pc_entries := filter (\<lambda>(k, e). \<not> reclaimable (pc_settings c) now e) (pc_entries c)\<rparr>"
  have c1: "well_formed ?c1" using c by (auto simp: well_formed_def distinct_map_filter filter_bound)
  obtain k t where o: "oldest_entry (arrange (pc_entries ?c1)) (0, 0) = (k, t)" by fastforce
  have del: "well_formed (delete_entry k ?c1) \<and> \<not> is_full (delete_entry k ?c1) \<and> 0 < k" if full: "is_full ?c1"
  proof -
    have st: "set (arrange (pc_entries ?c1)) = set (pc_entries ?c1)" by (metis arr set_mset_mset)
    have ne: "pc_entries ?c1 \<noteq> []" using c1 full by (auto simp: well_formed_def is_full_def)
    then have "arrange (pc_entries ?c1) \<noteq> []" by (metis arr mset_zero_iff)
    with oldest_entry_pos [of "arrange (pc_entries ?c1)" "(0, 0)"] o c1 st have k: "0 < k"
      by (simp add: well_formed_def)
    with oldest_entry_in [of "arrange (pc_entries ?c1)" "(0, 0)"] o st have "k \<in> fst ` set (pc_entries ?c1)" by auto
    then obtain e where "(k, e) \<in> set (pc_entries ?c1)" by auto
    then have "length (AList.delete k (pc_entries ?c1)) < length (pc_entries ?c1)"
      unfolding AList.delete_eq by (rule length_filter_less) simp
    with c1 k well_formed_delete [OF c1] show ?thesis by (simp add: is_full_def delete_entry_def well_formed_def)
  qed
  show "well_formed (ensureCapacityLocked arrange now c)" "\<not> is_full (ensureCapacityLocked arrange now c)"
    using c c1 del by (simp_all add: ensureCapacityLocked_def Let_def o [simplified])
qed

lemma well_formed_set:
  assumes "well_formed c" "0 < p" "entry_of c p \<noteq> None \<or> \<not> is_full c"
  shows "well_formed (set_entry p e c)"
proof -
  have len: "length (AList.update p e xs) = (if p \<in> fst ` set xs then length xs else Suc (length xs))" for xs :: "(int \<times> openAIProxyStreamCircuitEntry) list"
    by (induction xs) auto
  have "p \<in> fst ` set (pc_entries c) \<or> \<not> is_full c" using assms(3) by (auto simp: map_of_eq_None_iff)
  then show ?thesis
    using assms(1,2) by (auto simp: well_formed_def set_entry_def len is_full_def distinct_update dom_update)
qed

lemma history_well_formed: "circuit_history s h c \<Longrightarrow> well_formed c"
proof (induction rule: circuit_history.induct)
  case start
  show ?case by (simp add: well_formed_def newOpenAIProxyStreamCircuit_def Let_def default_settings_def)
next
  case (failure h c arrange p t)
  show ?case
    using failure ensureCapacity_room [OF failure(3,2)] 
    by (auto simp: recordFailure_def intro!: well_formed_set split: option.split prod.split)
next
  case (success h c p)
  then show ?case by (simp add: recordSuccess_def well_formed_delete)
next
  case (probe h c p t)
  then show ?case by (auto simp: isBlocked_def well_formed_delete split: option.split)
qed

lemma record_settings [simp]:
  "pc_settings (fst (recordFailure arrange p t c)) = pc_settings c"
  "pc_settings (fst (recordSuccess p c)) = pc_settings c" "pc_settings (fst (isBlocked p t c)) = pc_settings c"
  by (auto simp: recordFailure_def recordSuccess_def isBlocked_def split: option.split prod.split)

lemma history_settings: "circuit_history s h c \<Longrightarrow> pc_settings c = pc_settings (newOpenAIProxyStreamCircuit s)"
  by (induction rule: circuit_history.induct) simp_all

lemma history_disabled: "circuit_history s h c \<Longrightarrow> ps_disabled (pc_settings c) \<Longrightarrow> entry_of c p = None"
proof (induction rule: circuit_history.induct)
  case start
  then show ?case by (simp add: newOpenAIProxyStreamCircuit_def Let_def)
qed (simp_all only: record_settings, auto simp: recordFailure_def recordSuccess_def isBlocked_def)

lemma history_positive: "circuit_history s h c \<Longrightarrow> entry_of c p = Some e \<Longrightarrow> 0 < p"
  using history_well_formed by (force simp: well_formed_def dest: map_of_SomeD)

section \<open>Invariants of the entries\<close>

text \<open>
  An invariant relates an entry to the failures its proxy has had.  It has to hold of a fresh
  entry, survive being touched during a quarantine, and survive \<open>count_failure\<close>; then it holds of every entry
  of every history.
\<close>

locale entry_invariant =
  fixes S :: openAIProxyStreamCircuitSettings
    and P :: "int list \<Rightarrow> openAIProxyStreamCircuitEntry \<Rightarrow> bool"
  assumes fresh: "P (ts @ [now]) (fst (count_failure S now zeroEntry))"
    and touched: "P ts e \<Longrightarrow> P (ts @ [now]) (e\<lparr>pe_lastTouched := now\<rparr>)"
    and counted: "P ts e \<Longrightarrow> \<not> now < pe_blockedUntil e \<Longrightarrow> P (ts @ [now]) (fst (count_failure S now e))"
begin

lemma history_entry:
  "circuit_history s h c \<Longrightarrow> pc_settings c = S \<Longrightarrow> entry_of c p = Some e \<Longrightarrow> P (failure_times p h) e"
proof (induction arbitrary: p e rule: circuit_history.induct)
  case start
  then show ?case by (simp add: newOpenAIProxyStreamCircuit_def Let_def)
next
  case (failure h c arrange q t)
  note S = failure.prems(1) [unfolded record_settings]
  note IH = failure.IH [OF S]
  note cap = ensureCapacity_entries [OF history_well_formed [OF failure.hyps(1)]]
  show ?case
  proof (cases "p = q \<and> \<not> ps_disabled S \<and> 0 < q")
    case False
    with failure.prems(2) S have e: "entry_of c p = Some e"
      by (auto simp: recordFailure_def dest: cap split: if_splits option.splits prod.splits)
    moreover from e have "p \<noteq> q" using False S history_disabled [OF failure.hyps(1)] history_positive [OF failure.hyps(1)] by auto
    ultimately show ?thesis using IH by (simp add: failure_times_append)
  next
    case True
    then have ft: "failure_times p (h @ [Failure q t]) = failure_times q h @ [t]" by (simp add: failure_times_append)
    show ?thesis
    proof (cases "entry_of c q")
      case None
      with True failure.prems(2) S have "e = fst (count_failure S t zeroEntry)"
        by (auto simp: recordFailure_def split: prod.splits)
      then show ?thesis by (simp add: ft fresh)
    next
      case (Some e0)
      from IH [OF Some] have P: "P (failure_times q h) e0" .
      show ?thesis
      proof (cases "t < pe_blockedUntil e0")
        case b: True
        with True Some failure.prems(2) S have "e = e0\<lparr>pe_lastTouched := t\<rparr>" by (simp add: recordFailure_def)
        with touched [OF P] show ?thesis by (simp add: ft)
      next
        case b: False
        with True Some failure.prems(2) S have "e = fst (count_failure S t e0)"
          by (auto simp: recordFailure_def split: prod.splits)
        with counted [OF P b] show ?thesis by (simp add: ft)
      qed
    qed
  qed
next
  case (success h c q)
  then show ?case by (auto simp: recordSuccess_def failure_times_append split: if_splits)
next
  case (probe h c q t)
  then show ?case by (auto simp: isBlocked_def failure_times_append split: if_splits option.splits)
qed

end

text \<open>A quarantine rests on a failure at most \<open>quarantineTTL\<close> ago.\<close>

definition quarantine_rests :: "int \<Rightarrow> int list \<Rightarrow> openAIProxyStreamCircuitEntry \<Rightarrow> bool" where
  "quarantine_rests ttl ts e \<longleftrightarrow> pe_blockedUntil e = 0 \<or> (\<exists>t \<in> set ts. pe_blockedUntil e = t + ttl)"

lemma quarantine_rests_count:
  "quarantine_rests (ps_quarantineTTL S) ts e \<Longrightarrow> quarantine_rests (ps_quarantineTTL S) (ts @ [now]) (fst (count_failure S now e))"
  by (auto simp: quarantine_rests_def count_failure_def Let_def)

interpretation quarantine: entry_invariant S "quarantine_rests (ps_quarantineTTL S)" for S
proof unfold_locales
  show "quarantine_rests (ps_quarantineTTL S) (ts @ [now]) (fst (count_failure S now zeroEntry))" for ts now
    by (rule quarantine_rests_count) (simp add: quarantine_rests_def zeroEntry_def)
  show "quarantine_rests (ps_quarantineTTL S) ts e \<Longrightarrow> quarantine_rests (ps_quarantineTTL S) (ts @ [now]) (fst (count_failure S now e))"
    for ts e now by (rule quarantine_rests_count)
qed (auto simp: quarantine_rests_def)

lemma not_blocked:
  assumes h: "circuit_history s h c" and t: "\<And>t. Failure p t \<in> set h \<Longrightarrow> t + ps_quarantineTTL (pc_settings c) \<le> now"
  shows "\<not> snd (isBlocked p now c)"
proof (cases "entry_of c p")
  case (Some e)
  from quarantine.history_entry [OF h refl this] show ?thesis
    by (auto simp: isBlocked_def quarantine_rests_def failure_times_iff Some dest!: t)
qed (simp add: isBlocked_def)

text \<open>A trip rests on \<open>failureThreshold\<close> failures, spaced and within the window.\<close>

definition spaced :: "int \<Rightarrow> int list \<Rightarrow> bool" where
  "spaced d ts \<longleftrightarrow> sorted_wrt (\<lambda>a b. b - a \<ge> d) ts"

definition counted_failures :: "openAIProxyStreamCircuitSettings \<Rightarrow> int list \<Rightarrow> openAIProxyStreamCircuitEntry \<Rightarrow> bool" where
  "counted_failures S ts e \<longleftrightarrow> (sorted ts \<and> (\<forall>t \<in> set ts. 0 < t) \<and> ps_collapseInterval S < 2 ^ 63 \<longrightarrow>
     (\<exists>us. subseq us ts \<and> spaced (ps_collapseInterval S) us \<and> pe_failureCount e \<le> int (length us) \<and> - (2 ^ 63) \<le> pe_failureCount e
        \<and> (us \<noteq> [] \<longrightarrow> last us = pe_lastFailureAt e) \<and> (\<forall>u \<in> set us. pe_windowStart e \<le> u)
        \<and> (pe_lastFailureAt e \<noteq> 0 \<longrightarrow> pe_lastFailureAt e \<in> set ts)))"

lemma iadd_one: "- (2 ^ 63) \<le> x \<Longrightarrow> iadd x 1 \<le> x + 1 \<and> - (2 ^ 63) \<le> iadd x 1"
proof -
  assume x: "- (2 ^ 63) \<le> x"
  then have "(x + 1 + 2 ^ 63) mod 2 ^ 64 \<le> x + 1 + 2 ^ 63" by (intro zmod_le_nonneg_dividend) simp
  then show ?thesis using wrap64_in64 [of "x + 1"] by (simp add: iadd_def wrap64_def in64_def)
qed

lemma time_Sub_ge: "u \<le> t \<Longrightarrow> d < 2 ^ 63 \<Longrightarrow> d \<le> time_Sub t u \<longleftrightarrow> d \<le> t - u"
  by (auto simp: time_Sub_def)

definition restart :: "openAIProxyStreamCircuitSettings \<Rightarrow> int \<Rightarrow> openAIProxyStreamCircuitEntry \<Rightarrow> bool" where
  "restart S now e \<longleftrightarrow> pe_windowStart e = 0 \<or> now < pe_windowStart e \<or> time_Sub now (pe_windowStart e) > ps_failureWindow S"

definition collapsed :: "openAIProxyStreamCircuitSettings \<Rightarrow> int \<Rightarrow> openAIProxyStreamCircuitEntry \<Rightarrow> bool" where
  "collapsed S now e \<longleftrightarrow> ps_collapseInterval S > 0 \<and> pe_lastFailureAt e \<noteq> 0 \<and> time_Sub now (pe_lastFailureAt e) \<ge> 0
     \<and> time_Sub now (pe_lastFailureAt e) < ps_collapseInterval S"

lemma count_failure_fields:
  "fst (count_failure S now e) = e' \<Longrightarrow>
     pe_failureCount e' = (let n = (if restart S now e then 0 else pe_failureCount e) in if collapsed S now e then n else iadd n 1)
     \<and> pe_windowStart e' = (if restart S now e then now else pe_windowStart e)
     \<and> pe_lastFailureAt e' = (if collapsed S now e then pe_lastFailureAt e else now)"
  by (auto simp: count_failure_def restart_def collapsed_def Let_def)

lemma spaced_snoc:
  assumes us: "spaced d us" "us \<noteq> [] \<Longrightarrow> d \<le> now - last us" "\<And>u. u \<in> set us \<Longrightarrow> u \<le> now"
  shows "spaced d (us @ [now])"
proof -
  have "d \<le> now - u" if u: "u \<in> set us" for u
  proof (cases "u = last us")
    case False
    from u obtain xs where xs: "us = xs @ [last us]" by (metis append_butlast_last_id empty_iff list.set(1))
    with u False have "u \<in> set xs" by (metis UnE empty_iff insert_iff list.set set_append)
    with us(1) have "d \<le> last us - u" by (subst (asm) xs) (auto simp: spaced_def sorted_wrt_append)
    with us(2,3) u False show ?thesis by (cases "0 \<le> d") force+
  next
    case True
    moreover from u have "us \<noteq> []" by auto
    ultimately show ?thesis using us(2) by simp
  qed
  with us(1) show ?thesis by (simp add: spaced_def sorted_wrt_append)
qed

lemma counted_failures_count:
  assumes e: "counted_failures S ts e"
  shows "counted_failures S (ts @ [now]) (fst (count_failure S now e))"
  unfolding counted_failures_def
proof (intro impI, elim conjE)
  assume s: "sorted (ts @ [now])" "\<forall>t \<in> set (ts @ [now]). 0 < t" "ps_collapseInterval S < 2 ^ 63"
  let ?e = "fst (count_failure S now e)" and ?d = "ps_collapseInterval S"
  note f = count_failure_fields [OF refl, of S now e]
  from s have now: "\<And>t. t \<in> set ts \<Longrightarrow> t \<le> now" by (auto simp: sorted_append)
  from e s obtain us where us: "subseq us ts" "spaced ?d us" "pe_failureCount e \<le> int (length us)" "- (2 ^ 63) \<le> pe_failureCount e"
    "us \<noteq> [] \<Longrightarrow> last us = pe_lastFailureAt e" "\<And>u. u \<in> set us \<Longrightarrow> pe_windowStart e \<le> u"
    "pe_lastFailureAt e \<noteq> 0 \<Longrightarrow> pe_lastFailureAt e \<in> set ts"
    unfolding counted_failures_def sorted_append by (metis Un_iff set_append)
  define vs where "vs = (if restart S now e then [] else us)"
  let ?n = "if restart S now e then 0 else pe_failureCount e"
  have vs: "subseq vs ts" "spaced ?d vs" "?n \<le> int (length vs)" "- (2 ^ 63) \<le> ?n"
    "vs \<noteq> [] \<Longrightarrow> last vs = pe_lastFailureAt e" "\<And>u. u \<in> set vs \<Longrightarrow> pe_windowStart ?e \<le> u"
    using us f by (auto simp: vs_def spaced_def)
  have in_ts: "u \<in> set ts" if "u \<in> set vs" for u using that vs(1) by (metis subseq_order.trans subseq_singleton_left)
  have snoc: "subseq vs (ts @ [now])" "subseq (vs @ [now]) (ts @ [now])"
    using vs(1) by (auto intro: list_emb_append_mono subseq_rev_drop_many)
  show "\<exists>us. subseq us (ts @ [now]) \<and> spaced ?d us \<and> pe_failureCount ?e \<le> int (length us) \<and> - (2 ^ 63) \<le> pe_failureCount ?e
    \<and> (us \<noteq> [] \<longrightarrow> last us = pe_lastFailureAt ?e) \<and> (\<forall>u \<in> set us. pe_windowStart ?e \<le> u)
    \<and> (pe_lastFailureAt ?e \<noteq> 0 \<longrightarrow> pe_lastFailureAt ?e \<in> set (ts @ [now]))"
  proof (cases "collapsed S now e")
    case True
    with vs snoc(1) us(7) f show ?thesis by (intro exI [of _ vs]) (auto simp: Let_def)
  next
    case False
    have "?d \<le> now - last vs" if ne: "vs \<noteq> []"
    proof -
      have l: "pe_lastFailureAt e \<in> set ts" using in_ts [OF last_in_set [OF ne]] vs(5) [OF ne] by simp
      with s(2) now have "pe_lastFailureAt e \<noteq> 0" "pe_lastFailureAt e \<le> now" by auto
      with False s(3) vs(5) [OF ne] show ?thesis
        by (cases "0 < ?d") (auto simp: collapsed_def not_le time_Sub_ge not_less)
    qed
    with vs(2) now in_ts have "spaced ?d (vs @ [now])" by (intro spaced_snoc) auto
    moreover have "pe_windowStart ?e \<le> now" using f by (auto simp: restart_def)
    moreover have "pe_failureCount ?e \<le> int (length (vs @ [now]))" "- (2 ^ 63) \<le> pe_failureCount ?e"
      using f False iadd_one [OF vs(4)] vs(3) by (auto simp: Let_def)
    ultimately show ?thesis using snoc(2) vs(6) f False by (intro exI [of _ "vs @ [now]"]) auto
  qed
qed

interpretation failures: entry_invariant S "counted_failures S" for S
proof unfold_locales
  show "counted_failures S (ts @ [now]) (fst (count_failure S now zeroEntry))" for ts now
    by (rule counted_failures_count) (auto simp: counted_failures_def zeroEntry_def spaced_def intro!: exI [of _ "[]"])
  show "counted_failures S ts e \<Longrightarrow> counted_failures S (ts @ [now]) (fst (count_failure S now e))" for ts e now
    by (rule counted_failures_count)
  show "counted_failures S ts e \<Longrightarrow> counted_failures S (ts @ [now]) (e\<lparr>pe_lastTouched := now\<rparr>)" for ts e now
    by (auto simp: counted_failures_def sorted_append intro: subseq_rev_drop_many)
qed

section \<open>When the circuit trips\<close>

lemma count_failure_results:
  "snd (count_failure S now e) = (\<not> collapsed S now e \<and> pe_failureCount (fst (count_failure S now e)) \<ge> ps_failureThreshold S,
     if collapsed S now e then 0 else pe_blockedUntil (fst (count_failure S now e)))"
  "\<not> collapsed S now e \<Longrightarrow> pe_blockedUntil (fst (count_failure S now e)) =
     (if pe_failureCount (fst (count_failure S now e)) \<ge> ps_failureThreshold S then now + ps_quarantineTTL S
      else if restart S now e then 0 else pe_blockedUntil e)"
  by (auto simp: count_failure_def restart_def collapsed_def Let_def)

lemma new_settings_positive:
  "0 < ps_failureThreshold (pc_settings (newOpenAIProxyStreamCircuit s))"
  "0 < ps_failureWindow (pc_settings (newOpenAIProxyStreamCircuit s))"
  "0 < ps_quarantineTTL (pc_settings (newOpenAIProxyStreamCircuit s))"
  by (simp_all add: newOpenAIProxyStreamCircuit_def Let_def default_settings_def Minute_def Second_def)

lemma recordFailure_counts:
  assumes h: "circuit_history s h c" and r: "recordFailure arrange p now c = (c', True, U)"
  shows "\<exists>e. snd (count_failure (pc_settings c) now e) = (True, U)
    \<and> counted_failures (pc_settings c) (failure_times p h @ [now]) (fst (count_failure (pc_settings c) now e))"
proof (cases "entry_of c p")
  case None
  with r have "snd (count_failure (pc_settings c) now zeroEntry) = (True, U)"
    by (auto simp: recordFailure_def split: if_splits prod.splits)
  with failures.fresh show ?thesis by blast
next
  case (Some e)
  with r have "snd (count_failure (pc_settings c) now e) = (True, U)"
    by (auto simp: recordFailure_def split: if_splits prod.splits)
  with counted_failures_count [OF failures.history_entry [OF h refl Some]] show ?thesis by blast
qed

lemma trip_justified:
  assumes h: "circuit_history s h c" and r: "recordFailure arrange p now c = (c', True, U)"
    and clock: "sorted (failure_times p h @ [now])" "\<And>t. t \<in> set (failure_times p h @ [now]) \<Longrightarrow> 0 < t"
    and width: "ps_failureWindow (pc_settings c) < 2 ^ 63 - 1" "ps_collapseInterval (pc_settings c) < 2 ^ 63"
  shows "\<exists>us. subseq us (failure_times p h @ [now]) \<and> ps_failureThreshold (pc_settings c) \<le> int (length us)
    \<and> spaced (ps_collapseInterval (pc_settings c)) us \<and> (\<forall>u \<in> set us. now - ps_failureWindow (pc_settings c) \<le> u \<and> u \<le> now)"
proof -
  let ?S = "pc_settings c"
  from recordFailure_counts [OF h r] obtain e where e: "snd (count_failure ?S now e) = (True, U)"
    and cf: "counted_failures ?S (failure_times p h @ [now]) (fst (count_failure ?S now e))" by blast
  let ?e = "fst (count_failure ?S now e)"
  from cf clock width(2) obtain us where us: "subseq us (failure_times p h @ [now])" "spaced (ps_collapseInterval ?S) us"
    "pe_failureCount ?e \<le> int (length us)" "\<And>u. u \<in> set us \<Longrightarrow> pe_windowStart ?e \<le> u"
    unfolding counted_failures_def by blast
  have thr: "ps_failureThreshold ?S \<le> int (length us)" using e us(3) by (simp add: count_failure_results)
  have "now - pe_windowStart ?e \<le> ps_failureWindow ?S"
    using width(1) new_settings_positive(2) [of s] history_settings [OF h] count_failure_fields [OF refl, of ?S now e]
    by (auto simp: restart_def time_Sub_def)
  moreover have "u \<le> now" if "u \<in> set us" for u
  proof -
    from that us(1) have "u \<in> set (failure_times p h @ [now])" by (metis subseq_order.trans subseq_singleton_left)
    with clock(1) show ?thesis by (auto simp: sorted_append)
  qed
  ultimately show ?thesis using us thr by (intro exI [of _ us]) fastforce
qed

definition recordFailures :: "arrangement \<Rightarrow> int \<Rightarrow> int list \<Rightarrow> openAIProxyStreamCircuit \<Rightarrow> openAIProxyStreamCircuit" where
  "recordFailures arrange p ts c = foldl (\<lambda>c t. fst (recordFailure arrange p t c)) c ts"

lemma recordFailures_entry:
  assumes c: "entry_of c p = None" "\<not> ps_disabled (pc_settings c)" "0 < p"
    and thr: "0 < ps_failureThreshold (pc_settings c)" "ps_failureThreshold (pc_settings c) < 2 ^ 63"
    and col: "0 \<le> ps_collapseInterval (pc_settings c)" "ps_collapseInterval (pc_settings c) < 2 ^ 63"
  shows "ts \<noteq> [] \<Longrightarrow> int (length ts) \<le> ps_failureThreshold (pc_settings c) \<Longrightarrow> spaced (ps_collapseInterval (pc_settings c)) ts
    \<Longrightarrow> 0 < hd ts \<Longrightarrow> last ts - hd ts \<le> ps_failureWindow (pc_settings c) \<Longrightarrow>
    pc_settings (recordFailures arrange p ts c) = pc_settings c \<and> (\<exists>e. entry_of (recordFailures arrange p ts c) p = Some e
      \<and> pe_failureCount e = int (length ts) \<and> pe_windowStart e = hd ts \<and> pe_lastFailureAt e = last ts \<and> hd ts \<le> last ts
      \<and> pe_blockedUntil e = (if int (length ts) = ps_failureThreshold (pc_settings c) then last ts + ps_quarantineTTL (pc_settings c) else 0))"
proof (induction ts rule: rev_induct)
  case (snoc now ts)
  let ?S = "pc_settings c"
  show ?case
  proof (cases "ts = []")
    case True
    let ?e = "fst (count_failure ?S now zeroEntry)"
    have f: "restart ?S now zeroEntry" "\<not> collapsed ?S now zeroEntry" by (simp_all add: restart_def collapsed_def zeroEntry_def)
    have "entry_of (recordFailures arrange p [now] c) p = Some ?e"
      using c by (simp add: recordFailures_def recordFailure_def split: prod.split)
    moreover have "pc_settings (recordFailures arrange p [now] c) = ?S" by (simp add: recordFailures_def)
    moreover have "iadd 0 1 = 1" by (simp add: iadd_def wrap64_def)
    ultimately show ?thesis
      using True f count_failure_fields [OF refl, of ?S now zeroEntry] count_failure_results(2) [OF f(2)] thr by simp
  next
    case False
    from snoc.prems(3) have sp: "spaced (ps_collapseInterval ?S) ts"
      and gap: "\<And>u. u \<in> set ts \<Longrightarrow> ps_collapseInterval ?S \<le> now - u"
      by (auto simp: spaced_def sorted_wrt_append)
    from gap [of "last ts"] col(1) False have le: "last ts \<le> now" by simp
    with False snoc sp obtain e where S: "pc_settings (recordFailures arrange p ts c) = ?S"
      and e: "entry_of (recordFailures arrange p ts c) p = Some e" "pe_failureCount e = int (length ts)"
        "pe_windowStart e = hd ts" "pe_lastFailureAt e = last ts" "hd ts \<le> last ts" "pe_blockedUntil e = 0"
      by auto
    have f: "\<not> restart ?S now e" "\<not> collapsed ?S now e"
      using e le snoc.prems(4,5) False gap [of "last ts"] col
      by (auto simp: restart_def collapsed_def time_Sub_ge not_less) (auto simp: time_Sub_def)
    have run: "recordFailures arrange p (ts @ [now]) c = fst (recordFailure arrange p now (recordFailures arrange p ts c))"
      by (simp add: recordFailures_def)
    let ?e = "fst (count_failure ?S now e)"
    have "\<not> now < pe_blockedUntil e" using e(5,6) le snoc.prems(4) False by simp
    then have "entry_of (recordFailures arrange p (ts @ [now]) c) p = Some ?e"
      unfolding run using c(2,3) e(1) S by (simp add: recordFailure_def split: prod.split)
    moreover have "iadd (int (length ts)) 1 = int (length (ts @ [now]))"
      using snoc.prems(2) thr(2) by (simp add: iadd_exact in64_def)
    moreover have "pc_settings (recordFailures arrange p (ts @ [now]) c) = ?S" by (simp add: run S)
    ultimately show ?thesis
      using f count_failure_fields [OF refl, of ?S now e] count_failure_results(2) [OF f(2)] e le False snoc.prems(2)
      by (simp add: Let_def)
  qed
qed simp

end
