(* ===== verification/GoJsonCorrect.thy ===== *)
theory GoJsonCorrect
  imports GoJson
begin

text \<open>
  Round trips of \<open>encoding/json\<close>: what the parser returns is well formed (\<open>wf_json\<close>), what the
  printer writes of a well-formed tree is parsed back, an encoded string is decoded to itself if it is valid
  UTF-8, and compaction changes no decoded string.
\<close>

section \<open>Number literals\<close>

definition all_digits :: "string \<Rightarrow> bool" where
  "all_digits ds \<longleftrightarrow> (\<forall>c\<in>set ds. is_digit c)"

definition int_ok :: "string \<Rightarrow> bool" where
  "int_ok i \<longleftrightarrow> i = ''0'' \<or> (\<exists>c ds. i = c # ds \<and> c \<noteq> CHR ''0'' \<and> is_digit c \<and> all_digits ds)"

definition frac_ok :: "string \<Rightarrow> bool" where
  "frac_ok f \<longleftrightarrow> f = [] \<or> (\<exists>ds. f = CHR ''.'' # ds \<and> ds \<noteq> [] \<and> all_digits ds)"

definition exp_ok :: "string \<Rightarrow> bool" where
  "exp_ok e \<longleftrightarrow> e = [] \<or> (\<exists>c sg ds. e = c # sg @ ds \<and> (c = CHR ''e'' \<or> c = CHR ''E'')
     \<and> (sg = [] \<or> sg = ''+'' \<or> sg = ''-'') \<and> ds \<noteq> [] \<and> all_digits ds)"

definition num_ok :: "string \<Rightarrow> bool" where
  \<comment> \<open>the number literals of JSON\<close>
  "num_ok n \<longleftrightarrow> (\<exists>sg i f e. n = sg @ i @ f @ e \<and> (sg = [] \<or> sg = ''-'') \<and> int_ok i \<and> frac_ok f \<and> exp_ok e)"

definition delim :: "string \<Rightarrow> bool" where
  \<comment> \<open>what may follow a number without being read as a part of it\<close>
  "delim r \<longleftrightarrow> (case r of [] \<Rightarrow> True
     | c # _ \<Rightarrow> \<not> is_digit c \<and> c \<noteq> CHR ''.'' \<and> c \<noteq> CHR ''e'' \<and> c \<noteq> CHR ''E'')"

definition no_digit :: "string \<Rightarrow> bool" where
  "no_digit r \<longleftrightarrow> (case r of [] \<Rightarrow> True | c # _ \<Rightarrow> \<not> is_digit c)"

lemma delim_simps [simp]:
  "delim []" "delim (CHR '','' # r)" "delim (CHR '']'' # r)" "delim (CHR ''}'' # r)"
  by (simp_all add: delim_def is_digit_def byte_def)

lemma delim_no_digit: "delim r \<Longrightarrow> no_digit r"
  by (auto simp: delim_def no_digit_def split: list.splits)

lemma all_digits_take: "all_digits (takeWhile is_digit s)"
  by (auto simp: all_digits_def dest: set_takeWhileD)

lemma digits_app:
  "all_digits ds \<Longrightarrow> no_digit r \<Longrightarrow> takeWhile is_digit (ds @ r) = ds \<and> dropWhile is_digit (ds @ r) = r"
  by (induction ds) (auto simp: all_digits_def no_digit_def split: list.splits)

lemma special_not_digit: "\<not> is_digit (CHR ''.'')" "\<not> is_digit (CHR ''e'')" "\<not> is_digit (CHR ''E'')"
    "\<not> is_digit (CHR ''-'')" "\<not> is_digit (CHR ''+'')" "is_digit (CHR ''0'')"
  by (simp_all add: is_digit_def byte_def)

lemma no_digit_hd: "no_digit r \<Longrightarrow> r = c # cs \<Longrightarrow> \<not> is_digit c"
  by (simp add: no_digit_def)

lemma scan_int_app: "int_ok i \<Longrightarrow> no_digit r \<Longrightarrow> scan_int (i @ r) = Some (i, r)"
  by (auto simp: int_ok_def scan_int_def digits_app)

lemma scan_frac_app:
  "frac_ok f \<Longrightarrow> no_digit r \<Longrightarrow> (\<And>cs. r \<noteq> CHR ''.'' # cs) \<Longrightarrow> scan_frac (f @ r) = Some (f, r)"
  by (auto simp: frac_ok_def scan_frac_def digits_app split: list.splits)

lemma digits_no_sign: "all_digits ds \<Longrightarrow> ds \<noteq> [] \<Longrightarrow> \<exists>d es. ds = d # es \<and> d \<noteq> CHR ''+'' \<and> d \<noteq> CHR ''-''"
  using special_not_digit by (cases ds) (auto simp: all_digits_def)

lemma scan_exp_app: "exp_ok e \<Longrightarrow> delim r \<Longrightarrow> scan_exp (e @ r) = Some (e, r)"
proof (cases "e = []")
  case True
  assume "delim r"
  with True show ?thesis by (simp add: scan_exp_def delim_def split: list.splits)
next
  case False
  assume ok: "exp_ok e" and r: "delim r"
  obtain c sg ds where e: "e = c # sg @ ds" "sg = [] \<or> sg = ''+'' \<or> sg = ''-''"
    and ds: "ds \<noteq> []" "all_digits ds" and c: "c = CHR ''e'' \<or> c = CHR ''E''"
    using ok False unfolding exp_ok_def by blast
  obtain d es where d: "ds = d # es" "d \<noteq> CHR ''+''" "d \<noteq> CHR ''-''"
    using digits_no_sign [OF ds(2,1)] by blast
  have t: "takeWhile is_digit (d # es @ r) = ds" "dropWhile is_digit (d # es @ r) = r"
    using digits_app [OF ds(2) delim_no_digit [OF r]] d by auto
  have "(case sg @ d # es @ r of [] \<Rightarrow> ([], []) | x # xs \<Rightarrow>
      if x = CHR ''+'' \<or> x = CHR ''-'' then ([x], xs) else ([], sg @ d # es @ r)) = (sg, d # es @ r)"
    using e(2) d(2,3) by auto
  then show "scan_exp (e @ r) = Some (e, r)"
    using c t ds(1) unfolding e(1) scan_exp_def by (auto simp: d(1))
qed

lemma exp_ok_hd: "exp_ok e \<Longrightarrow> delim r \<Longrightarrow> no_digit (e @ r) \<and> (\<forall>cs. e @ r \<noteq> CHR ''.'' # cs)"
  by (cases r) (auto simp: exp_ok_def no_digit_def delim_def special_not_digit)

lemma frac_ok_hd: "frac_ok f \<Longrightarrow> no_digit r \<Longrightarrow> no_digit (f @ r)"
  by (auto simp: frac_ok_def no_digit_def special_not_digit)

lemma int_ok_hd: "int_ok i \<Longrightarrow> \<exists>c cs. i = c # cs \<and> is_digit c \<and> c \<noteq> CHR ''-''"
  using special_not_digit by (auto simp: int_ok_def)

definition sign_split :: "string \<Rightarrow> string \<times> string" where
  "sign_split s = (case s of c # cs \<Rightarrow> if c = CHR ''-'' then ([c], cs) else ([], s) | [] \<Rightarrow> ([], []))"

lemma scan_number_sign: "scan_number s = (case sign_split s of (sg, s0) \<Rightarrow>
    case scan_int s0 of None \<Rightarrow> None
    | Some (i, s1) \<Rightarrow> (case scan_frac s1 of None \<Rightarrow> None
      | Some (f, s2) \<Rightarrow> (case scan_exp s2 of None \<Rightarrow> None
        | Some (e, s3) \<Rightarrow> Some (sg @ i @ f @ e, s3))))"
  by (simp add: scan_number_def sign_split_def)

lemma scan_number_app:
  assumes "num_ok n" and r: "delim r"
  shows "scan_number (n @ r) = Some (n, r)"
proof -
  obtain sg i f e where n: "n = sg @ i @ f @ e" "sg = [] \<or> sg = ''-''"
    and ok: "int_ok i" "frac_ok f" "exp_ok e" using assms(1) by (auto simp: num_ok_def)
  obtain c cs where c: "i = c # cs" "c \<noteq> CHR ''-''" using int_ok_hd [OF ok(1)] by blast
  have "sign_split (n @ r) = (sg, i @ f @ e @ r)"
    using n(2) c unfolding n(1) sign_split_def by auto
  moreover have "scan_exp (e @ r) = Some (e, r)" using ok(3) r by (rule scan_exp_app)
  moreover have "scan_frac (f @ e @ r) = Some (f, e @ r)"
    using exp_ok_hd [OF ok(3) r] by (intro scan_frac_app ok(2)) auto
  moreover have "scan_int (i @ f @ e @ r) = Some (i, f @ e @ r)"
    using exp_ok_hd [OF ok(3) r] frac_ok_hd [OF ok(2)] by (intro scan_int_app ok(1)) auto
  ultimately show ?thesis by (simp add: scan_number_sign n(1))
qed

lemma scan_int_ok: "scan_int s = Some (i, r) \<Longrightarrow> int_ok i"
  by (auto simp: scan_int_def int_ok_def all_digits_take split: list.splits if_splits)

lemma scan_frac_ok: "scan_frac s = Some (f, r) \<Longrightarrow> frac_ok f"
  unfolding scan_frac_def frac_ok_def Let_def
  by (cases s) (use all_digits_take in \<open>force split: if_splits\<close>)+

lemma scan_exp_ok:
  assumes "scan_exp s = Some (e, r)"
  shows "exp_ok e"
proof (cases s)
  case (Cons c cs)
  show ?thesis
  proof (cases "c = CHR ''e'' \<or> c = CHR ''E''")
    case True
    obtain sg rest where sr: "(case cs of d # ds \<Rightarrow> if d = CHR ''+'' \<or> d = CHR ''-'' then ([d], ds) else ([], cs)
        | [] \<Rightarrow> ([], [])) = (sg, rest)" by fastforce
    then have sg: "sg = [] \<or> sg = ''+'' \<or> sg = ''-''" by (auto split: list.splits if_splits)
    have "e = c # sg @ takeWhile is_digit rest" "takeWhile is_digit rest \<noteq> []"
      using assms True by (auto simp: scan_exp_def Cons sr Let_def split: if_splits)
    with sg True show ?thesis unfolding exp_ok_def using all_digits_take by blast
  next
    case False
    with assms show ?thesis by (simp add: scan_exp_def Cons exp_ok_def)
  qed
qed (use assms in \<open>simp add: scan_exp_def exp_ok_def\<close>)

lemma scan_number_ok:
  assumes "scan_number s = Some (n, r)"
  shows "num_ok n"
proof -
  obtain sg s0 where sg: "sign_split s = (sg, s0)" by fastforce
  then have "sg = [] \<or> sg = ''-''" by (auto simp: sign_split_def split: list.splits if_splits)
  moreover obtain i s1 f s2 e where "scan_int s0 = Some (i, s1)" "scan_frac s1 = Some (f, s2)"
      "scan_exp s2 = Some (e, r)" "n = sg @ i @ f @ e"
    using assms unfolding scan_number_sign sg by (auto split: option.splits)
  ultimately show ?thesis
    unfolding num_ok_def
    by (intro exI [of _ sg] exI [of _ i] exI [of _ f] exI [of _ e]) (simp add: scan_int_ok scan_frac_ok scan_exp_ok)
qed

section \<open>String literals\<close>

fun body_ok :: "string \<Rightarrow> bool" where
  \<comment> \<open>what may stand between the quotes of a string literal\<close>
  "body_ok [] = True"
| "body_ok (c # cs) = (c \<noteq> dquote \<and> 32 \<le> byte c \<and>
     (if c = bslash
      then (case cs of [] \<Rightarrow> False
        | d # ds \<Rightarrow> if is_simple_escape d then body_ok ds
            else d = CHR ''u'' \<and> 4 \<le> length ds \<and> list_all is_hex (take 4 ds) \<and> body_ok (drop 4 ds))
      else body_ok cs))"

lemma dquote_bslash [simp]: "dquote \<noteq> bslash" "byte bslash = 92" "\<not> byte dquote < 32"
  by (simp_all add: byte_def)

lemma scan_string_body: "body_ok b \<Longrightarrow> scan_string (b @ dquote # r) = Some (b, r)"
proof (induction b rule: body_ok.induct)
  case (2 c cs)
  show ?case
  proof (cases "c = bslash")
    case True
    with "2.prems" obtain d ds where cs: "cs = d # ds" by (auto split: list.splits)
    show ?thesis
    proof (cases "is_simple_escape d")
      case True
      with 2 cs \<open>c = bslash\<close> show ?thesis by simp
    next
      case False
      with 2 cs \<open>c = bslash\<close> have "scan_string (drop 4 ds @ dquote # r) = Some (drop 4 ds, r)" by simp
      with "2.prems" False cs \<open>c = bslash\<close> show ?thesis by simp
    qed
  qed (use 2 in simp)
qed simp

lemma scan_string_ok: "scan_string s = Some (b, r) \<Longrightarrow> body_ok b \<and> s = b @ dquote # r"
proof (induction s arbitrary: b r rule: scan_string.induct)
  case (2 c cs)
  consider "c = dquote" | "c \<noteq> dquote" "byte c \<ge> 32" "c \<noteq> bslash"
    | d ds where "c = bslash" "cs = d # ds" "is_simple_escape d"
    | d ds where "c = bslash" "cs = d # ds" "\<not> is_simple_escape d" "d = CHR ''u''" "4 \<le> length ds" "list_all is_hex (take 4 ds)"
    using "2.prems" by (auto split: if_splits list.splits)
  then show ?case
  proof cases
    case 1
    with "2.prems" show ?thesis by simp
  next
    case 2
    with "2.prems" obtain b' where "scan_string cs = Some (b', r)" "b = c # b'" by auto
    with 2 "2.IH"(3) show ?thesis by simp
  next
    case (3 d ds)
    with "2.prems" obtain b' where "scan_string ds = Some (b', r)" "b = c # d # b'" by auto
    with 3 "2.IH"(1) [of d ds] show ?thesis by simp
  next
    case (4 d ds)
    with "2.prems" obtain b' where b': "scan_string (drop 4 ds) = Some (b', r)" "b = c # d # take 4 ds @ b'" by auto
    with 4 "2.IH"(2) [of d ds] have "body_ok b'" "drop 4 ds = b' @ dquote # r" by simp_all
    moreover from this(2) have "ds = take 4 ds @ b' @ dquote # r" by (metis append_take_drop_id)
    ultimately show ?thesis using 4 b'(2) by (simp add: is_simple_escape_def)
  qed
qed simp

section \<open>Printing and parsing trees\<close>

fun wf_json :: "json \<Rightarrow> bool" where
  "wf_json (JNum n) = num_ok n"
| "wf_json (JStr b) = body_ok b"
| "wf_json (JArr vs) = (\<forall>v\<in>set vs. wf_json v)"
| "wf_json (JObj kvs) = (\<forall>kv\<in>set kvs. body_ok (fst kv) \<and> wf_json (snd kv))"
| "wf_json _ = True"

text \<open>What the parser returns is well formed.\<close>

lemma p_wf:
  "p_value n s = Some (v, r) \<Longrightarrow> wf_json v"
  "p_elems n s = Some (vs, r) \<Longrightarrow> \<forall>v\<in>set vs. wf_json v"
  "p_members n s = Some (kvs, r) \<Longrightarrow> \<forall>kv\<in>set kvs. body_ok (fst kv) \<and> wf_json (snd kv)"
proof (induction n s and n s and n s arbitrary: v r and vs r and kvs r
       rule: p_value_p_elems_p_members.induct)
  case (2 n s)
  then show ?case
    by (auto dest!: scan_string_ok scan_number_ok split: list.splits if_splits)
next
  case (4 n s)
  then show ?case
    by (auto split: list.splits if_splits option.splits)
next
  case (6 n s)
  from "6.prems" obtain cs k q1 q2 w q3 d q4 where 1: "skip_ws s = dquote # cs"
      "scan_string cs = Some (k, q1)" "skip_ws q1 = CHR '':'' # q2"
      "p_value n q2 = Some (w, q3)" "skip_ws q3 = d # q4"
    by (auto split: list.splits if_splits option.splits)
  have "wf_json w" using "6.IH"(1) 1 by force
  moreover have "body_ok k" using 1(2) scan_string_ok by blast
  ultimately show ?case
    using "6.prems" 1 "6.IH"(2) by (fastforce split: if_splits)
qed simp_all

lemma num_ok_hd: "num_ok n \<Longrightarrow> \<exists>c cs. n = c # cs \<and> (is_digit c \<or> c = CHR ''-'')"
  by (auto simp: num_ok_def dest!: int_ok_hd)

lemma digit_facts: "is_digit c \<or> c = CHR ''-'' \<Longrightarrow> \<not> is_ws c \<and> c \<noteq> dquote \<and> c \<noteq> CHR ''['' \<and> c \<noteq> CHR ''{''
    \<and> c \<noteq> CHR '']'' \<and> c \<noteq> CHR ''n'' \<and> c \<noteq> CHR ''t'' \<and> c \<noteq> CHR ''f''"
  by (auto simp: is_digit_def is_ws_def byte_def)

lemma ws_facts [simp]: "\<not> is_ws dquote" "\<not> is_ws (CHR ''['')" "\<not> is_ws (CHR ''{'')" "\<not> is_ws (CHR ''n'')"
    "\<not> is_ws (CHR ''t'')" "\<not> is_ws (CHR ''f'')" "\<not> is_ws (CHR '']'')" "\<not> is_ws (CHR ''}'')"
    "\<not> is_ws (CHR '','')" "\<not> is_ws (CHR '':'')"
  by (simp_all add: is_ws_def byte_def)

lemma skip_ws_Cons [simp]: "\<not> is_ws c \<Longrightarrow> skip_ws (c # cs) = c # cs"
  by (simp add: skip_ws_def)

lemma print_json_hd: "wf_json v \<Longrightarrow> \<exists>c cs. print_json v = c # cs \<and> \<not> is_ws c \<and> c \<noteq> CHR '']''"
proof (cases v)
  case (JNum m)
  assume "wf_json v"
  with JNum num_ok_hd [of m] digit_facts show ?thesis by fastforce
qed auto

lemma p_value_number:
  assumes "num_ok m" "delim r"
  shows "p_value (Suc n) (m @ r) = Some (JNum m, r)"
proof -
  obtain c cs where c: "m = c # cs" "is_digit c \<or> c = CHR ''-''" using num_ok_hd [OF assms(1)] by blast
  with digit_facts [of c] scan_number_app [OF assms] show ?thesis by simp
qed

lemma Join_Cons: "Join (x # xs) sep = x @ (if xs = [] then [] else sep @ Join xs sep)"
  by (cases xs) auto

lemma p_elems_print:
  assumes "\<And>v r. v \<in> set vs \<Longrightarrow> delim r \<Longrightarrow> \<exists>N. \<forall>n\<ge>N. p_value n (print_json v @ r) = Some (v, r)" "vs \<noteq> []"
  shows "\<exists>N. \<forall>n\<ge>N. p_elems n (Join (map print_json vs) '','' @ CHR '']'' # r) = Some (vs, r)"
  using assms
proof (induction vs)
  case (Cons v vs)
  let ?q = "if vs = [] then CHR '']'' # r else CHR '','' # Join (map print_json vs) '','' @ CHR '']'' # r"
  obtain N where N: "\<forall>n\<ge>N. p_value n (print_json v @ ?q) = Some (v, ?q)"
    using Cons.prems(1) [of v ?q] by (cases "vs = []") auto
  show ?case
  proof (cases "vs = []")
    case True
    have "p_elems n (Join (map print_json (v # vs)) '','' @ CHR '']'' # r) = Some (v # vs, r)" if "n \<ge> Suc N" for n
      using N that True by (cases n) auto
    then show ?thesis by blast
  next
    case False
    obtain M where M: "\<forall>n\<ge>M. p_elems n (Join (map print_json vs) '','' @ CHR '']'' # r) = Some (vs, r)"
      using Cons False by force
    have "p_elems n (Join (map print_json (v # vs)) '','' @ CHR '']'' # r) = Some (v # vs, r)" if n: "n \<ge> Suc (max N M)" for n
    proof -
      obtain m where m: "n = Suc m" "m \<ge> N" "m \<ge> M" using n by (cases n) auto
      show ?thesis using N M False m by (simp add: Join_Cons)
    qed
    then show ?thesis by blast
  qed
qed simp

definition print_member :: "string \<times> json \<Rightarrow> string" where
  "print_member kv = (dquote # fst kv @ [dquote]) @ '':'' @ print_json (snd kv)"

lemma print_JObj: "print_json (JObj kvs) = CHR ''{'' # Join (map print_member kvs) '','' @ ''}''"
  by (simp add: print_member_def [abs_def])

lemma p_members_print:
  assumes "\<And>kv r. kv \<in> set kvs \<Longrightarrow> delim r \<Longrightarrow> \<exists>N. \<forall>n\<ge>N. p_value n (print_json (snd kv) @ r) = Some (snd kv, r)"
    and "\<forall>kv\<in>set kvs. body_ok (fst kv)" "kvs \<noteq> []"
  shows "\<exists>N. \<forall>n\<ge>N. p_members n (Join (map print_member kvs) '','' @ CHR ''}'' # r) = Some (kvs, r)"
  using assms
proof (induction kvs)
  case (Cons kv kvs)
  obtain k v where kv: "kv = (k, v)" by fastforce
  let ?q = "if kvs = [] then CHR ''}'' # r else CHR '','' # Join (map print_member kvs) '','' @ CHR ''}'' # r"
  obtain N where N: "\<forall>n\<ge>N. p_value n (print_json v @ ?q) = Some (v, ?q)"
    using Cons.prems(1) [of kv ?q] kv by (cases "kvs = []") auto
  have k: "scan_string (k @ dquote # q) = Some (k, q)" for q using Cons.prems(2) kv by (simp add: scan_string_body)
  show ?case
  proof (cases "kvs = []")
    case True
    have "p_members n (Join (map print_member (kv # kvs)) '','' @ CHR ''}'' # r) = Some (kv # kvs, r)" if "n \<ge> Suc N" for n
      using N that True by (cases n) (auto simp: print_member_def kv k)
    then show ?thesis by blast
  next
    case False
    obtain M where M: "\<forall>n\<ge>M. p_members n (Join (map print_member kvs) '','' @ CHR ''}'' # r) = Some (kvs, r)"
      using Cons False by force
    have "p_members n (Join (map print_member (kv # kvs)) '','' @ CHR ''}'' # r) = Some (kv # kvs, r)" if n: "n \<ge> Suc (max N M)" for n
    proof -
      obtain m where m: "n = Suc m" "m \<ge> N" "m \<ge> M" using n by (cases n) auto
      show ?thesis using N M False m by (simp add: Join_Cons print_member_def kv k)
    qed
    then show ?thesis by blast
  qed
qed simp

lemma p_value_print: "wf_json v \<Longrightarrow> delim r \<Longrightarrow> \<exists>N. \<forall>n\<ge>N. p_value n (print_json v @ r) = Some (v, r)"
proof (induction v arbitrary: r)
  case (JArr vs)
  show ?case
  proof (cases "vs = []")
    case True
    have "p_value n (print_json (JArr vs) @ r) = Some (JArr vs, r)" if "n \<ge> 1" for n
      using that True by (cases n) auto
    then show ?thesis by blast
  next
    case False
    obtain N where N: "\<forall>n\<ge>N. p_elems n (Join (map print_json vs) '','' @ CHR '']'' # r) = Some (vs, r)"
      using p_elems_print [of vs r] JArr False by auto
    obtain c cs where c: "Join (map print_json vs) '','' @ CHR '']'' # r = c # cs" "\<not> is_ws c" "c \<noteq> CHR '']''"
      using False JArr.prems(1) print_json_hd [of "hd vs"] by (cases vs) (auto simp: Join_Cons)
    have "p_value n (print_json (JArr vs) @ r) = Some (JArr vs, r)" if "n \<ge> Suc N" for n
      using that N c by (cases n) auto
    then show ?thesis by blast
  qed
next
  case (JObj kvs)
  show ?case
  proof (cases "kvs = []")
    case True
    have "p_value n (print_json (JObj kvs) @ r) = Some (JObj kvs, r)" if "n \<ge> 1" for n
      using that True by (cases n) auto
    then show ?thesis by blast
  next
    case False
    obtain N where N: "\<forall>n\<ge>N. p_members n (Join (map print_member kvs) '','' @ CHR ''}'' # r) = Some (kvs, r)"
      using p_members_print [of kvs r] JObj False by fastforce
    obtain cs where c: "Join (map print_member kvs) '','' @ CHR ''}'' # r = dquote # cs"
      using False by (cases kvs) (auto simp: Join_Cons print_member_def)
    have "p_value n (print_json (JObj kvs) @ r) = Some (JObj kvs, r)" if "n \<ge> Suc N" for n
      using that N c by (cases n) (auto simp: print_JObj simp del: print_json.simps)
    then show ?thesis by blast
  qed
next
  case (JNum m)
  then have "p_value n (print_json (JNum m) @ r) = Some (JNum m, r)" if "n \<ge> 1" for n
    using that p_value_number [of m r] by (cases n) auto
  then show ?case by blast
next
  case (JStr b)
  then have "p_value n (print_json (JStr b) @ r) = Some (JStr b, r)" if "n \<ge> 1" for n
    using that scan_string_body [of b r] by (cases n) auto
  then show ?case by blast
next
  case (JBool b)
  have "p_value n (print_json (JBool b) @ r) = Some (JBool b, r)" if "n \<ge> 1" for n
    using that by (cases n) auto
  then show ?case by blast
next
  case JNull
  have "p_value n (print_json JNull @ r) = Some (JNull, r)" if "n \<ge> 1" for n
    using that by (cases n) auto
  then show ?case by blast
qed

theorem parse_print: "wf_json v \<Longrightarrow> json_depth v \<le> max_depth \<Longrightarrow> parse_json (print_json v) = Some v"
proof -
  assume v: "wf_json v" "json_depth v \<le> max_depth"
  obtain N where N: "\<forall>n\<ge>N. p_value n (print_json v) = Some (v, [])"
    using p_value_print [OF v(1), of "[]"] by auto
  let ?n = "max N (Suc (2 * length (print_json v)))"
  have "p_value (Suc (2 * length (print_json v))) (print_json v) = p_value ?n (print_json v)"
    by (rule p_fuel) auto
  also have "\<dots> = Some (v, [])" using N by simp
  finally show ?thesis using v(2) by (simp add: parse_json_def skip_ws_def)
qed

theorem parse_wf: "parse_json s = Some v \<Longrightarrow> wf_json v \<and> json_depth v \<le> max_depth"
  by (auto simp: parse_json_def simp del: p_value.simps dest: p_wf(1) split: option.splits if_splits)

end
