(* ===== verification/GoJsonStrings.thy ===== *)
theory GoJsonStrings
  imports GoJsonCorrect
begin

text \<open>
  String literals of \<open>encoding/json\<close>: a decoded string is valid UTF-8 (\<open>valid_unquote\<close>), an encoded
  string that is valid UTF-8 decodes to itself (\<open>unquote_enc_string\<close>), and compaction with HTML escaping keeps a literal
  a literal and does not change what it decodes to (\<open>body_ok_compact\<close>, \<open>unquote_compact\<close>).
\<close>

section \<open>UTF-8\<close>

fun valid_utf8 :: "string \<Rightarrow> bool" where
  "valid_utf8 [] = True"
| "valid_utf8 (c # cs) = (rune_len (c # cs) \<noteq> 0 \<and> valid_utf8 (drop (rune_len (c # cs) - 1) cs))"

lemma byte_mkbyte [simp]: "n < 256 \<Longrightarrow> byte (mkbyte n) = n"
  by (simp add: byte_def mkbyte_def)

lemma mkbyte_byte [simp]: "mkbyte (byte c) = c"
  by (simp add: byte_def mkbyte_def)

lemma rune_len_ascii [simp]: "byte c < 128 \<Longrightarrow> rune_len (c # cs) = 1"
  by (simp add: rune_len_def)

lemma rune_len_cases:
  assumes "rune_len (c # cs) \<noteq> 0" "\<not> byte c < 128"
  obtains d ds where "cs = d # ds" "between 194 223 c" "is_cont d" "rune_len (c # cs) = 2"
    | d e es where "cs = d # e # es" "224 \<le> byte c" "is_cont d" "is_cont e" "rune_len (c # cs) = 3"
        "\<And>q. rune_len (c # d # e # q) = 3"
    | d e f fs where "cs = d # e # f # fs" "224 \<le> byte c" "is_cont d" "is_cont e" "is_cont f" "rune_len (c # cs) = 4"
        "\<And>q. rune_len (c # d # e # f # q) = 4"
proof -
  obtain d ds where d: "cs = d # ds" using assms by (cases cs) (auto simp: rune_len_def)
  show ?thesis
  proof (cases "between 194 223 c \<and> is_cont d")
    case True
    then show ?thesis using that(1) d assms(2) by (simp add: rune_len_def)
  next
    case False
    obtain e es where e: "ds = e # es" using assms False d by (cases ds) (auto simp: rune_len_def)
    let ?three = "is_cont e \<and> ((byte c = 224 \<and> between 160 191 d) \<or> (byte c = 237 \<and> between 128 159 d)
                \<or> ((between 225 236 c \<or> between 238 239 c) \<and> is_cont d))"
    show ?thesis
    proof (cases ?three)
      case True
      moreover from True have "is_cont d" "224 \<le> byte c" by (auto simp: is_cont_def between_def)
      moreover have "rune_len (c # d # e # q) = 3" for q
        using True False assms(2) by (simp add: rune_len_def)
      ultimately show ?thesis using that(2) d e by blast
    next
      case three: False
      obtain f fs where f: "es = f # fs" using assms False three d e by (cases es) (auto simp: rune_len_def)
      let ?four = "is_cont e \<and> is_cont f \<and> ((byte c = 240 \<and> between 144 191 d)
                   \<or> (byte c = 244 \<and> between 128 143 d) \<or> (between 241 243 c \<and> is_cont d))"
      have four: "?four" using assms False three d e f by (auto simp: rune_len_def split: if_splits)
      moreover from four have "is_cont d" "224 \<le> byte c" by (auto simp: is_cont_def between_def)
      moreover have "rune_len (c # d # e # f # q) = 4" for q
        using four False three assms(2) by (simp add: rune_len_def)
      ultimately show ?thesis using that(3) d e f by blast
    qed
  qed
qed

lemma rune_len_spec:
  fixes q
  assumes "rune_len (c # cs) = n" "n \<noteq> 0"
  shows "n - 1 \<le> length cs" "\<forall>d\<in>set (take (n - 1) cs). is_cont d" "rune_len (c # take (n - 1) cs @ q) = n"
    "byte c < 128 \<longleftrightarrow> n = 1"
proof -
  have "n - 1 \<le> length cs \<and> (\<forall>d\<in>set (take (n - 1) cs). is_cont d) \<and> rune_len (c # take (n - 1) cs @ q) = n
      \<and> (byte c < 128 \<longleftrightarrow> n = 1)"
  proof (cases "byte c < 128")
    case False
    from assms have "rune_len (c # cs) \<noteq> 0" by simp
    from this False show ?thesis
    proof (cases rule: rune_len_cases)
      case (1 d ds)
      with assms False show ?thesis by (simp add: rune_len_def)
    qed (use assms False in simp_all)
  qed (use assms in simp)
  then show "n - 1 \<le> length cs" "\<forall>d\<in>set (take (n - 1) cs). is_cont d" "rune_len (c # take (n - 1) cs @ q) = n"
    "byte c < 128 \<longleftrightarrow> n = 1" by blast+
qed

lemma valid_utf8_step:
  assumes "rune_len (c # cs) \<noteq> 0" "valid_utf8 q"
  shows "valid_utf8 (c # take (rune_len (c # cs) - 1) cs @ q)"
  using rune_len_spec(1,2) [OF refl assms(1)] rune_len_spec(3) [OF refl assms(1), where q = q] assms by simp

lemma valid_utf8_ascii: "byte c < 128 \<Longrightarrow> valid_utf8 (c # cs) = valid_utf8 cs"
  by simp

lemma rune_len_mk2: "194 \<le> a \<Longrightarrow> a \<le> 223 \<Longrightarrow> 128 \<le> b \<Longrightarrow> b \<le> 191 \<Longrightarrow> rune_len (mkbyte a # mkbyte b # q) = 2"
  by (simp add: rune_len_def between_def is_cont_def)

lemma rune_len_mk3: "224 \<le> a \<Longrightarrow> a \<le> 239 \<Longrightarrow> 128 \<le> b \<Longrightarrow> b \<le> 191 \<Longrightarrow> 128 \<le> c \<Longrightarrow> c \<le> 191 \<Longrightarrow>
    (a = 224 \<Longrightarrow> 160 \<le> b) \<Longrightarrow> (a = 237 \<Longrightarrow> b \<le> 159) \<Longrightarrow> rune_len (mkbyte a # mkbyte b # mkbyte c # q) = 3"
  by (simp add: rune_len_def between_def is_cont_def) linarith

lemma rune_len_mk4: "240 \<le> a \<Longrightarrow> a \<le> 244 \<Longrightarrow> 128 \<le> b \<Longrightarrow> b \<le> 191 \<Longrightarrow> 128 \<le> c \<Longrightarrow> c \<le> 191 \<Longrightarrow> 128 \<le> d \<Longrightarrow> d \<le> 191 \<Longrightarrow>
    (a = 240 \<Longrightarrow> 144 \<le> b) \<Longrightarrow> (a = 244 \<Longrightarrow> b \<le> 143) \<Longrightarrow> rune_len (mkbyte a # mkbyte b # mkbyte c # mkbyte d # q) = 4"
  by (simp add: rune_len_def between_def is_cont_def) linarith

lemma valid_utf8_2: "valid_utf8 q \<Longrightarrow> 2 \<le> a \<Longrightarrow> a < 32 \<Longrightarrow> b < 64 \<Longrightarrow>
    valid_utf8 (mkbyte (192 + a) # mkbyte (128 + b) # q)"
  using rune_len_mk2 [of "192 + a" "128 + b" q] by simp

lemma valid_utf8_3:
  assumes "valid_utf8 q" "a < 16" "b < 64" "c < 64" "a = 0 \<Longrightarrow> 32 \<le> b" "a = 13 \<Longrightarrow> b < 32"
  shows "valid_utf8 (mkbyte (224 + a) # mkbyte (128 + b) # mkbyte (128 + c) # q)"
proof -
  have "rune_len (mkbyte (224 + a) # mkbyte (128 + b) # mkbyte (128 + c) # q) = 3"
    using assms by (intro rune_len_mk3) auto
  with assms(1) show ?thesis by simp
qed

lemma valid_utf8_4:
  assumes "valid_utf8 q" "a < 5" "b < 64" "c < 64" "d < 64" "a = 0 \<Longrightarrow> 16 \<le> b" "a = 4 \<Longrightarrow> b < 16"
  shows "valid_utf8 (mkbyte (240 + a) # mkbyte (128 + b) # mkbyte (128 + c) # mkbyte (128 + d) # q)"
proof -
  have "rune_len (mkbyte (240 + a) # mkbyte (128 + b) # mkbyte (128 + c) # mkbyte (128 + d) # q) = 4"
    using assms by (intro rune_len_mk4) auto
  with assms(1) show ?thesis by simp
qed

lemma valid_replacement [simp]: "valid_utf8 q \<Longrightarrow> valid_utf8 (replacement_char @ q)"
  using valid_utf8_3 [of q 15 63 61] by (simp add: replacement_char_def)

lemma valid_encode_rune:
  assumes q: "valid_utf8 q"
  shows "valid_utf8 (encode_rune r @ q)"
proof -
  define A where "A = r div 64"
  define B where "B = A div 64"
  define C where "C = B div 64"
  define m0 m1 m2 where "m0 = r mod 64" and "m1 = A mod 64" and "m2 = B mod 64"
  have m: "r = 64 * A + m0" "A = 64 * B + m1" "B = 64 * C + m2" "m0 < 64" "m1 < 64" "m2 < 64"
    by (simp_all add: A_def B_def C_def m0_def m1_def m2_def)
  have mods: "r mod 64 = m0" "r div 64 = A" "A mod 64 = m1" "r div 4096 = B" "B mod 64 = m2" "r div 262144 = C"
    by (simp_all add: A_def B_def C_def m0_def m1_def m2_def div_mult2_eq [symmetric])
  consider "r < 128" | "128 \<le> r" "r < 2048" | "2048 \<le> r" "(55296 \<le> r \<and> r \<le> 57343) \<or> 1114111 < r"
    | "2048 \<le> r" "\<not> (55296 \<le> r \<and> r \<le> 57343)" "r < 65536"
    | "65536 \<le> r" "r \<le> 1114111"
    by linarith
  then show ?thesis
  proof cases
    case 1
    with q show ?thesis by (simp add: encode_rune_def)
  next
    case 2
    then have "2 \<le> A" "A < 32" using m by linarith+
    with 2 m(4) valid_utf8_2 [OF q, of A m0] show ?thesis by (simp add: encode_rune_def mods del: valid_utf8.simps)
  next
    case 3
    with q show ?thesis by (auto simp: encode_rune_def)
  next
    case 4
    have "B < 16" using 4(1,3) m by linarith
    moreover have "32 \<le> m1" if "B = 0" using 4(1) m that by linarith
    moreover have "m1 < 32" if "B = 13"
    proof -
      have "r \<le> 57343" using that m by linarith
      with 4(2) have "r < 55296" by linarith
      with that m show ?thesis by linarith
    qed
    moreover note 4
    ultimately show ?thesis using m(4,5) valid_utf8_3 [OF q, of B m1 m0] by (auto simp: encode_rune_def mods simp del: valid_utf8.simps)
  next
    case 5
    have "C < 5" using 5 m by linarith
    moreover have "16 \<le> m2" if "C = 0" using 5(1) m that by linarith
    moreover have "m2 < 16" if "C = 4" using 5(2) m that by linarith
    moreover note 5
    ultimately show ?thesis using m(4-6) valid_utf8_4 [OF q, of C m2 m1 m0] by (auto simp: encode_rune_def mods simp del: valid_utf8.simps)
  qed
qed


section \<open>Decoded strings\<close>

lemma valid_unescape: "is_simple_escape d \<Longrightarrow> byte (unescape d) < 128"
  unfolding is_simple_escape_def insert_iff empty_iff
  by (elim disjE FalseE; hypsubst; simp add: unescape_def) (simp_all add: byte_def)

lemma body_ok_high: "128 \<le> byte c \<Longrightarrow> body_ok (c # cs) = body_ok cs"
  by (auto simp: byte_def)

lemma body_ok_conts: "\<forall>d\<in>set xs. is_cont d \<Longrightarrow> body_ok (xs @ s) = body_ok s"
proof (induction xs)
  case (Cons x xs)
  then have "128 \<le> byte x" by (simp add: is_cont_def)
  with Cons show ?case by (simp add: body_ok_high del: body_ok.simps)
qed simp

lemma body_ok_drop:
  assumes "body_ok (c # cs)" "c \<noteq> bslash"
  shows "body_ok (drop (rune_len (c # cs) - 1) cs)"
proof (cases "rune_len (c # cs) = 0")
  case False
  from assms have "body_ok cs" by simp
  also have "cs = take (rune_len (c # cs) - 1) cs @ drop (rune_len (c # cs) - 1) cs" by simp
  finally show ?thesis using rune_len_spec(2) [OF refl False] body_ok_conts by blast
qed (use assms in simp)

text \<open>A string that was decoded is valid UTF-8.\<close>

theorem valid_unquote: "body_ok b \<Longrightarrow> valid_utf8 (unquote b)"
proof (induction b rule: length_induct)
  case (1 b)
  show ?case
  proof (cases b)
    case (Cons c cs)
    show ?thesis
    proof (cases "c = bslash")
      case False
      let ?n = "rune_len (c # cs)"
      have "valid_utf8 (unquote (drop (?n - 1) cs))"
        using 1 Cons body_ok_drop [of c cs] False by auto
      then show ?thesis
        using valid_utf8_step [of c cs] False Cons by (auto simp: Let_def simp del: valid_utf8.simps)
    next
      case True
      with "1.prems" Cons obtain d ds where cs: "cs = d # ds" by (auto split: list.splits)
      show ?thesis
      proof (cases "is_simple_escape d")
        case True
        with 1 Cons \<open>c = bslash\<close> cs have "valid_utf8 (unquote ds)" "d \<noteq> CHR ''u''"
          by (auto simp: is_simple_escape_def)
        with True Cons \<open>c = bslash\<close> cs show ?thesis
          using valid_unescape [OF True] by simp
      next
        case False
        with "1.prems" Cons \<open>c = bslash\<close> cs have d: "d = CHR ''u''" "body_ok (drop 4 ds)" by auto
        let ?r = "hex4 ds" and ?ds = "drop 4 ds"
        have IH: "valid_utf8 (unquote ?ds)" using 1 d Cons cs by auto
        have low: "valid_utf8 (unquote (drop 6 ?ds))" if low: "take 2 ?ds = [bslash, CHR ''u'']"
        proof -
          obtain es where "?ds = bslash # CHR ''u'' # es"
            using low by (cases ?ds; cases "tl ?ds") auto
          with d(2) have "body_ok (drop 4 es)" "drop 6 ?ds = drop 4 es" by (auto simp: is_simple_escape_def)
          moreover have "length (drop 4 es) < length b"
            using \<open>?ds = bslash # CHR ''u'' # es\<close> Cons cs by (simp add: less_Suc_eq_le) (metis length_drop diff_le_self length_Cons le_SucI le_trans diff_le_mono2 Suc_leD)
          ultimately show ?thesis using "1.IH" by metis
        qed
        show ?thesis
          using IH low by (auto simp: Cons \<open>c = bslash\<close> cs d(1) Let_def valid_encode_rune simp del: valid_utf8.simps)
      qed
    qed
  qed simp
qed

section \<open>Encoding and compaction\<close>

lemma hex_val_digit: "hex_val (hex_digit n) = n mod 16"
proof -
  have "\<forall>m\<in>set [0..<16]. hex_val (hex_digit m) = m" by code_simp
  then have "hex_val (hex_digit (n mod 16)) = n mod 16" by simp
  then show ?thesis by (simp add: hex_digit_def)
qed

lemma is_hex_digit: "is_hex (hex_digit n)"
proof -
  have "\<forall>m\<in>set [0..<16]. is_hex (hex_digit m)" by code_simp
  then have "is_hex (hex_digit (n mod 16))" by simp
  then show ?thesis by (simp add: hex_digit_def)
qed

lemma is_hex_0 [simp]: "is_hex (CHR ''0'')" "is_hex (CHR ''2'')" "is_hex (CHR ''8'')" "is_hex (CHR ''9'')" "is_hex (CHR ''f'')" "is_hex (CHR ''d'')"
    "\<not> is_simple_escape (CHR ''u'')"
  by (simp_all add: is_hex_def is_digit_def is_simple_escape_def byte_def between_def)

lemma body_ok_u: "list_all is_hex hs \<Longrightarrow> length hs = 4 \<Longrightarrow> body_ok (bslash # CHR ''u'' # hs @ q) = body_ok q"
  by (subst body_ok.simps) (simp add: byte_def del: body_ok.simps)

lemma body_ok_u_escape [simp]: "body_ok (u_escape n @ q) = body_ok q"
  using body_ok_u [of "[CHR ''0'', CHR ''0'', hex_digit (n div 16), hex_digit n]" q]
  by (simp add: u_escape_def is_hex_digit del: body_ok.simps)

lemma unquote_u: "length hs = 4 \<Longrightarrow> \<not> is_surrogate (hex4 (hs @ q)) \<Longrightarrow>
    unquote (bslash # CHR ''u'' # hs @ q) = encode_rune (hex4 (hs @ q)) @ unquote q"
  by (subst unquote.simps) (simp add: Let_def del: unquote.simps)

lemma unquote_u_escape: "byte c < 128 \<Longrightarrow> unquote (u_escape (byte c) @ q) = c # unquote q"
proof -
  assume c: "byte c < 128"
  let ?hs = "[CHR ''0'', CHR ''0'', hex_digit (byte c div 16), hex_digit (byte c)]"
  have "hex_val (CHR ''0'') = 0" by (simp add: hex_val_def is_digit_def byte_def)
  moreover have "byte c div 16 mod 16 = byte c div 16" using c by simp
  ultimately have "hex4 (?hs @ q) = byte c" by (simp add: hex4_def hex_val_digit)
  then show ?thesis
    using c unquote_u [of ?hs q] by (simp add: u_escape_def is_surrogate_def encode_rune_def del: unquote.simps)
qed

lemma unquote_chunk:
  assumes "rune_len (c # cs) \<noteq> 0" "c \<noteq> bslash"
  shows "unquote (c # take (rune_len (c # cs) - 1) cs @ q) = c # take (rune_len (c # cs) - 1) cs @ unquote q"
  using rune_len_spec(1,3) [OF refl assms(1)] assms by (simp add: Let_def)

lemma unquote_ascii: "byte c < 128 \<Longrightarrow> c \<noteq> bslash \<Longrightarrow> unquote (c # q) = c # unquote q"
  by simp

lemma unquote_escape: "d \<noteq> CHR ''u'' \<Longrightarrow> unquote (bslash # d # q) = unescape d # unquote q"
  by simp

lemma sep_bytes [simp]: "mkbyte 226 = CHR 0xE2" "mkbyte 128 = CHR 0x80" "mkbyte 168 = CHR 0xA8" "mkbyte 169 = CHR 0xA9"
  by code_simp+

lemma line_sep_cases:
  assumes "line_sep s = Some e"
  obtains q where "s = [CHR 0xE2, CHR 0x80, CHR 0xA8] @ q" "e = bslash # ''u2028''"
    | q where "s = [CHR 0xE2, CHR 0x80, CHR 0xA9] @ q" "e = bslash # ''u2029''"
proof (cases "HasPrefix s [CHR 0xE2, CHR 0x80, CHR 0xA8]")
  case True
  with assms that(1) show ?thesis unfolding HasPrefix_iff by (auto simp: line_sep_def)
next
  case False
  with assms have h: "HasPrefix s [CHR 0xE2, CHR 0x80, CHR 0xA9]" "e = bslash # ''u2029''"
    by (simp_all add: line_sep_def split: if_splits)
  with that(2) show ?thesis unfolding HasPrefix_iff by blast
qed

lemma sep_hex: "hex4 (''2028'' @ q) = 8232" "hex4 (''2029'' @ q) = 8233"
  by (simp_all add: hex4_def hex_val_def is_digit_def byte_def)

lemma sep_rune: "encode_rune 8232 = [CHR 0xE2, CHR 0x80, CHR 0xA8]" "encode_rune 8233 = [CHR 0xE2, CHR 0x80, CHR 0xA9]"
  by (simp_all add: encode_rune_def)

lemma sep_rune_len: "rune_len (CHR 0xE2 # CHR 0x80 # CHR 0xA8 # q) = 3" "rune_len (CHR 0xE2 # CHR 0x80 # CHR 0xA9 # q) = 3"
  by (simp_all add: rune_len_def byte_def between_def is_cont_def)

lemma line_sep_unquote:
  assumes "line_sep s = Some e"
  shows "unquote (e @ q) = take 3 s @ unquote q" "body_ok (e @ q) = body_ok q" "unquote s = take 3 s @ unquote (drop 3 s)"
    "body_ok s = body_ok (drop 3 s)" "3 \<le> length s" "rune_len s = 3"
proof -
  have "unquote (e @ q) = take 3 s @ unquote q \<and> body_ok (e @ q) = body_ok q \<and> unquote s = take 3 s @ unquote (drop 3 s)
    \<and> body_ok s = body_ok (drop 3 s) \<and> 3 \<le> length s \<and> rune_len s = 3"
    using assms
  proof (cases rule: line_sep_cases)
    case (1 q')
    have "unquote (e @ q) = take 3 s @ unquote q"
      using unquote_u [of "''2028''" q] sep_hex(1) [of q] sep_rune(1) 1 by (simp add: is_surrogate_def del: unquote.simps)
    moreover have "unquote s = take 3 s @ unquote (drop 3 s)"
      using unquote_chunk [of "CHR 0xE2" "CHR 0x80 # CHR 0xA8 # q'" q'] 1 by (simp add: sep_rune_len del: unquote.simps)
    moreover have "body_ok (e @ q) = body_ok q" using body_ok_u [of "''2028''" q] 1 by (simp del: body_ok.simps)
    moreover have "body_ok s = body_ok (drop 3 s)" using 1 by (simp add: body_ok_high byte_def del: body_ok.simps)
    ultimately show ?thesis using 1 by (simp add: sep_rune_len del: unquote.simps body_ok.simps)
  next
    case (2 q')
    have "unquote (e @ q) = take 3 s @ unquote q"
      using unquote_u [of "''2029''" q] sep_hex(2) [of q] sep_rune(2) 2 by (simp add: is_surrogate_def del: unquote.simps)
    moreover have "unquote s = take 3 s @ unquote (drop 3 s)"
      using unquote_chunk [of "CHR 0xE2" "CHR 0x80 # CHR 0xA9 # q'" q'] 2 by (simp add: sep_rune_len del: unquote.simps)
    moreover have "body_ok (e @ q) = body_ok q" using body_ok_u [of "''2029''" q] 2 by (simp del: body_ok.simps)
    moreover have "body_ok s = body_ok (drop 3 s)" using 2 by (simp add: body_ok_high byte_def del: body_ok.simps)
    ultimately show ?thesis using 2 by (simp add: sep_rune_len del: unquote.simps body_ok.simps)
  qed
  then show "unquote (e @ q) = take 3 s @ unquote q" "body_ok (e @ q) = body_ok q" "unquote s = take 3 s @ unquote (drop 3 s)"
    "body_ok s = body_ok (drop 3 s)" "3 \<le> length s" "rune_len s = 3" by blast+
qed

declare unquote.simps [simp del] body_ok.simps [simp del]

lemma unquote_Nil [simp]: "unquote [] = []"
  by (simp add: unquote.simps)

lemma body_ok_Nil [simp]: "body_ok []"
  by (simp add: body_ok.simps)

lemma body_ok_escape: "is_simple_escape d \<Longrightarrow> body_ok (bslash # d # q) = body_ok q"
  by (simp add: body_ok.simps byte_def)

lemma body_ok_plain: "32 \<le> byte c \<Longrightarrow> c \<noteq> dquote \<Longrightarrow> c \<noteq> bslash \<Longrightarrow> body_ok (c # q) = body_ok q"
  by (simp add: body_ok.simps)

lemma body_ok_chunk:
  assumes "rune_len (c # cs) \<noteq> 0" "32 \<le> byte c" "c \<noteq> dquote" "c \<noteq> bslash"
  shows "body_ok (c # take (rune_len (c # cs) - 1) cs @ q) = body_ok q"
  using assms body_ok_conts [OF rune_len_spec(2) [OF refl assms(1)]] by (simp add: body_ok_plain)

lemma replacement_bytes: "map mkbyte [239, 191, 189] = [CHR 0xEF, CHR 0xBF, CHR 0xBD]"
  by code_simp

lemma enc_simple:
  assumes "c = dquote \<or> c = bslash \<or> byte c = 8 \<or> byte c = 12 \<or> byte c = 10 \<or> byte c = 13 \<or> byte c = 9"
  obtains d where "enc_string (c # cs) = bslash # d # enc_string cs" "is_simple_escape d" "d \<noteq> CHR ''u''" "unescape d = c"
proof -
  consider "c = dquote \<or> c = bslash" | "byte c = 8" | "byte c = 12" | "byte c = 10" | "byte c = 13" | "byte c = 9"
    using assms by blast
  then show ?thesis
  proof cases
    case 1
    then show ?thesis using that [of c] by (auto simp: is_simple_escape_def unescape_def)
  next
    case 2
    then have "c = mkbyte 8" by (metis mkbyte_byte)
    moreover from 2 have "c \<noteq> dquote" "c \<noteq> bslash" by (auto simp: byte_def)
    ultimately show ?thesis using that [of "CHR ''b''"] 2 by (simp add: is_simple_escape_def unescape_def)
  next
    case 3
    then have "c = mkbyte 12" by (metis mkbyte_byte)
    moreover from 3 have "c \<noteq> dquote" "c \<noteq> bslash" by (auto simp: byte_def)
    ultimately show ?thesis using that [of "CHR ''f''"] 3 by (simp add: is_simple_escape_def unescape_def)
  next
    case 4
    then have "c = mkbyte 10" by (metis mkbyte_byte)
    moreover from 4 have "c \<noteq> dquote" "c \<noteq> bslash" by (auto simp: byte_def)
    ultimately show ?thesis using that [of "CHR ''n''"] 4 by (simp add: is_simple_escape_def unescape_def)
  next
    case 5
    then have "c = mkbyte 13" by (metis mkbyte_byte)
    moreover from 5 have "c \<noteq> dquote" "c \<noteq> bslash" by (auto simp: byte_def)
    ultimately show ?thesis using that [of "CHR ''r''"] 5 by (simp add: is_simple_escape_def unescape_def)
  next
    case 6
    then have "c = mkbyte 9" by (metis mkbyte_byte)
    moreover from 6 have "c \<noteq> dquote" "c \<noteq> bslash" by (auto simp: byte_def)
    ultimately show ?thesis using that [of "CHR ''t''"] 6 by (simp add: is_simple_escape_def unescape_def)
  qed
qed

lemma enc_string_step:
  fixes c cs
  obtains (escape) d where "enc_string (c # cs) = bslash # d # enc_string cs" "is_simple_escape d" "d \<noteq> CHR ''u''" "unescape d = c" "byte c < 128"
  | (u) "enc_string (c # cs) = u_escape (byte c) @ enc_string cs" "byte c < 128"
  | (plain) "enc_string (c # cs) = c # enc_string cs" "32 \<le> byte c" "byte c < 128" "c \<noteq> dquote" "c \<noteq> bslash"
  | (sep) e where "enc_string (c # cs) = e @ enc_string (drop 3 (c # cs))" "line_sep (c # cs) = Some e" "128 \<le> byte c"
  | (bad) "enc_string (c # cs) = (bslash # ''ufffd'') @ enc_string cs" "rune_len (c # cs) = 0" "128 \<le> byte c"
  | (chunk) "enc_string (c # cs) = c # take (rune_len (c # cs) - 1) cs @ enc_string (drop (rune_len (c # cs) - 1) cs)"
      "rune_len (c # cs) \<noteq> 0" "128 \<le> byte c" "c \<noteq> dquote" "c \<noteq> bslash"
proof -
  have bs: "byte dquote = 34" "byte bslash = 92" by (simp_all add: byte_def)
  consider (a) "c = dquote \<or> c = bslash \<or> byte c = 8 \<or> byte c = 12 \<or> byte c = 10 \<or> byte c = 13 \<or> byte c = 9"
    | (b) "\<not> (c = dquote \<or> c = bslash \<or> byte c = 8 \<or> byte c = 12 \<or> byte c = 10 \<or> byte c = 13 \<or> byte c = 9)"
          "byte c < 32 \<or> is_html c"
    | (c) "\<not> (c = dquote \<or> c = bslash)" "32 \<le> byte c" "\<not> is_html c" "byte c < 128"
    | (d) "128 \<le> byte c"
    by linarith
  then show ?thesis
  proof cases
    case a
    moreover from a have "byte c < 128" using bs by auto
    moreover obtain d where "enc_string (c # cs) = bslash # d # enc_string cs" "is_simple_escape d" "d \<noteq> CHR ''u''" "unescape d = c"
      by (rule enc_simple [OF a])
    ultimately show ?thesis using escape by blast
  next
    case b
    moreover from b have "byte c < 128" by (auto simp: is_html_def byte_def)
    ultimately show ?thesis using u by simp
  next
    case c
    then show ?thesis using plain by auto
  next
    case d
    then have n: "c \<noteq> dquote" "c \<noteq> bslash" "\<not> is_html c" "\<not> byte c < 128"
      by (auto simp: byte_def is_html_def)
    show ?thesis
    proof (cases "line_sep (c # cs)")
      case (Some e)
      then show ?thesis using sep [of e] n d by simp
    next
      case None
      then show ?thesis using bad chunk n d by (cases "rune_len (c # cs) = 0") (simp_all add: Let_def)
    qed
  qed
qed

theorem body_ok_enc_string [simp]: "body_ok (enc_string s)"
proof (induction s rule: length_induct)
  case (1 s)
  show ?case
  proof (cases s)
    case (Cons c cs)
    show ?thesis
    proof (cases rule: enc_string_step [of c cs])
      case (chunk)
      with 1 Cons show ?thesis by (simp add: body_ok_chunk del: enc_string.simps One_nat_def)
    next
      case (sep e)
      with 1 Cons line_sep_unquote(2,5) [OF sep(2)] show ?thesis by (simp del: enc_string.simps)
    next
      case bad
      have "body_ok (bslash # CHR ''u'' # ''fffd'' @ q) = body_ok q" for q by (rule body_ok_u) simp_all
      with bad 1 Cons show ?thesis by (simp del: enc_string.simps)
    qed (use 1 Cons in \<open>simp_all add: body_ok_escape body_ok_plain del: enc_string.simps\<close>)
  qed simp
qed

theorem unquote_enc_string: "valid_utf8 s \<Longrightarrow> unquote (enc_string s) = s"
proof (induction s rule: length_induct)
  case (1 s)
  show ?case
  proof (cases s)
    case (Cons c cs)
    show ?thesis
    proof (cases rule: enc_string_step [of c cs])
      case chunk
      with 1 Cons show ?thesis by (simp add: unquote_chunk del: enc_string.simps One_nat_def)
    next
      case (sep e)
      from line_sep_unquote(5,6) [OF sep(2)] 1 Cons have "valid_utf8 (drop 3 (c # cs))"
        by (simp add: numeral_3_eq_3)
      with 1 Cons line_sep_unquote(5) [OF sep(2)] have "unquote (enc_string (drop 3 (c # cs))) = drop 3 (c # cs)"
        by (simp del: enc_string.simps)
      with sep(1) Cons line_sep_unquote(1) [OF sep(2)] show ?thesis by (simp del: enc_string.simps)
    next
      case bad
      with 1 Cons show ?thesis by simp
    next
      case (escape d)
      with 1 Cons show ?thesis by (simp add: unquote_escape del: enc_string.simps)
    next
      case u
      with 1 Cons show ?thesis by (simp add: unquote_u_escape del: enc_string.simps)
    next
      case plain
      with 1 Cons show ?thesis by (simp add: unquote_ascii del: enc_string.simps)
    qed
  qed simp
qed

lemma compact_conts:
  "\<forall>d\<in>set xs. is_cont d \<Longrightarrow> compact_body (xs @ q) = xs @ compact_body q"
proof (induction xs)
  case (Cons x xs)
  then have x: "128 \<le> byte x" "byte x \<le> 191" by (simp_all add: is_cont_def)
  then have "\<not> is_html x" "x \<noteq> CHR 0xE2" by (auto simp: is_html_def byte_def)
  with Cons show ?case by (simp add: line_sep_def)
qed simp

lemma compact_plain: "\<not> is_html c \<Longrightarrow> c \<noteq> CHR 0xE2 \<Longrightarrow> compact_body (c # cs) = c # compact_body cs"
  by (simp add: line_sep_def)

text \<open>What compaction puts first: a byte that can continue an encoding is kept, and no other byte becomes one.\<close>

lemma compact_hd:
  "compact_body [] = []"
  "is_cont d \<Longrightarrow> compact_body (d # q) = d # compact_body q"
  "\<not> is_cont d \<Longrightarrow> \<exists>d' q'. compact_body (d # q) = d' # q' \<and> \<not> is_cont d'"
proof -
  show "is_cont d \<Longrightarrow> compact_body (d # q) = d # compact_body q" using compact_conts [of "[d]" q] by simp
  show "\<exists>d' q'. compact_body (d # q) = d' # q' \<and> \<not> is_cont d'" if "\<not> is_cont d"
  proof (cases "line_sep (d # q)")
    case (Some e)
    then have "\<exists>e'. e = bslash # e'" by (auto elim: line_sep_cases)
    then show ?thesis using Some by (auto simp: u_escape_def is_cont_def byte_def)
  qed (use that in \<open>auto simp: u_escape_def is_cont_def byte_def\<close>)
qed simp

lemma rune_len_zero_cases:
  "rune_len (c # cs) = rune_len (c # compact_body cs)"
proof -
  have nc: "\<not> is_cont d \<Longrightarrow> \<not> between 160 191 d \<and> \<not> between 128 159 d \<and> \<not> between 144 191 d \<and> \<not> between 128 143 d" for d
    by (auto simp: is_cont_def between_def)
  show ?thesis
  proof (cases cs)
    case 1: (Cons d ds)
    show ?thesis
    proof (cases "is_cont d")
      case d: True
      show ?thesis
      proof (cases ds)
        case 2: (Cons e es)
        show ?thesis
        proof (cases "is_cont e")
          case e: True
          show ?thesis
          proof (cases es)
            case 3: (Cons f fs)
            show ?thesis
            proof (cases "is_cont f")
              case True
              then show ?thesis using d e 1 2 3 by (simp add: compact_hd rune_len_def del: compact_body.simps)
            next
              case False
              then obtain f' q where "compact_body (f # fs) = f' # q" "\<not> is_cont f'" using compact_hd(3) by blast
              with False show ?thesis using d e 1 2 3 by (simp add: compact_hd rune_len_def del: compact_body.simps)
            qed
          qed (use d e 1 2 in \<open>simp add: compact_hd rune_len_def del: compact_body.simps(2)\<close>)
        next
          case False
          then obtain e' q where "compact_body (e # es) = e' # q" "\<not> is_cont e'" using compact_hd(3) by blast
          with False show ?thesis using d 1 2
            by (auto simp add: compact_hd rune_len_def split: list.split simp del: compact_body.simps)
        qed
      qed (use d 1 in \<open>simp add: compact_hd rune_len_def del: compact_body.simps(2)\<close>)
    next
      case False
      then obtain d' q where "compact_body (d # ds) = d' # q" "\<not> is_cont d'" using compact_hd(3) by blast
      with False nc [of d] nc [of d'] show ?thesis using 1
        by (auto simp add: rune_len_def split: list.split simp del: compact_body.simps)
    qed
  qed simp
qed

lemma compact_hex: "list_all is_hex hs \<Longrightarrow> compact_body (hs @ q) = hs @ compact_body q"
proof (induction hs)
  case (Cons h hs)
  then have "byte h < 128" "\<not> is_html h" by (auto simp: is_hex_def is_digit_def between_def is_html_def byte_def)
  moreover from this have "h \<noteq> CHR 0xE2" by (auto simp: byte_def)
  ultimately show ?case using Cons by (simp add: compact_plain del: compact_body.simps)
qed simp

lemma compact_bslash [simp]: "compact_body (bslash # q) = bslash # compact_body q"
  by (simp add: line_sep_def is_html_def)

lemma compact_u [simp]: "compact_body (CHR ''u'' # q) = CHR ''u'' # compact_body q"
  by (simp add: line_sep_def is_html_def)

lemma compact_escape: "is_simple_escape d \<Longrightarrow> compact_body (d # q) = d # compact_body q"
  unfolding is_simple_escape_def insert_iff empty_iff
  by (elim disjE FalseE; hypsubst) (simp_all add: line_sep_def is_html_def)

text \<open>The shapes of a body, with what compaction makes of them.\<close>

lemma body_step:
  assumes "body_ok (c # cs)"
  obtains (escape) d ds where "c = bslash" "cs = d # ds" "is_simple_escape d" "body_ok ds"
      "compact_body (c # cs) = bslash # d # compact_body ds"
  | (u) hs ds where "c = bslash" "cs = CHR ''u'' # hs @ ds" "length hs = 4" "list_all is_hex hs" "body_ok ds"
      "compact_body (c # cs) = bslash # CHR ''u'' # hs @ compact_body ds"
  | (html) "is_html c" "byte c < 128" "c \<noteq> bslash" "body_ok cs" "compact_body (c # cs) = u_escape (byte c) @ compact_body cs"
  | (sep) e where "line_sep (c # cs) = Some e" "body_ok (drop 3 (c # cs))" "compact_body (c # cs) = e @ compact_body (drop 3 (c # cs))"
  | (plain) "c \<noteq> bslash" "c \<noteq> dquote" "32 \<le> byte c" "body_ok cs" "\<not> is_html c" "line_sep (c # cs) = None"
      "compact_body (c # cs) = c # compact_body cs"
proof -
  have "32 \<le> byte c" "c \<noteq> dquote" using assms by (simp_all add: body_ok.simps)
  show ?thesis
  proof (cases "c = bslash")
    case c: True
    with assms obtain d ds where cs: "cs = d # ds" by (auto simp: body_ok.simps split: list.splits)
    show ?thesis
    proof (cases "is_simple_escape d")
      case True
      with assms c cs have "body_ok ds" by (simp add: body_ok_escape)
      with True escape c cs show ?thesis by (simp add: compact_escape del: compact_body.simps)
    next
      case False
      with assms c cs have d: "d = CHR ''u''" "4 \<le> length ds" "list_all is_hex (take 4 ds)" "body_ok (drop 4 ds)"
        by (simp_all add: body_ok.simps)
      have "compact_body ds = take 4 ds @ compact_body (drop 4 ds)"
        using compact_hex [OF d(3), of "drop 4 ds"] by simp
      with u [of "take 4 ds" "drop 4 ds"] c cs d show ?thesis by (simp del: compact_body.simps)
    qed
  next
    case False
    with assms have ok: "body_ok cs" by (simp add: body_ok.simps)
    show ?thesis
    proof (cases "is_html c")
      case True
      then have "byte c < 128" by (auto simp: is_html_def byte_def)
      with html True ok False show ?thesis by simp
    next
      case nh: False
      show ?thesis
      proof (cases "line_sep (c # cs)")
        case None
        with plain nh ok False \<open>32 \<le> byte c\<close> \<open>c \<noteq> dquote\<close> show ?thesis by simp
      next
        case (Some e)
        with line_sep_unquote(4) [OF Some] assms nh sep [of e] show ?thesis by simp
      qed
    qed
  qed
qed

theorem body_ok_compact: "body_ok b \<Longrightarrow> body_ok (compact_body b)"
proof (induction b rule: length_induct)
  case (1 b)
  show ?case
  proof (cases b)
    case (Cons c cs)
    with 1 have "body_ok (c # cs)" by simp
    then show ?thesis
    proof (cases rule: body_step)
      case (sep e)
      with 1 Cons line_sep_unquote(2,5) [OF sep(1)] show ?thesis by (simp del: compact_body.simps)
    next
      case (u hs ds)
      with 1 Cons show ?thesis by (simp add: body_ok_u del: compact_body.simps)
    qed (use 1 Cons in \<open>simp_all add: body_ok_escape body_ok_plain del: compact_body.simps\<close>)
  qed simp
qed

definition low_surrogate :: "string \<Rightarrow> bool" where
  "low_surrogate q \<longleftrightarrow> take 2 q = [bslash, CHR ''u''] \<and> 56320 \<le> hex4 (drop 2 q) \<and> hex4 (drop 2 q) \<le> 57343"

lemma unquote_hex: "length hs = 4 \<Longrightarrow> unquote (bslash # CHR ''u'' # hs @ q) =
    (let r = hex4 hs in
     if is_surrogate r then
       (if r < 56320 \<and> low_surrogate q
        then encode_rune (65536 + (r - 55296) * 1024 + (hex4 (drop 2 q) - 56320)) @ unquote (drop 6 q)
        else replacement_char @ unquote q)
     else encode_rune r @ unquote q)"
  by (subst unquote.simps) (simp add: Let_def low_surrogate_def hex4_def)

lemma hex4_app: "length hs = 4 \<Longrightarrow> hex4 (hs @ q) = hex4 hs"
  by (simp add: hex4_def)

lemma low_surrogate_u: "length hs = 4 \<Longrightarrow> low_surrogate (bslash # CHR ''u'' # hs @ q) \<longleftrightarrow> 56320 \<le> hex4 hs \<and> hex4 hs \<le> 57343"
  by (simp add: low_surrogate_def hex4_app)

lemma low_surrogate_compact:
  assumes "body_ok q"
  shows "low_surrogate (compact_body q) = low_surrogate q"
    "low_surrogate q \<Longrightarrow> hex4 (drop 2 (compact_body q)) = hex4 (drop 2 q) \<and> drop 6 (compact_body q) = compact_body (drop 6 q)
       \<and> body_ok (drop 6 q)"
proof -
  have "low_surrogate (compact_body q) = low_surrogate q \<and> (low_surrogate q \<longrightarrow>
      hex4 (drop 2 (compact_body q)) = hex4 (drop 2 q) \<and> drop 6 (compact_body q) = compact_body (drop 6 q) \<and> body_ok (drop 6 q))"
  proof (cases q)
    case (Cons c cs)
    with assms have "body_ok (c # cs)" by simp
    then show ?thesis
    proof (cases rule: body_step)
      case (escape d ds)
      then have "d \<noteq> CHR ''u''" by auto
      with escape Cons show ?thesis by (simp add: low_surrogate_def del: compact_body.simps)
    next
      case (u hs ds)
      with Cons show ?thesis by (simp add: low_surrogate_u hex4_app del: compact_body.simps)
    next
      case html
      have "hex4 ([CHR ''0'', CHR ''0'', hex_digit (byte c div 16), hex_digit (byte c)] @ r) < 56320" for r
        by (simp add: hex4_def hex_val_digit) (simp add: hex_val_def is_digit_def byte_def)
      moreover have "\<not> low_surrogate q" using html Cons by (simp add: low_surrogate_def)
      ultimately show ?thesis using html Cons by (simp add: low_surrogate_def u_escape_def not_le del: compact_body.simps)
    next
      case (sep e)
      then have "c = CHR 0xE2" by (auto elim: line_sep_cases)
      moreover have "hex4 (drop 2 (e @ r)) < 56320" for r
        using sep(1) sep_hex [of r] by (cases rule: line_sep_cases) simp_all
      ultimately show ?thesis using sep Cons by (simp add: low_surrogate_def not_le del: compact_body.simps)
    next
      case plain
      with Cons show ?thesis by (simp add: low_surrogate_def del: compact_body.simps)
    qed
  qed (simp add: low_surrogate_def)
  then show "low_surrogate (compact_body q) = low_surrogate q"
    "low_surrogate q \<Longrightarrow> hex4 (drop 2 (compact_body q)) = hex4 (drop 2 q) \<and> drop 6 (compact_body q) = compact_body (drop 6 q)
       \<and> body_ok (drop 6 q)" by blast+
qed

theorem unquote_compact: "body_ok b \<Longrightarrow> unquote (compact_body b) = unquote b"
proof (induction b rule: length_induct)
  case (1 b)
  have IH: "unquote (compact_body q) = unquote q" if "body_ok q" "length q < length b" for q using 1 that by blast
  show ?case
  proof (cases b)
    case (Cons c cs)
    with 1 have "body_ok (c # cs)" by simp
    then show ?thesis
    proof (cases rule: body_step)
      case (escape d ds)
      then have "d \<noteq> CHR ''u''" by auto
      with escape Cons IH [of ds] show ?thesis by (simp add: unquote_escape del: compact_body.simps)
    next
      case (u hs ds)
      have "unquote (compact_body ds) = unquote ds" using IH [of ds] u Cons by simp
      moreover have "unquote (compact_body (drop 6 ds)) = unquote (drop 6 ds)" if "low_surrogate ds"
        using IH [of "drop 6 ds"] low_surrogate_compact(2) [OF u(5) that] u Cons by simp
      ultimately show ?thesis
        using u Cons low_surrogate_compact [OF u(5)] by (simp add: unquote_hex Let_def del: compact_body.simps)
    next
      case html
      with Cons IH [of cs] show ?thesis by (simp add: unquote_u_escape unquote_ascii del: compact_body.simps)
    next
      case (sep e)
      have "unquote (compact_body (drop 3 (c # cs))) = unquote (drop 3 (c # cs))"
        using IH [OF sep(2)] line_sep_unquote(5) [OF sep(1)] Cons by simp
      with sep Cons line_sep_unquote(1,3) [OF sep(1)] show ?thesis by (simp del: compact_body.simps)
    next
      case plain
      let ?n = "rune_len (c # cs)"
      show ?thesis
      proof (cases "?n = 0")
        case True
        with rune_len_zero_cases [of c cs] have "rune_len (c # compact_body cs) = 0" by simp
        with True plain Cons IH [of cs] show ?thesis by (simp add: unquote.simps(2) Let_def del: compact_body.simps)
      next
        case False
        have cs: "compact_body cs = take (?n - 1) cs @ compact_body (drop (?n - 1) cs)"
          using compact_conts [OF rune_len_spec(2) [OF refl False], of "drop (?n - 1) cs"] by simp
        have "body_ok (drop (?n - 1) cs)" using body_ok_drop [OF \<open>body_ok (c # cs)\<close> plain(1)] .
        then have "unquote (compact_body (drop (?n - 1) cs)) = unquote (drop (?n - 1) cs)"
          using IH Cons by simp
        moreover have "unquote (c # cs) = c # take (?n - 1) cs @ unquote (drop (?n - 1) cs)"
          using unquote_chunk [OF False plain(1), of "drop (?n - 1) cs"] by simp
        ultimately show ?thesis
          using unquote_chunk [OF False plain(1), of "compact_body (drop (?n - 1) cs)"] plain Cons cs
          by (simp del: compact_body.simps)
      qed
    qed
  qed simp
qed

section \<open>Compacting trees\<close>

theorem wf_compact: "wf_json v \<Longrightarrow> wf_json (compact_json v)"
  by (induction v) (auto simp: body_ok_compact)

theorem depth_compact: "json_depth (compact_json v) = json_depth v"
proof (induction v)
  case (JArr vs)
  then have "map (json_depth \<circ> compact_json) vs = map json_depth vs" by simp
  then show ?case by (simp add: comp_def image_image del: map_eq_conv)
next
  case (JObj kvs)
  then have "json_depth (compact_json (snd kv)) = json_depth (snd kv)" if "kv \<in> set kvs" for kv
    using that by (cases kv) auto
  then show ?case by (simp add: image_image)
qed simp_all

end
