(* ===== verification/AnthropicToolSchema.thy ===== *)
theory AnthropicToolSchema
  imports GoJsonStrings "HOL-Library.AList"
begin

text \<open>
  Tool schemas for Anthropic (\<open>responses_to_anthropic_tool_schema.go\<close> and
  \<open>normalizeAnthropicInputSchema\<close>): the unions at the root of a schema are merged into one object schema.

  A \<open>map[string]json.RawMessage\<close> is an association list from decoded keys to trees.
\<close>

declare unquote.simps [simp del]

type_synonym schema = "(string \<times> json) list"

definition anthropicInputSchemaUnionKeywords :: "string list" where
  "anthropicInputSchemaUnionKeywords = [''oneOf'', ''anyOf'', ''allOf'']"

definition decode_map :: "json \<Rightarrow> schema option option" where
  \<comment> \<open>\<open>json.Unmarshal\<close> into a \<open>map[string]json.RawMessage\<close>; \<open>Some None\<close> is the nil map\<close>
  "decode_map v = (case v of JObj kvs \<Rightarrow> Some (Some (obj_map kvs)) | JNull \<Rightarrow> Some None | _ \<Rightarrow> None)"

definition map_value :: "schema \<Rightarrow> json" where
  \<comment> \<open>the value that marshalling a map yields\<close>
  "map_value m = JObj (map (\<lambda>kv. (enc_string (fst kv), compact_json (snd kv))) (sort_keys m))"

definition Marshal_map :: "schema \<Rightarrow> json option" where
  \<comment> \<open>an error if a value nests deeper than the scanner admits\<close>
  "Marshal_map m = (if list_all (\<lambda>kv. json_depth (snd kv) \<le> max_depth) m then Some (map_value m) else None)"

definition containsAnthropicName :: "string list \<Rightarrow> string \<Rightarrow> bool" where
  "containsAnthropicName names target = list_ex (\<lambda>name. name = target) names"

definition appendAnthropicRequired :: "string list \<Rightarrow> string list \<Rightarrow> string list" where
  "appendAnthropicRequired required names =
     foldl (\<lambda>merged name. if \<not> containsAnthropicName merged name then merged @ [name] else merged) required names"

definition intersectAnthropicRequiredLists :: "string list list \<Rightarrow> string list" where
  "intersectAnthropicRequiredLists required = (case required of [] \<Rightarrow> []
     | l # ls \<Rightarrow> foldl (\<lambda>result list. filter (containsAnthropicName list) result) l ls)"

definition decode_string_list :: "json \<Rightarrow> string list option" where
  \<comment> \<open>\<open>json.Unmarshal\<close> into a \<open>[]string\<close>\<close>
  "decode_string_list v = (case v of JNull \<Rightarrow> Some [] | JArr vs \<Rightarrow> those (map decode_string vs) | _ \<Rightarrow> None)"

definition anthropicBranchRequired :: "schema option \<Rightarrow> string list" where
  "anthropicBranchRequired branch = (case branch of None \<Rightarrow> []
     | Some m \<Rightarrow> (case map_of m ''required'' of None \<Rightarrow> []
       | Some raw \<Rightarrow> (case decode_string_list raw of None \<Rightarrow> [] | Some required \<Rightarrow> required)))"

definition intersectAnthropicRequired :: "schema option list \<Rightarrow> string list" where
  "intersectAnthropicRequired branches = intersectAnthropicRequiredLists (map anthropicBranchRequired branches)"

definition anthropicSchemaProperties :: "schema \<Rightarrow> schema" where
  "anthropicSchemaProperties m = (case map_of m ''properties'' of None \<Rightarrow> []
     | Some raw \<Rightarrow> (case decode_map raw of Some (Some properties) \<Rightarrow> properties | _ \<Rightarrow> []))"

definition anthropicSchemaBranchIsObject :: "schema option \<Rightarrow> bool" where
  "anthropicSchemaBranchIsObject branch = (case branch of None \<Rightarrow> False
     | Some m \<Rightarrow> (case map_of m ''type'' of Some raw \<Rightarrow> decode_string raw = Some ''object''
       | None \<Rightarrow> map_of m ''properties'' \<noteq> None))"

definition anthropicSchemaJSONEqual :: "json \<Rightarrow> json \<Rightarrow> bool" where
  "anthropicSchemaJSONEqual left right \<longleftrightarrow>
     json_depth left \<le> max_depth \<and> json_depth right \<le> max_depth \<and> print_json left = print_json right"

definition merge_property :: "string \<times> json \<Rightarrow> schema \<Rightarrow> schema" where
  "merge_property np into = (case np of (name, property) \<Rightarrow>
     (case map_of into name of
        None \<Rightarrow> AList.update name property into
      | Some existing \<Rightarrow>
          if anthropicSchemaJSONEqual existing property then into
          else if json_depth existing \<le> max_depth \<and> json_depth property \<le> max_depth
          then AList.update name (JObj [(''anyOf'', JArr [compact_json existing, compact_json property])]) into
          else into))"

definition merge_branch :: "schema option \<Rightarrow> schema \<Rightarrow> schema" where
  "merge_branch branch into =
     (if \<not> anthropicSchemaBranchIsObject branch then into
      else case branch of None \<Rightarrow> into
      | Some m \<Rightarrow> (case map_of m ''properties'' of None \<Rightarrow> into
        | Some raw \<Rightarrow> (case decode_map raw of Some (Some properties) \<Rightarrow> fold merge_property properties into
          | _ \<Rightarrow> into)))"

definition mergeAnthropicObjectBranchProperties :: "schema \<Rightarrow> schema option list \<Rightarrow> schema" where
  "mergeAnthropicObjectBranchProperties into branches = fold merge_branch branches into"

text \<open>What the loop over the union keywords keeps: the properties, the lists to intersect, and what every branch of an
  \<open>allOf\<close> requires.\<close>

type_synonym union_acc = "schema \<times> string list list \<times> string list"

definition add_union :: "string \<Rightarrow> schema option list option \<Rightarrow> union_acc \<Rightarrow> union_acc" where
  \<comment> \<open>one iteration, given the decoded branches of the keyword\<close>
  "add_union keyword decoded acc = (case acc of (properties, intersections, allOfRequired) \<Rightarrow>
     (case decoded of None \<Rightarrow> acc
      | Some branches \<Rightarrow>
        let properties = mergeAnthropicObjectBranchProperties properties branches in
        if keyword = ''allOf''
        then (properties, intersections,
          foldl (\<lambda>r branch. appendAnthropicRequired r (anthropicBranchRequired branch)) allOfRequired branches)
        else (properties, intersections @ [intersectAnthropicRequired branches], allOfRequired)))"

definition set_marshalled :: "string \<Rightarrow> json option \<Rightarrow> schema \<Rightarrow> schema" where
  "set_marshalled k r m = (case r of None \<Rightarrow> m | Some v \<Rightarrow> AList.update k v m)"

definition string_array :: "string list \<Rightarrow> json" where
  "string_array ss = JArr (map (\<lambda>s. JStr (enc_string s)) ss)"

definition finish_union :: "string list \<Rightarrow> union_acc \<Rightarrow> schema \<Rightarrow> schema" where
  \<comment> \<open>the end of the function, on the schema without its union keywords\<close>
  "finish_union rootRequired acc m = (case acc of (properties, intersections, allOfRequired) \<Rightarrow>
     let m = (if properties \<noteq> [] then set_marshalled ''properties'' (Marshal_map properties) m else m);
         required = intersectAnthropicRequiredLists intersections;
         required = appendAnthropicRequired required allOfRequired;
         required = appendAnthropicRequired required rootRequired
     in if required \<noteq> [] then AList.update ''required'' (string_array required) m else m)"

fun json_size :: "json \<Rightarrow> nat" where
  "json_size (JArr vs) = Suc (sum_list (map json_size vs))"
| "json_size (JObj kvs) = Suc (sum_list (map (\<lambda>kv. json_size (snd kv)) kvs))"
| "json_size _ = 1"

definition schema_size :: "schema \<Rightarrow> nat" where
  "schema_size m = sum_list (map (\<lambda>kv. json_size (snd kv)) m)"

lemma map_of_size: "map_of m k = Some v \<Longrightarrow> json_size v \<le> schema_size m"
  by (induction m) (auto simp: schema_size_def split: if_splits)

lemma filter_size: "schema_size (filter P m) \<le> schema_size m"
  by (induction m) (auto simp: schema_size_def)

lemma obj_map_size: "schema_size (obj_map kvs) \<le> sum_list (map (\<lambda>kv. json_size (snd kv)) kvs)"
proof -
  have "schema_size (fold (\<lambda>(k, v) m. (unquote k, v) # filter (\<lambda>kv. fst kv \<noteq> unquote k) m) kvs m)
      \<le> schema_size m + sum_list (map (\<lambda>kv. json_size (snd kv)) kvs)" for m
  proof (induction kvs arbitrary: m)
    case (Cons kv kvs)
    obtain k v where kv: "kv = (k, v)" by fastforce
    have "schema_size ((unquote k, v) # filter (\<lambda>kv. fst kv \<noteq> unquote k) m) \<le> json_size v + schema_size m"
      using filter_size [of "\<lambda>kv. fst kv \<noteq> unquote k" m] by (simp add: schema_size_def)
    with Cons [of "(unquote k, v) # filter (\<lambda>kv. fst kv \<noteq> unquote k) m"] kv show ?case by simp
  qed simp
  from this [of "[]"] show ?thesis by (simp add: obj_map_def schema_size_def)
qed

lemma json_size_in: "v \<in> set vs \<Longrightarrow> json_size v < json_size (JArr vs)"
  by (simp add: less_Suc_eq_le member_le_sum_list)

function flattenAnthropicRootUnions :: "schema \<Rightarrow> schema" where
  "flattenAnthropicRootUnions m =
     (let present = filter (\<lambda>keyword. map_of m keyword \<noteq> None) anthropicInputSchemaUnionKeywords in
      if present = [] then m
      else
        let decoded = map (\<lambda>keyword. (keyword, case map_of m keyword of
              Some (JArr items) \<Rightarrow>
                if items = [] then None
                else Some (map (\<lambda>item. case item of JObj kvs \<Rightarrow> Some (flattenAnthropicRootUnions (obj_map kvs)) | _ \<Rightarrow> None) items)
            | _ \<Rightarrow> None)) present;
            acc = fold (\<lambda>(keyword, branches). add_union keyword branches) decoded (anthropicSchemaProperties m, [], [])
        in finish_union (anthropicBranchRequired (Some m)) acc (fold AList.delete present m))"
  by pat_completeness auto
termination
proof (relation "measure schema_size")
  fix m :: schema and present keyword x2 items item kvs
  assume "map_of m keyword = Some x2" "x2 = JArr items" "item \<in> set items" "item = JObj kvs"
  then have "json_size (JObj kvs) < schema_size m"
    using map_of_size [of m keyword x2] json_size_in [of item items] by simp
  with obj_map_size [of kvs] show "(obj_map kvs, m) \<in> measure schema_size" by simp
qed simp

declare flattenAnthropicRootUnions.simps [simp del]

definition empty_object_schema :: string where
  "empty_object_schema = print_json (JObj [(''type'', JStr ''object''), (''properties'', JObj [])])"

definition normalizeAnthropicInputSchema :: "string \<Rightarrow> string" where
  "normalizeAnthropicInputSchema schema =
     (if TrimSpace schema = [] \<or> TrimSpace schema = ''null'' then empty_object_schema
      else case Unmarshal_object schema of None \<Rightarrow> empty_object_schema
      | Some m0 \<Rightarrow>
        let m = flattenAnthropicRootUnions m0;
            typed = (case map_of m ''type'' of
                None \<Rightarrow> Some (AList.update ''type'' (JStr ''object'') m)
              | Some typeRaw \<Rightarrow> if typeRaw = JNull then Some (AList.update ''type'' (JStr ''object'') m)
                  else if decode_string typeRaw = Some ''object'' then Some m else None)
        in case typed of None \<Rightarrow> empty_object_schema
        | Some m \<Rightarrow>
          let m = (if map_of m ''properties'' = None then AList.update ''properties'' (JObj []) m else m)
          in case Marshal_map m of None \<Rightarrow> empty_object_schema | Some v \<Rightarrow> print_json v)"

end
