(* ===== verification/GoStruct.thy ===== *)
theory GoStruct
  imports GoJsonStrings
begin

text \<open>
  How \<open>encoding/json\<close> decodes an object into a struct and encodes a struct as an object.

  A struct is described by its table of fields: the JSON name of each field, and what a value does to
  the struct.  A member whose key is no field is skipped; a value of the wrong type makes
  \<open>json.Unmarshal\<close> return an error, and the code never looks at what a failed call has decoded, so the
  result is \<open>None\<close>.  The text of a \<open>json.RawMessage\<close> is kept without the white space between its tokens.
\<close>

section \<open>Decoding\<close>

text \<open>Keys match field names up to case folding; the only code points outside ASCII that fold to ASCII letters are
  U+017F (to \<open>S\<close>) and U+212A (to \<open>K\<close>), and all field names are ASCII.\<close>

fun fold_name :: "string \<Rightarrow> string" where
  "fold_name [] = []"
| "fold_name (c # cs) =
     (if 97 \<le> byte c \<and> byte c \<le> 122 then mkbyte (byte c - 32) # fold_name cs
      else if byte c = 197 \<and> (case cs of [] \<Rightarrow> False | d # _ \<Rightarrow> byte d = 191)
      then CHR ''S'' # fold_name (drop 1 cs)
      else if byte c = 226 \<and> (case cs of d # e # _ \<Rightarrow> byte d = 132 \<and> byte e = 170 | _ \<Rightarrow> False)
      then CHR ''K'' # fold_name (drop 2 cs)
      else c # fold_name cs)"

declare fold_name.simps [simp del]

type_synonym 'a field_table = "(string \<times> (json \<Rightarrow> 'a \<Rightarrow> 'a option)) list"

fun set_field :: "'a field_table \<Rightarrow> string \<Rightarrow> json \<Rightarrow> 'a \<Rightarrow> 'a option" where
  "set_field [] key v a = Some a"
| "set_field ((name, f) # fs) key v a =
     (if fold_name key = fold_name name then f v a else set_field fs key v a)"

fun decode_members :: "'a field_table \<Rightarrow> (string \<times> json) list \<Rightarrow> 'a \<Rightarrow> 'a option" where
  "decode_members fs [] a = Some a"
| "decode_members fs ((k, v) # kvs) a =
     (case set_field fs (unquote k) v a of None \<Rightarrow> None | Some b \<Rightarrow> decode_members fs kvs b)"

definition decode_struct :: "'a field_table \<Rightarrow> 'a \<Rightarrow> json \<Rightarrow> 'a option" where
  "decode_struct fs a v = (case v of JNull \<Rightarrow> Some a | JObj kvs \<Rightarrow> decode_members fs kvs a | _ \<Rightarrow> None)"

definition string_into :: "(string \<Rightarrow> 'a \<Rightarrow> 'a) \<Rightarrow> json \<Rightarrow> 'a \<Rightarrow> 'a option" where
  "string_into upd v a = (case v of JStr b \<Rightarrow> Some (upd (unquote b) a) | JNull \<Rightarrow> Some a | _ \<Rightarrow> None)"

definition bool_into :: "(bool \<Rightarrow> 'a \<Rightarrow> 'a) \<Rightarrow> json \<Rightarrow> 'a \<Rightarrow> 'a option" where
  "bool_into upd v a = (case v of JBool b \<Rightarrow> Some (upd b a) | JNull \<Rightarrow> Some a | _ \<Rightarrow> None)"

definition raw_into :: "(string \<Rightarrow> 'a \<Rightarrow> 'a) \<Rightarrow> json \<Rightarrow> 'a \<Rightarrow> 'a option" where
  \<comment> \<open>a \<open>json.RawMessage\<close> takes any value, null included\<close>
  "raw_into upd v a = Some (upd (print_json v) a)"

definition pointer_into :: "'b field_table \<Rightarrow> 'b \<Rightarrow> ('a \<Rightarrow> 'b option) \<Rightarrow> ('b option \<Rightarrow> 'a \<Rightarrow> 'a) \<Rightarrow> json \<Rightarrow> 'a \<Rightarrow> 'a option" where
  \<comment> \<open>a pointer to a struct: null sets it to nil, an object is decoded into the struct it points to, a new one if it is nil\<close>
  "pointer_into fs zero get upd v a =
     (if v = JNull then Some (upd None a)
      else map_option (\<lambda>b. upd (Some b) a) (decode_struct fs (case get a of None \<Rightarrow> zero | Some b \<Rightarrow> b) v))"

definition struct_into :: "'b field_table \<Rightarrow> ('a \<Rightarrow> 'b) \<Rightarrow> ('b \<Rightarrow> 'a \<Rightarrow> 'a) \<Rightarrow> json \<Rightarrow> 'a \<Rightarrow> 'a option" where
  "struct_into fs get upd v a = map_option (\<lambda>b. upd b a) (decode_struct fs (get a) v)"

text \<open>A slice of structs; \<open>Some None\<close> is the nil slice JSON null decodes to.\<close>

definition decode_slice :: "'a field_table \<Rightarrow> 'a \<Rightarrow> json \<Rightarrow> 'a list option option" where
  "decode_slice fs zero v = (case v of JNull \<Rightarrow> Some None
     | JArr vs \<Rightarrow> map_option Some (those (map (decode_struct fs zero) vs)) | _ \<Rightarrow> None)"

definition Unmarshal_slice :: "'a field_table \<Rightarrow> 'a \<Rightarrow> string \<Rightarrow> 'a list option option" where
  "Unmarshal_slice fs zero raw = (case parse_json raw of None \<Rightarrow> None | Some v \<Rightarrow> decode_slice fs zero v)"

definition Unmarshal_struct :: "'a field_table \<Rightarrow> 'a \<Rightarrow> string \<Rightarrow> 'a option" where
  "Unmarshal_struct fs zero raw = (case parse_json raw of None \<Rightarrow> None | Some v \<Rightarrow> decode_struct fs zero v)"

section \<open>Encoding\<close>

definition Marshal_raw :: "string \<Rightarrow> json option" where
  \<comment> \<open>a non-empty \<open>RawMessage\<close>: compacted, an error if it is not JSON\<close>
  "Marshal_raw raw = map_option compact_json (parse_json raw)"

definition string_field :: "string \<Rightarrow> string \<Rightarrow> (string \<times> json) list" where
  "string_field name s = [(name, JStr (enc_string s))]"

definition omit_string :: "string \<Rightarrow> string \<Rightarrow> (string \<times> json) list" where
  "omit_string name s = (if s = [] then [] else string_field name s)"

definition omit_bool :: "string \<Rightarrow> bool \<Rightarrow> (string \<times> json) list" where
  "omit_bool name b = (if b then [(name, JBool True)] else [])"

definition omit_raw :: "string \<Rightarrow> string \<Rightarrow> (string \<times> json) list option" where
  "omit_raw name raw = (if raw = [] then Some [] else map_option (\<lambda>v. [(name, v)]) (Marshal_raw raw))"

definition checked :: "json \<Rightarrow> json option" where
  \<comment> \<open>the result of a \<open>MarshalJSON\<close> method is checked against the scanner's depth limit\<close>
  "checked v = (if json_depth v \<le> max_depth then Some v else None)"

definition Marshal_slice :: "('a \<Rightarrow> json option) \<Rightarrow> 'a list option \<Rightarrow> string option" where
  "Marshal_slice enc xs = (case xs of None \<Rightarrow> Some ''null''
     | Some xs \<Rightarrow> map_option (\<lambda>vs. print_json (JArr vs)) (those (map enc xs)))"

section \<open>Generic facts\<close>

lemma those_map_Some: "(\<And>x. x \<in> set xs \<Longrightarrow> f x = Some (g x)) \<Longrightarrow> those (map f xs) = Some (map g xs)"
  by (induction xs) auto

lemma those_Some_iff: "those xs = Some ys \<longleftrightarrow> list_all2 (\<lambda>x y. x = Some y) xs ys"
  by (induction xs arbitrary: ys) (auto split: option.splits simp: list_all2_Cons1)

lemma those_Some_in: "those (map f xs) = Some ys \<Longrightarrow> y \<in> set ys \<Longrightarrow> \<exists>x\<in>set xs. f x = Some y"
  by (induction xs arbitrary: ys) (auto split: option.splits)

lemma decode_members_append:
  "decode_members fs (xs @ ys) a = (case decode_members fs xs a of None \<Rightarrow> None | Some b \<Rightarrow> decode_members fs ys b)"
  by (induction fs xs a rule: decode_members.induct) (auto split: option.splits)

text \<open>An invariant of a struct that every field keeps holds of whatever is decoded.\<close>

lemma set_field_inv:
  "(\<And>name f a b. (name, f) \<in> set fs \<Longrightarrow> I a \<Longrightarrow> f v a = Some b \<Longrightarrow> I b) \<Longrightarrow> I a \<Longrightarrow> set_field fs k v a = Some b \<Longrightarrow> I b"
proof (induction fs)
  case (Cons f fs)
  obtain n g where f: "f = (n, g)" by fastforce
  with Cons.prems(1) have "I a \<Longrightarrow> g v a = Some b \<Longrightarrow> I b" "\<And>name f a b. (name, f) \<in> set fs \<Longrightarrow> I a \<Longrightarrow> f v a = Some b \<Longrightarrow> I b"
    by auto
  with Cons f show ?case by (auto split: if_splits)
qed simp

lemma decode_members_inv:
  assumes "\<And>name f v a b. (name, f) \<in> set fs \<Longrightarrow> P v \<Longrightarrow> I a \<Longrightarrow> f v a = Some b \<Longrightarrow> I b"
  shows "\<forall>kv\<in>set kvs. P (snd kv) \<Longrightarrow> I a \<Longrightarrow> decode_members fs kvs a = Some b \<Longrightarrow> I b"
proof (induction kvs arbitrary: a)
  case (Cons kv kvs)
  obtain k v where kv: "kv = (k, v)" by fastforce
  with Cons.prems obtain a' where a': "set_field fs (unquote k) v a = Some a'" "decode_members fs kvs a' = Some b"
    by (auto split: option.splits)
  have "I a'" using set_field_inv [of fs I v a "unquote k" a'] assms Cons.prems kv a'(1) by fastforce
  with Cons a'(2) show ?case by simp
qed simp

end
