(* ===== verification/AnthropicToolSchemaCorrect.thy ===== *)
theory AnthropicToolSchemaCorrect
  imports AnthropicToolSchema GoStruct
begin

text \<open>
  Whatever schema a tool declares, the normalized one is the JSON text of an object schema: its type is
  \<open>object\<close>, it has properties, and no union keyword is left at its root.
\<close>

declare unquote.simps [simp del] body_ok.simps [simp del] valid_utf8.simps(2) [simp del]

section \<open>Maps of raw values\<close>

definition schema_ok :: "schema \<Rightarrow> bool" where
  "schema_ok m \<longleftrightarrow> distinct (map fst m) \<and> (\<forall>kv\<in>set m. valid_utf8 (fst kv) \<and> wf_json (snd kv))"

lemma schema_ok_Nil [simp]: "schema_ok []"
  by (simp add: schema_ok_def)

lemma schema_ok_value: "schema_ok m \<Longrightarrow> map_of m k = Some v \<Longrightarrow> wf_json v"
  by (auto simp: schema_ok_def dest: map_of_SomeD)

lemma schema_ok_filter: "schema_ok m \<Longrightarrow> schema_ok (filter P m)"
  by (auto simp: schema_ok_def distinct_map_filter)

lemma schema_ok_delete: "schema_ok m \<Longrightarrow> schema_ok (AList.delete k m)"
  by (simp add: AList.delete_eq schema_ok_filter)

lemma update_in: "kv \<in> set (AList.update k v m) \<Longrightarrow> kv = (k, v) \<or> kv \<in> set m"
  by (induction m) (auto split: if_splits)

lemma schema_ok_update: "schema_ok m \<Longrightarrow> valid_utf8 k \<Longrightarrow> wf_json v \<Longrightarrow> schema_ok (AList.update k v m)"
  by (auto simp: schema_ok_def distinct_update dest!: update_in)

lemma obj_map_ok:
  assumes "wf_json (JObj kvs)"
  shows "schema_ok (obj_map kvs)"
proof -
  have "schema_ok (fold (\<lambda>(k, v) m. (unquote k, v) # filter (\<lambda>kv. fst kv \<noteq> unquote k) m) kvs m)"
    if "schema_ok m" "\<forall>kv\<in>set kvs. body_ok (fst kv) \<and> wf_json (snd kv)" for m
    using that
  proof (induction kvs arbitrary: m)
    case (Cons kv kvs)
    obtain k v where kv: "kv = (k, v)" by fastforce
    have "schema_ok ((unquote k, v) # filter (\<lambda>kv. fst kv \<noteq> unquote k) m)"
      using schema_ok_filter [OF Cons.prems(1), of "\<lambda>kv. fst kv \<noteq> unquote k"] Cons.prems(2) kv
      by (auto simp: schema_ok_def valid_unquote)
    with Cons kv show ?case by simp
  qed simp
  with assms show ?thesis by (simp add: obj_map_def)
qed

lemma decode_map_ok: "wf_json v \<Longrightarrow> decode_map v = Some (Some m) \<Longrightarrow> schema_ok m"
  by (auto simp: decode_map_def obj_map_ok simp del: wf_json.simps(4) split: json.splits)

section \<open>Marshalling a map and decoding it again\<close>

lemma set_insert_key: "set (insert_key x xs) = insert x (set xs)"
  by (induction xs) auto

lemma distinct_insert_key: "distinct (map fst (insert_key x xs)) \<longleftrightarrow> distinct (map fst (x # xs))"
  by (induction xs) (auto simp: set_insert_key)

lemma sort_keys_spec: "set (sort_keys m) = set m" "distinct (map fst m) \<Longrightarrow> distinct (map fst (sort_keys m))"
proof -
  have "set (fold insert_key m xs) = set m \<union> set xs" for xs
    by (induction m arbitrary: xs) (auto simp: set_insert_key)
  then show "set (sort_keys m) = set m" by (simp add: sort_keys_def)
  have "distinct (map fst m) \<Longrightarrow> distinct (map fst xs) \<Longrightarrow> fst ` set m \<inter> fst ` set xs = {}
      \<Longrightarrow> distinct (map fst (fold insert_key m xs))" for xs
    by (induction m arbitrary: xs) (auto simp: distinct_insert_key set_insert_key)
  from this [of "[]"] show "distinct (map fst m) \<Longrightarrow> distinct (map fst (sort_keys m))"
    by (simp add: sort_keys_def)
qed

lemma obj_map_distinct:
  assumes "distinct (map (\<lambda>kv. unquote (fst kv)) kvs)"
  shows "obj_map kvs = rev (map (\<lambda>kv. (unquote (fst kv), snd kv)) kvs)"
proof -
  have "fold (\<lambda>(k, v) m. (unquote k, v) # filter (\<lambda>kv. fst kv \<noteq> unquote k) m) kvs m
      = rev (map (\<lambda>kv. (unquote (fst kv), snd kv)) kvs) @ m"
    if "distinct (map (\<lambda>kv. unquote (fst kv)) kvs)" "\<forall>kv\<in>set kvs. unquote (fst kv) \<notin> fst ` set m" for m
    using that
  proof (induction kvs arbitrary: m)
    case (Cons kv kvs)
    obtain k v where kv: "kv = (k, v)" by fastforce
    have "filter (\<lambda>kv. fst kv \<noteq> unquote k) m = m" using Cons.prems(2) kv by (intro filter_True) force
    moreover have "fold (\<lambda>(k, v) m. (unquote k, v) # filter (\<lambda>kv. fst kv \<noteq> unquote k) m) kvs ((unquote k, v) # m)
        = rev (map (\<lambda>kv. (unquote (fst kv), snd kv)) kvs) @ (unquote k, v) # m"
      using Cons.prems kv by (intro Cons.IH) force+
    ultimately show ?case using kv by simp
  qed simp
  from this [of "[]"] assms show ?thesis by (simp add: obj_map_def)
qed

lemma map_value_decoded:
  assumes "schema_ok m"
  obtains m' where "decode_map (map_value m) = Some (Some m')" "\<And>k. map_of m' k = map_option compact_json (map_of m k)"
    "wf_json (map_value m)"
proof -
  let ?s = "sort_keys m" and ?e = "\<lambda>kv::string \<times> json. (enc_string (fst kv), compact_json (snd kv))"
  have s: "set ?s = set m" "distinct (map fst ?s)" using assms sort_keys_spec by (auto simp: schema_ok_def)
  have u: "map (\<lambda>kv. (unquote (fst kv), snd kv)) (map ?e ?s) = map (\<lambda>kv. (fst kv, compact_json (snd kv))) ?s"
    using assms s(1) by (auto simp: schema_ok_def unquote_enc_string)
  have "map (\<lambda>kv. unquote (fst kv)) (map ?e ?s) = map fst ?s"
    using assms s(1) by (auto simp: schema_ok_def unquote_enc_string)
  then have "distinct (map (\<lambda>kv. unquote (fst kv)) (map ?e ?s))" using s(2) by (simp only:)
  note o = obj_map_distinct [OF this, unfolded u]
  have r: "map_of (rev (map (\<lambda>kv. (fst kv, compact_json (snd kv))) ?s)) = map_of (map (\<lambda>kv. (fst kv, compact_json (snd kv))) ?s)"
    using s(2) by (intro map_of_inject_set [THEN iffD2]) (auto simp: comp_def rev_map [symmetric])
  have "map_of (map (\<lambda>kv. (fst kv, compact_json (snd kv))) xs) k = map_option compact_json (map_of xs k)" for xs :: schema and k
    by (induction xs) auto
  with r o have m: "map_of (obj_map (map ?e ?s)) k = map_option compact_json (map_of ?s k)" for k by simp
  have "map_of ?s = map_of m"
    using s assms by (intro map_of_inject_set [THEN iffD2]) (auto simp: schema_ok_def)
  with m have m: "map_of (obj_map (map ?e ?s)) k = map_option compact_json (map_of m k)" for k by simp
  moreover have "wf_json (map_value m)"
    using assms s(1) by (auto simp: map_value_def schema_ok_def wf_compact)
  ultimately show ?thesis by (intro that) (simp_all add: decode_map_def map_value_def)
qed

section \<open>Flattening\<close>

lemma anyOf_wf: "wf_json v \<Longrightarrow> wf_json w \<Longrightarrow> wf_json (JObj [(''anyOf'', JArr [compact_json v, compact_json w])])"
proof -
  have "body_ok ''anyOf''" by code_simp
  then show "wf_json v \<Longrightarrow> wf_json w \<Longrightarrow> ?thesis" by (simp add: wf_compact)
qed

lemma merge_property_ok:
  "schema_ok into \<Longrightarrow> valid_utf8 (fst np) \<Longrightarrow> wf_json (snd np) \<Longrightarrow> schema_ok (merge_property np into)"
  unfolding merge_property_def
  by (auto intro!: schema_ok_update anyOf_wf dest: schema_ok_value simp del: wf_json.simps split: prod.split option.split)

lemma fold_merge_property_ok:
  "schema_ok into \<Longrightarrow> schema_ok ps \<Longrightarrow> schema_ok (fold merge_property ps into)"
  unfolding schema_ok_def [of ps]
  by (induction ps arbitrary: into) (auto simp: merge_property_ok)

definition branch_ok :: "schema option \<Rightarrow> bool" where
  "branch_ok b \<longleftrightarrow> (case b of None \<Rightarrow> True | Some m \<Rightarrow> schema_ok m)"

lemma merge_branch_ok: "schema_ok into \<Longrightarrow> branch_ok b \<Longrightarrow> schema_ok (merge_branch b into)"
  unfolding merge_branch_def branch_ok_def
  by (auto split: option.split intro!: fold_merge_property_ok intro: decode_map_ok [OF schema_ok_value])

lemma merge_branches_ok:
  "schema_ok into \<Longrightarrow> \<forall>b\<in>set bs. branch_ok b \<Longrightarrow> schema_ok (mergeAnthropicObjectBranchProperties into bs)"
  unfolding mergeAnthropicObjectBranchProperties_def
  by (induction bs arbitrary: into) (auto simp: merge_branch_ok)

lemma properties_ok: "schema_ok m \<Longrightarrow> schema_ok (anthropicSchemaProperties m)"
  by (auto simp: anthropicSchemaProperties_def split: option.split dest: decode_map_ok schema_ok_value)

lemma required_wf: "wf_json (string_array ss)"
  by (simp add: string_array_def)

definition acc_ok :: "union_acc \<Rightarrow> bool" where
  "acc_ok acc \<longleftrightarrow> schema_ok (fst acc)"

lemma add_union_ok: "acc_ok acc \<Longrightarrow> (\<And>bs. d = Some bs \<Longrightarrow> \<forall>b\<in>set bs. branch_ok b) \<Longrightarrow> acc_ok (add_union k d acc)"
  by (auto simp: add_union_def acc_ok_def Let_def merge_branches_ok split: prod.split option.split)

lemma fold_add_union_ok:
  "acc_ok acc \<Longrightarrow> \<forall>kd\<in>set ds. \<forall>bs. snd kd = Some bs \<longrightarrow> (\<forall>b\<in>set bs. branch_ok b) \<Longrightarrow>
     acc_ok (fold (\<lambda>(k, d). add_union k d) ds acc)"
proof (induction ds arbitrary: acc)
  case (Cons kd ds)
  have "acc_ok (add_union (fst kd) (snd kd) acc)" using Cons.prems by (intro add_union_ok) auto
  with Cons show ?case by (simp add: case_prod_beta)
qed simp

lemma names_valid_literals: "valid_utf8 ''properties''" "valid_utf8 ''required''" "valid_utf8 ''type''" "body_ok ''object''"
    "unquote ''object'' = ''object''"
  by code_simp+

lemma Marshal_map_wf: "schema_ok m \<Longrightarrow> Marshal_map m = Some v \<Longrightarrow> wf_json v"
  by (auto simp: Marshal_map_def split: if_splits elim: map_value_decoded)

lemma set_marshalled_ok: "schema_ok m \<Longrightarrow> schema_ok ps \<Longrightarrow> schema_ok (set_marshalled ''properties'' (Marshal_map ps) m)"
  by (auto simp: set_marshalled_def names_valid_literals intro!: schema_ok_update Marshal_map_wf [of ps] split: option.split)

lemma finish_union_ok: "schema_ok m \<Longrightarrow> acc_ok acc \<Longrightarrow> schema_ok (finish_union r acc m)"
  by (auto simp: finish_union_def acc_ok_def Let_def names_valid_literals required_wf
      intro!: schema_ok_update set_marshalled_ok split: prod.split)

lemma finish_union_keys: "k \<noteq> ''properties'' \<Longrightarrow> k \<noteq> ''required'' \<Longrightarrow> map_of (finish_union r acc m) k = map_of m k"
  by (simp add: finish_union_def Let_def set_marshalled_def update_conv' split: prod.split option.split)

lemma fold_delete_ok: "schema_ok m \<Longrightarrow> schema_ok (fold AList.delete ks m)"
  by (induction ks arbitrary: m) (auto simp: schema_ok_delete)

lemma fold_delete_keys: "map_of (fold AList.delete ks m) k = (if k \<in> set ks then None else map_of m k)"
  by (induction ks arbitrary: m) (auto simp: delete_conv')

lemma flatten_ok: "schema_ok m \<Longrightarrow> schema_ok (flattenAnthropicRootUnions m)"
proof (induction m rule: flattenAnthropicRootUnions.induct)
  case (1 m)
  let ?present = "filter (\<lambda>keyword. map_of m keyword \<noteq> None) anthropicInputSchemaUnionKeywords"
  let ?branch = "\<lambda>item. case item of JObj kvs \<Rightarrow> Some (flattenAnthropicRootUnions (obj_map kvs)) | _ \<Rightarrow> None"
  let ?decode = "\<lambda>keyword. case map_of m keyword of Some (JArr items) \<Rightarrow>
                if items = [] then None else Some (map ?branch items) | _ \<Rightarrow> None"
  show ?case
  proof (cases "?present = []")
    case True
    then show ?thesis using "1.prems" by (subst flattenAnthropicRootUnions.simps) (simp add: Let_def)
  next
    case False
    have "branch_ok b" if k: "map_of m k = Some (JArr items)" "k \<in> set ?present" and b: "b \<in> set (map ?branch items)" for k items b
    proof -
      obtain item where item: "item \<in> set items" "b = ?branch item" using b by auto
      show ?thesis
      proof (cases item)
        case (JObj kvs)
        have "wf_json (JArr items)" using schema_ok_value [OF "1.prems" k(1)] .
        with item(1) JObj have "wf_json (JObj kvs)" unfolding wf_json.simps(3) by blast
        then have "schema_ok (obj_map kvs)" by (rule obj_map_ok)
        then have "schema_ok (flattenAnthropicRootUnions (obj_map kvs))"
          using "1.IH" [OF refl False k(2) k(1) refl _ item(1) JObj] item(1) by (cases "items = []") auto
        with item JObj show ?thesis by (simp add: branch_ok_def)
      qed (use item in \<open>simp_all add: branch_ok_def\<close>)
    qed
    then have "acc_ok (fold (\<lambda>(k, d). add_union k d) (map (\<lambda>k. (k, ?decode k)) ?present) (anthropicSchemaProperties m, [], []))"
      using properties_ok [OF "1.prems"]
      by (intro fold_add_union_ok) (auto simp: acc_ok_def split: option.splits json.splits if_splits)
    then show ?thesis
      using False "1.prems" by (subst flattenAnthropicRootUnions.simps) (auto simp: Let_def intro!: finish_union_ok fold_delete_ok)
  qed
qed

lemma flatten_keys: "k \<in> set anthropicInputSchemaUnionKeywords \<Longrightarrow> map_of (flattenAnthropicRootUnions m) k = None"
proof -
  assume k: "k \<in> set anthropicInputSchemaUnionKeywords"
  then have n: "k \<noteq> ''properties''" "k \<noteq> ''required''" by (auto simp: anthropicInputSchemaUnionKeywords_def)
  let ?present = "filter (\<lambda>keyword. map_of m keyword \<noteq> None) anthropicInputSchemaUnionKeywords"
  have "map_of m k = None \<or> k \<in> set ?present" using k by auto
  then have "map_of (fold AList.delete ?present m) k = None" unfolding fold_delete_keys by auto
  moreover have "map_of m k = None" if "?present = []" using k that by (simp add: filter_empty_conv)
  ultimately show ?thesis
    by (subst flattenAnthropicRootUnions.simps) (simp add: Let_def finish_union_keys [OF n] del: fold_simps)
qed

section \<open>Object schemas\<close>

definition is_object_schema :: "json \<Rightarrow> bool" where
  "is_object_schema v = (case decode_map v of
     Some (Some m) \<Rightarrow> (case map_of m ''type'' of None \<Rightarrow> False | Some t \<Rightarrow> decode_string t = Some ''object'')
       \<and> map_of m ''properties'' \<noteq> None \<and> list_all (\<lambda>k. map_of m k = None) anthropicInputSchemaUnionKeywords
   | _ \<Rightarrow> False)"

lemma empty_is_object: "is_object_schema (JObj [(''type'', JStr ''object''), (''properties'', JObj [])])"
  by code_simp

lemma empty_wf: "wf_json (JObj [(''type'', JStr ''object''), (''properties'', JObj [])])"
proof -
  have "body_ok ''type''" "body_ok ''properties''" by code_simp+
  then show ?thesis by (simp add: names_valid_literals)
qed

lemma typed_map_object:
  assumes "schema_ok m" "\<And>k. k \<in> set anthropicInputSchemaUnionKeywords \<Longrightarrow> map_of m k = None"
    and "map_of m ''type'' = Some t" "decode_string t = Some ''object''" "map_of m ''properties'' \<noteq> None"
  shows "is_object_schema (map_value m)"
proof -
  obtain m' where m': "decode_map (map_value m) = Some (Some m')" "\<And>k. map_of m' k = map_option compact_json (map_of m k)"
    using map_value_decoded [OF assms(1)] by blast
  obtain b where b: "t = JStr b" "unquote b = ''object''"
    using assms(4) by (auto simp: decode_string_def split: json.splits)
  have "body_ok b" using schema_ok_value [OF assms(1,3)] b(1) by simp
  then have "decode_string (compact_json t) = Some ''object''" using b unquote_compact by (simp add: decode_string_def)
  with m' assms(2,3,5) show ?thesis by (auto simp: is_object_schema_def list_all_iff)
qed

lemma normalized_object: "\<exists>v. normalizeAnthropicInputSchema s = print_json v \<and> wf_json v \<and> is_object_schema v"
proof -
  let ?e = "JObj [(''type'', JStr ''object''), (''properties'', JObj [])]"
  have fallback: ?thesis if "normalizeAnthropicInputSchema s = empty_object_schema"
    using that empty_is_object empty_wf by (metis empty_object_schema_def)
  show ?thesis
  proof (cases "TrimSpace s = [] \<or> TrimSpace s = ''null''")
    case True
    then show ?thesis by (intro fallback) (simp add: normalizeAnthropicInputSchema_def)
  next
    case nonempty: False
    show ?thesis
    proof (cases "Unmarshal_object s")
      case None
      with nonempty show ?thesis by (intro fallback) (simp add: normalizeAnthropicInputSchema_def)
    next
      case (Some m0)
      then have "schema_ok m0"
        by (auto simp: Unmarshal_object_def simp del: wf_json.simps dest!: parse_wf intro!: obj_map_ok split: option.splits json.splits)
      define m where "m = flattenAnthropicRootUnions m0"
      have ok: "schema_ok m" unfolding m_def using \<open>schema_ok m0\<close> by (rule flatten_ok)
      have keys: "map_of m k = None" if "k \<in> set anthropicInputSchemaUnionKeywords" for k
        unfolding m_def using that by (rule flatten_keys)
      define m1 where "m1 = (case map_of m ''type'' of None \<Rightarrow> AList.update ''type'' (JStr ''object'') m
        | Some t \<Rightarrow> if t = JNull then AList.update ''type'' (JStr ''object'') m else m)"
      define m2 where "m2 = (if map_of m1 ''properties'' = None then AList.update ''properties'' (JObj []) m1 else m1)"
      show ?thesis
      proof (cases "\<exists>t. map_of m ''type'' = Some t \<and> t \<noteq> JNull \<and> decode_string t \<noteq> Some ''object''")
        case True
        with nonempty Some show ?thesis
          by (intro fallback) (auto simp: normalizeAnthropicInputSchema_def Let_def m_def [symmetric])
      next
        case False
        have t: "\<exists>t. map_of m1 ''type'' = Some t \<and> decode_string t = Some ''object''"
          using False names_valid_literals(5) by (auto simp: m1_def update_conv' decode_string_def split: option.split)
        have k1: "map_of m1 k = None" if "k \<in> set anthropicInputSchemaUnionKeywords" for k
          using keys [OF that] that by (auto simp: m1_def update_conv' anthropicInputSchemaUnionKeywords_def split: option.split)
        have ok1: "schema_ok m1"
          using ok names_valid_literals by (auto simp: m1_def intro!: schema_ok_update split: option.split)
        have "schema_ok m2" "map_of m2 ''properties'' \<noteq> None" "map_of m2 ''type'' = map_of m1 ''type''"
          using ok1 names_valid_literals by (auto simp: m2_def update_conv' intro!: schema_ok_update)
        moreover have "map_of m2 k = None" if "k \<in> set anthropicInputSchemaUnionKeywords" for k
          using k1 [OF that] that by (auto simp: m2_def update_conv' anthropicInputSchemaUnionKeywords_def)
        ultimately have o: "is_object_schema (map_value m2)" "wf_json (map_value m2)"
          using t by (auto intro: typed_map_object elim: map_value_decoded)
        have "normalizeAnthropicInputSchema s = (case Marshal_map m2 of None \<Rightarrow> empty_object_schema | Some v \<Rightarrow> print_json v)"
          using nonempty Some False
          by (auto simp: normalizeAnthropicInputSchema_def Let_def m_def [symmetric] m1_def m2_def split: option.split)
        then show ?thesis
          using o fallback by (cases "Marshal_map m2") (auto simp: Marshal_map_def split: if_splits)
      qed
    qed
  qed
qed

end
