(* ===== verification/RequestTypes.thy ===== *)
theory RequestTypes
  imports GoStruct ApiTypes
begin

text \<open>
  The request structs of \<open>types.go\<close>, and how the content of messages is decoded from and encoded
  to JSON: the field tables of the structs that are decoded, and \<open>MarshalJSON\<close> of content blocks.
\<close>

declare unquote.simps [simp del]

section \<open>Structs\<close>

record AnthropicMessage =
  am_Role :: string
  am_Content :: string

record AnthropicTool =
  at_Type :: string
  at_Name :: string
  at_Description :: string
  at_InputSchema :: string
  at_CacheControl :: "AnthropicCacheControl option"

definition zeroTool :: AnthropicTool where
  "zeroTool = \<lparr>at_Type = [], at_Name = [], at_Description = [], at_InputSchema = [], at_CacheControl = None\<rparr>"

record ResponsesInputItem =
  ri_Type :: string
  ri_Role :: string
  ri_Content :: string
  ri_EncryptedContent :: string
  ri_CallID :: string
  ri_Name :: string
  ri_Arguments :: string
  ri_ID :: string
  ri_Output :: string
  ri_outputRaw :: string

definition zeroItem :: ResponsesInputItem where
  "zeroItem = \<lparr>ri_Type = [], ri_Role = [], ri_Content = [], ri_EncryptedContent = [], ri_CallID = [], ri_Name = [],
     ri_Arguments = [], ri_ID = [], ri_Output = [], ri_outputRaw = []\<rparr>"

section \<open>Decoding\<close>

definition CacheControl_fields :: "AnthropicCacheControl field_table" where
  "CacheControl_fields =
     [(''type'', string_into (\<lambda>s c. c\<lparr>acc_Type := s\<rparr>)), (''ttl'', string_into (\<lambda>s c. c\<lparr>acc_TTL := s\<rparr>))]"

definition zeroCacheControl :: AnthropicCacheControl where
  "zeroCacheControl = \<lparr>acc_Type = [], acc_TTL = []\<rparr>"

definition ImageSource_fields :: "AnthropicImageSource field_table" where
  "ImageSource_fields =
     [(''type'', string_into (\<lambda>s c. c\<lparr>ais_Type := s\<rparr>)), (''media_type'', string_into (\<lambda>s c. c\<lparr>ais_MediaType := s\<rparr>)),
      (''data'', string_into (\<lambda>s c. c\<lparr>ais_Data := s\<rparr>))]"

definition zeroSource :: AnthropicImageSource where
  "zeroSource = \<lparr>ais_Type = [], ais_MediaType = [], ais_Data = []\<rparr>"

definition AnthropicContentBlock_fields :: "AnthropicContentBlock field_table" where
  "AnthropicContentBlock_fields =
     [(''type'', string_into (\<lambda>s b. b\<lparr>acb_Type := s\<rparr>)),
      (''cache_control'', pointer_into CacheControl_fields zeroCacheControl acb_CacheControl (\<lambda>p b. b\<lparr>acb_CacheControl := p\<rparr>)),
      (''text'', string_into (\<lambda>s b. b\<lparr>acb_Text := s\<rparr>)),
      (''thinking'', string_into (\<lambda>s b. b\<lparr>acb_Thinking := s\<rparr>)),
      (''signature'', string_into (\<lambda>s b. b\<lparr>acb_Signature := s\<rparr>)),
      (''data'', string_into (\<lambda>s b. b\<lparr>acb_Data := s\<rparr>)),
      (''source'', pointer_into ImageSource_fields zeroSource acb_Source (\<lambda>p b. b\<lparr>acb_Source := p\<rparr>)),
      (''id'', string_into (\<lambda>s b. b\<lparr>acb_ID := s\<rparr>)),
      (''name'', string_into (\<lambda>s b. b\<lparr>acb_Name := s\<rparr>)),
      (''input'', raw_into (\<lambda>r b. b\<lparr>acb_Input := r\<rparr>)),
      (''tool_use_id'', string_into (\<lambda>s b. b\<lparr>acb_ToolUseID := s\<rparr>)),
      (''content'', raw_into (\<lambda>r b. b\<lparr>acb_Content := r\<rparr>)),
      (''is_error'', bool_into (\<lambda>e b. b\<lparr>acb_IsError := e\<rparr>))]"

definition Unmarshal_blocks :: "string \<Rightarrow> AnthropicContentBlock list option option" where
  "Unmarshal_blocks = Unmarshal_slice AnthropicContentBlock_fields zeroBlock"

definition ResponsesContentPart_fields :: "ResponsesContentPart field_table" where
  "ResponsesContentPart_fields =
     [(''prompt_cache_breakpoint'', raw_into (\<lambda>r p. p\<lparr>rcp_PromptCacheBreakpoint := r\<rparr>)),
      (''type'', string_into (\<lambda>s p. p\<lparr>rcp_Type := s\<rparr>)),
      (''text'', string_into (\<lambda>s p. p\<lparr>rcp_Text := s\<rparr>)),
      (''refusal'', string_into (\<lambda>s p. p\<lparr>rcp_Refusal := s\<rparr>)),
      (''image_url'', string_into (\<lambda>s p. p\<lparr>rcp_ImageURL := s\<rparr>)),
      (''filename'', string_into (\<lambda>s p. p\<lparr>rcp_Filename := s\<rparr>)),
      (''file_data'', string_into (\<lambda>s p. p\<lparr>rcp_FileData := s\<rparr>)),
      (''file_id'', string_into (\<lambda>s p. p\<lparr>rcp_FileID := s\<rparr>))]"

definition Unmarshal_parts :: "string \<Rightarrow> ResponsesContentPart list option option" where
  "Unmarshal_parts = Unmarshal_slice ResponsesContentPart_fields zeroPart"

text \<open>\<open>UnmarshalJSON\<close> of an input item: the \<open>output\<close> of its wire struct is raw and hides the field of the embedded
  alias; the item and that raw output are decoded side by side.\<close>

definition wire_fields :: "(ResponsesInputItem \<times> string) field_table" where
  "wire_fields =
     [(''type'', string_into (\<lambda>s (i, r). (i\<lparr>ri_Type := s\<rparr>, r))),
      (''role'', string_into (\<lambda>s (i, r). (i\<lparr>ri_Role := s\<rparr>, r))),
      (''content'', raw_into (\<lambda>s (i, r). (i\<lparr>ri_Content := s\<rparr>, r))),
      (''encrypted_content'', string_into (\<lambda>s (i, r). (i\<lparr>ri_EncryptedContent := s\<rparr>, r))),
      (''call_id'', string_into (\<lambda>s (i, r). (i\<lparr>ri_CallID := s\<rparr>, r))),
      (''name'', string_into (\<lambda>s (i, r). (i\<lparr>ri_Name := s\<rparr>, r))),
      (''arguments'', string_into (\<lambda>s (i, r). (i\<lparr>ri_Arguments := s\<rparr>, r))),
      (''id'', string_into (\<lambda>s (i, r). (i\<lparr>ri_ID := s\<rparr>, r))),
      (''output'', raw_into (\<lambda>s (i, r). (i, s)))]"

definition ResponsesInputItem_UnmarshalJSON :: "json \<Rightarrow> ResponsesInputItem option" where
  "ResponsesInputItem_UnmarshalJSON v = (case decode_struct wire_fields (zeroItem, []) v of None \<Rightarrow> None
     | Some (i, raw) \<Rightarrow>
       let output = TrimSpace raw in
       if output = [] \<or> output = ''null'' then Some i
       else case Unmarshal_string output of Some s \<Rightarrow> Some (i\<lparr>ri_Output := s\<rparr>)
         | None \<Rightarrow> Some (i\<lparr>ri_outputRaw := output, ri_Output := output\<rparr>))"

definition Unmarshal_items :: "string \<Rightarrow> ResponsesInputItem list option" where
  \<comment> \<open>nil and empty are the same to the code that ranges over the items\<close>
  "Unmarshal_items raw = (case parse_json raw of
     Some JNull \<Rightarrow> Some [] | Some (JArr vs) \<Rightarrow> those (map ResponsesInputItem_UnmarshalJSON vs) | _ \<Rightarrow> None)"

section \<open>Encoding content blocks\<close>

definition enc_CacheControl :: "AnthropicCacheControl \<Rightarrow> json" where
  "enc_CacheControl c = JObj (string_field ''type'' (acc_Type c) @ omit_string ''ttl'' (acc_TTL c))"

definition enc_Source :: "AnthropicImageSource \<Rightarrow> json" where
  "enc_Source s = JObj (string_field ''type'' (ais_Type s) @ string_field ''media_type'' (ais_MediaType s)
     @ string_field ''data'' (ais_Data s))"

definition omit_pointer :: "string \<Rightarrow> ('a \<Rightarrow> json) \<Rightarrow> 'a option \<Rightarrow> (string \<times> json) list" where
  "omit_pointer name enc p = (case p of None \<Rightarrow> [] | Some x \<Rightarrow> [(name, enc x)])"

definition AnthropicContentBlock_MarshalJSON :: "AnthropicContentBlock \<Rightarrow> json option" where
  \<comment> \<open>the outer struct of the cases \<open>text\<close> and \<open>thinking\<close> hides fields of the embedded one\<close>
  "AnthropicContentBlock_MarshalJSON b =
     (let head = (if acb_Type b = ''text'' then string_field ''text'' (acb_Text b)
                  else if acb_Type b = ''thinking''
                  then string_field ''thinking'' (acb_Thinking b) @ string_field ''signature'' (acb_Signature b)
                  else []);
          txt = (if acb_Type b = ''text'' then [] else omit_string ''text'' (acb_Text b));
          thinking = (if acb_Type b = ''thinking'' then []
                      else omit_string ''thinking'' (acb_Thinking b) @ omit_string ''signature'' (acb_Signature b))
      in case (omit_raw ''input'' (acb_Input b), omit_raw ''content'' (acb_Content b)) of
        (Some input, Some content) \<Rightarrow> checked (JObj (head @ string_field ''type'' (acb_Type b)
            @ omit_pointer ''cache_control'' enc_CacheControl (acb_CacheControl b) @ txt @ thinking
            @ omit_string ''data'' (acb_Data b) @ omit_pointer ''source'' enc_Source (acb_Source b)
            @ omit_string ''id'' (acb_ID b) @ omit_string ''name'' (acb_Name b) @ input
            @ omit_string ''tool_use_id'' (acb_ToolUseID b) @ content @ omit_bool ''is_error'' (acb_IsError b)))
      | _ \<Rightarrow> None)"

definition Marshal_blocks :: "AnthropicContentBlock list option \<Rightarrow> string option" where
  "Marshal_blocks = Marshal_slice AnthropicContentBlock_MarshalJSON"

section \<open>Decoding what was encoded\<close>

definition compacted :: "string \<Rightarrow> string" where
  \<comment> \<open>a raw value as it comes back\<close>
  "compacted raw = (case parse_json raw of None \<Rightarrow> [] | Some v \<Rightarrow> print_json (compact_json v))"

definition canon :: "AnthropicContentBlock \<Rightarrow> AnthropicContentBlock" where
  "canon b = b\<lparr>acb_Input := compacted (acb_Input b), acb_Content := compacted (acb_Content b)\<rparr>"

definition raw_ok :: "string \<Rightarrow> bool" where
  \<comment> \<open>absent, or JSON that leaves room for the two levels around it\<close>
  "raw_ok raw \<longleftrightarrow> raw = [] \<or> (\<exists>v. parse_json raw = Some v \<and> json_depth v + 2 \<le> max_depth)"

definition block_ok :: "AnthropicContentBlock \<Rightarrow> bool" where
  "block_ok b \<longleftrightarrow> valid_utf8 (acb_Type b) \<and> valid_utf8 (acb_Text b) \<and> valid_utf8 (acb_Thinking b)
     \<and> valid_utf8 (acb_Signature b) \<and> valid_utf8 (acb_Data b) \<and> valid_utf8 (acb_ID b) \<and> valid_utf8 (acb_Name b)
     \<and> valid_utf8 (acb_ToolUseID b) \<and> raw_ok (acb_Input b) \<and> raw_ok (acb_Content b)
     \<and> (case acb_CacheControl b of None \<Rightarrow> True | Some c \<Rightarrow> valid_utf8 (acc_Type c) \<and> valid_utf8 (acc_TTL c))
     \<and> (case acb_Source b of None \<Rightarrow> True | Some s \<Rightarrow> valid_utf8 (ais_Type s) \<and> valid_utf8 (ais_MediaType s) \<and> valid_utf8 (ais_Data s))"

lemma raw_into_ok: "wf_json v \<Longrightarrow> json_depth v + 2 \<le> max_depth \<Longrightarrow> raw_ok (print_json v)"
  by (simp add: raw_ok_def parse_print)

lemma string_into_inv:
  "string_into upd v a = Some b \<Longrightarrow> wf_json v \<Longrightarrow> I a \<Longrightarrow> (\<And>s. valid_utf8 s \<Longrightarrow> I (upd s a)) \<Longrightarrow> I b"
  by (auto simp: string_into_def valid_unquote split: json.splits)

lemma raw_into_inv:
  "raw_into upd v a = Some b \<Longrightarrow> wf_json v \<Longrightarrow> json_depth v + 2 \<le> max_depth \<Longrightarrow> (\<And>r. raw_ok r \<Longrightarrow> I (upd r a)) \<Longrightarrow> I b"
  by (auto simp: raw_into_def raw_into_ok)

lemma bool_into_inv: "bool_into upd v a = Some b \<Longrightarrow> I a \<Longrightarrow> (\<And>x. I (upd x a)) \<Longrightarrow> I b"
  by (auto simp: bool_into_def split: json.splits)

lemma decode_struct_inv:
  assumes "\<And>name f v a b. (name, f) \<in> set fs \<Longrightarrow> P v \<Longrightarrow> I a \<Longrightarrow> f v a = Some b \<Longrightarrow> I b"
    and "\<And>kvs. v = JObj kvs \<Longrightarrow> \<forall>kv\<in>set kvs. P (snd kv)"
  shows "decode_struct fs a v = Some b \<Longrightarrow> I a \<Longrightarrow> I b"
proof (cases v)
  case (JObj kvs)
  assume "decode_struct fs a v = Some b" "I a"
  with JObj have "decode_members fs kvs a = Some b" by (simp add: decode_struct_def)
  then show ?thesis
    by (rule decode_members_inv [where fs = fs and P = P and I = I, rotated 3]) (use assms JObj \<open>I a\<close> in blast)+
qed (simp_all add: decode_struct_def)

definition cache_ok :: "AnthropicCacheControl \<Rightarrow> bool" where
  "cache_ok c \<longleftrightarrow> valid_utf8 (acc_Type c) \<and> valid_utf8 (acc_TTL c)"

definition source_ok :: "AnthropicImageSource \<Rightarrow> bool" where
  "source_ok s \<longleftrightarrow> valid_utf8 (ais_Type s) \<and> valid_utf8 (ais_MediaType s) \<and> valid_utf8 (ais_Data s)"

lemma zero_ok [simp]: "cache_ok zeroCacheControl" "source_ok zeroSource"
  by (simp_all add: cache_ok_def source_ok_def zeroCacheControl_def zeroSource_def)

lemma decode_cache_ok:
  "decode_struct CacheControl_fields c v = Some d \<Longrightarrow> wf_json v \<Longrightarrow> cache_ok c \<Longrightarrow> cache_ok d"
  by (rule decode_struct_inv [where P = wf_json and I = cache_ok and fs = CacheControl_fields])
     (auto simp: CacheControl_fields_def cache_ok_def elim!: string_into_inv)

lemma decode_source_ok:
  "decode_struct ImageSource_fields c v = Some d \<Longrightarrow> wf_json v \<Longrightarrow> source_ok c \<Longrightarrow> source_ok d"
  by (rule decode_struct_inv [where P = wf_json and I = source_ok and fs = ImageSource_fields])
     (auto simp: ImageSource_fields_def source_ok_def elim!: string_into_inv)

lemma pointer_into_inv:
  assumes "pointer_into fs zero get upd v a = Some b" "wf_json v"
    and "\<And>c d. decode_struct fs c v = Some d \<Longrightarrow> wf_json v \<Longrightarrow> J c \<Longrightarrow> J d" "J zero" "\<And>c. get a = Some c \<Longrightarrow> J c"
    and "I (upd None a)" "\<And>c. J c \<Longrightarrow> I (upd (Some c) a)"
  shows "I b"
proof (cases "v = JNull")
  case False
  let ?old = "case get a of None \<Rightarrow> zero | Some c \<Rightarrow> c"
  obtain d where d: "decode_struct fs ?old v = Some d" "b = upd (Some d) a"
    using assms(1) False by (auto simp: pointer_into_def)
  have "J ?old" using assms(4,5) by (auto split: option.split)
  with d(1) assms(2,3) have "J d" by blast
  with d(2) assms(7) show ?thesis by simp
qed (use assms(1,6) in \<open>simp add: pointer_into_def\<close>)

lemma block_ok_iff: "block_ok b \<longleftrightarrow> valid_utf8 (acb_Type b) \<and> valid_utf8 (acb_Text b) \<and> valid_utf8 (acb_Thinking b)
     \<and> valid_utf8 (acb_Signature b) \<and> valid_utf8 (acb_Data b) \<and> valid_utf8 (acb_ID b) \<and> valid_utf8 (acb_Name b)
     \<and> valid_utf8 (acb_ToolUseID b) \<and> raw_ok (acb_Input b) \<and> raw_ok (acb_Content b)
     \<and> (\<forall>c. acb_CacheControl b = Some c \<longrightarrow> cache_ok c) \<and> (\<forall>s. acb_Source b = Some s \<longrightarrow> source_ok s)"
  by (auto simp: block_ok_def cache_ok_def source_ok_def split: option.splits)

definition keeps_ok :: "json \<Rightarrow> (json \<Rightarrow> AnthropicContentBlock \<Rightarrow> AnthropicContentBlock option) \<Rightarrow> bool" where
  "keeps_ok v f \<longleftrightarrow> (\<forall>a b. block_ok a \<longrightarrow> f v a = Some b \<longrightarrow> block_ok b)"

lemma keeps_okI:
  "wf_json v \<Longrightarrow> (\<And>s a. valid_utf8 s \<Longrightarrow> block_ok a \<Longrightarrow> block_ok (upd s a)) \<Longrightarrow> keeps_ok v (string_into upd)"
  "wf_json v \<Longrightarrow> json_depth v + 2 \<le> max_depth \<Longrightarrow> (\<And>r a. raw_ok r \<Longrightarrow> block_ok a \<Longrightarrow> block_ok (upd r a)) \<Longrightarrow> keeps_ok v (raw_into upd)"
  "(\<And>x a. block_ok a \<Longrightarrow> block_ok (upd' x a)) \<Longrightarrow> keeps_ok v (bool_into upd')"
  "wf_json v \<Longrightarrow> keeps_ok v (pointer_into CacheControl_fields zeroCacheControl acb_CacheControl (\<lambda>p b. b\<lparr>acb_CacheControl := p\<rparr>))"
  "wf_json v \<Longrightarrow> keeps_ok v (pointer_into ImageSource_fields zeroSource acb_Source (\<lambda>p b. b\<lparr>acb_Source := p\<rparr>))"
  unfolding keeps_ok_def
  subgoal by (blast intro: string_into_inv [where I = block_ok])
  subgoal by (blast intro: raw_into_inv [where I = block_ok])
  subgoal by (blast intro: bool_into_inv [where I = block_ok])
  subgoal
    apply (intro allI impI)
    apply (erule pointer_into_inv [where J = cache_ok and I = block_ok])
    by (auto simp: block_ok_iff intro: decode_cache_ok)
  subgoal
    apply (intro allI impI)
    apply (erule pointer_into_inv [where J = source_ok and I = block_ok])
    by (auto simp: block_ok_iff intro: decode_source_ok)
  done

lemma fields_keep_ok:
  "wf_json v \<Longrightarrow> json_depth v + 2 \<le> max_depth \<Longrightarrow> list_all (\<lambda>(name, f). keeps_ok v f) AnthropicContentBlock_fields"
  unfolding AnthropicContentBlock_fields_def list.pred_inject prod.case
  by (intro conjI TrueI keeps_okI) (simp_all add: block_ok_iff)

lemma block_field_ok:
  "(name, f) \<in> set AnthropicContentBlock_fields \<Longrightarrow> wf_json v \<and> json_depth v + 2 \<le> max_depth \<Longrightarrow> block_ok a \<Longrightarrow> f v a = Some b \<Longrightarrow> block_ok b"
  using fields_keep_ok [of v] by (fastforce simp: list_all_iff keeps_ok_def)

lemma block_ok_zero [simp]: "block_ok zeroBlock"
  by (simp add: block_ok_iff zeroBlock_def raw_ok_def)

lemma json_depth_in:
  "v \<in> set vs \<Longrightarrow> json_depth v < json_depth (JArr vs)"
  "kv \<in> set kvs \<Longrightarrow> json_depth (snd kv) < json_depth (JObj kvs)"
  by (simp_all add: less_Suc_eq_le)

lemma decode_blocks_ok:
  assumes "Unmarshal_blocks raw = Some (Some bs)" "b \<in> set bs"
  shows "block_ok b"
proof -
  obtain vs where vs: "parse_json raw = Some (JArr vs)" "those (map (decode_struct AnthropicContentBlock_fields zeroBlock) vs) = Some bs"
    using assms(1) by (auto simp: Unmarshal_blocks_def Unmarshal_slice_def decode_slice_def split: option.splits json.splits)
  obtain v where v: "v \<in> set vs" "decode_struct AnthropicContentBlock_fields zeroBlock v = Some b"
    using those_Some_in [OF vs(2) assms(2)] by blast
  have "wf_json (JArr vs)" "json_depth (JArr vs) \<le> max_depth" using parse_wf [OF vs(1)] by auto
  with v(1) have "wf_json v" "Suc (json_depth v) \<le> max_depth" using json_depth_in(1) [OF v(1)] by auto
  then have "\<forall>kv\<in>set kvs. wf_json (snd kv) \<and> json_depth (snd kv) + 2 \<le> max_depth" if "v = JObj kvs" for kvs
    using that by (auto dest!: json_depth_in(2) simp del: json_depth.simps)
  then show ?thesis
    by (rule decode_struct_inv [where P = "\<lambda>v. wf_json v \<and> json_depth v + 2 \<le> max_depth" and I = block_ok, rotated, OF _ v(2)])
       (auto intro: block_field_ok)
qed

lemma decode_string_field:
  "set_field fs (unquote n) = string_into upd \<Longrightarrow> valid_utf8 s \<Longrightarrow> decode_members fs (string_field n s) b = Some (upd s b)"
  by (simp add: string_field_def string_into_def unquote_enc_string)

lemma decode_omit_string:
  "set_field fs (unquote n) = string_into upd \<Longrightarrow> valid_utf8 s \<Longrightarrow> upd [] b = b \<Longrightarrow>
     decode_members fs (omit_string n s) b = Some (upd s b)"
  by (simp add: omit_string_def decode_string_field)

lemma decode_omit_bool:
  "set_field fs (unquote n) = bool_into upd \<Longrightarrow> upd False b = b \<Longrightarrow> decode_members fs (omit_bool n x) b = Some (upd x b)"
  by (simp add: omit_bool_def bool_into_def)

lemma compacted_Nil [simp]: "compacted [] = []"
  by (simp add: compacted_def parse_json_def skip_ws_def)

lemma omit_raw_ok:
  assumes "raw_ok raw"
  obtains ms where "omit_raw n raw = Some ms" "\<And>fs upd b. set_field fs (unquote n) = raw_into upd \<Longrightarrow> upd [] b = b \<Longrightarrow>
      decode_members fs ms b = Some (upd (compacted raw) b)"
    "\<forall>m\<in>set ms. fst m = n \<and> wf_json (snd m) \<and> json_depth (snd m) + 2 \<le> max_depth"
proof (cases "raw = []")
  case True
  with that [of "[]"] show ?thesis by (simp add: omit_raw_def)
next
  case False
  with assms obtain v where v: "parse_json raw = Some v" "json_depth v + 2 \<le> max_depth" by (auto simp: raw_ok_def)
  with False that [of "[(n, compact_json v)]"] parse_wf [OF v(1)] show ?thesis
    by (simp add: omit_raw_def Marshal_raw_def compacted_def raw_into_def wf_compact depth_compact)
qed

lemma names_folded: "fold_name ''type'' = ''TYPE''" "fold_name ''cache_control'' = ''CACHE_CONTROL''" "fold_name ''text'' = ''TEXT''"
  "fold_name ''thinking'' = ''THINKING''" "fold_name ''signature'' = ''SIGNATURE''" "fold_name ''data'' = ''DATA''"
  "fold_name ''source'' = ''SOURCE''" "fold_name ''id'' = ''ID''" "fold_name ''name'' = ''NAME''" "fold_name ''input'' = ''INPUT''"
  "fold_name ''tool_use_id'' = ''TOOL_USE_ID''" "fold_name ''content'' = ''CONTENT''" "fold_name ''is_error'' = ''IS_ERROR''"
  "fold_name ''ttl'' = ''TTL''" "fold_name ''media_type'' = ''MEDIA_TYPE''"
  by code_simp+

lemma names_unquoted: "unquote ''type'' = ''type''" "unquote ''cache_control'' = ''cache_control''" "unquote ''text'' = ''text''"
  "unquote ''thinking'' = ''thinking''" "unquote ''signature'' = ''signature''" "unquote ''data'' = ''data''"
  "unquote ''source'' = ''source''" "unquote ''id'' = ''id''" "unquote ''name'' = ''name''" "unquote ''input'' = ''input''"
  "unquote ''tool_use_id'' = ''tool_use_id''" "unquote ''content'' = ''content''" "unquote ''is_error'' = ''is_error''"
  "unquote ''ttl'' = ''ttl''" "unquote ''media_type'' = ''media_type''"
  by code_simp+

lemma names_ok: "body_ok ''type''" "body_ok ''cache_control''" "body_ok ''text''"
  "body_ok ''thinking''" "body_ok ''signature''" "body_ok ''data''" "body_ok ''source''" "body_ok ''id''" "body_ok ''name''" "body_ok ''input''"
  "body_ok ''tool_use_id''" "body_ok ''content''" "body_ok ''is_error''" "body_ok ''ttl''" "body_ok ''media_type''"
  by code_simp+

lemma set_block_field:
  "set_field AnthropicContentBlock_fields ''type'' = string_into (\<lambda>s b. b\<lparr>acb_Type := s\<rparr>)"
  "set_field AnthropicContentBlock_fields ''text'' = string_into (\<lambda>s b. b\<lparr>acb_Text := s\<rparr>)"
  "set_field AnthropicContentBlock_fields ''thinking'' = string_into (\<lambda>s b. b\<lparr>acb_Thinking := s\<rparr>)"
  "set_field AnthropicContentBlock_fields ''signature'' = string_into (\<lambda>s b. b\<lparr>acb_Signature := s\<rparr>)"
  "set_field AnthropicContentBlock_fields ''data'' = string_into (\<lambda>s b. b\<lparr>acb_Data := s\<rparr>)"
  "set_field AnthropicContentBlock_fields ''id'' = string_into (\<lambda>s b. b\<lparr>acb_ID := s\<rparr>)"
  "set_field AnthropicContentBlock_fields ''name'' = string_into (\<lambda>s b. b\<lparr>acb_Name := s\<rparr>)"
  "set_field AnthropicContentBlock_fields ''input'' = raw_into (\<lambda>r b. b\<lparr>acb_Input := r\<rparr>)"
  "set_field AnthropicContentBlock_fields ''tool_use_id'' = string_into (\<lambda>s b. b\<lparr>acb_ToolUseID := s\<rparr>)"
  "set_field AnthropicContentBlock_fields ''content'' = raw_into (\<lambda>r b. b\<lparr>acb_Content := r\<rparr>)"
  "set_field AnthropicContentBlock_fields ''is_error'' = bool_into (\<lambda>e b. b\<lparr>acb_IsError := e\<rparr>)"
  "set_field AnthropicContentBlock_fields ''cache_control'' =
     pointer_into CacheControl_fields zeroCacheControl acb_CacheControl (\<lambda>p b. b\<lparr>acb_CacheControl := p\<rparr>)"
  "set_field AnthropicContentBlock_fields ''source'' = pointer_into ImageSource_fields zeroSource acb_Source (\<lambda>p b. b\<lparr>acb_Source := p\<rparr>)"
  by (intro ext; simp add: AnthropicContentBlock_fields_def names_folded)+

lemma set_small_field:
  "set_field CacheControl_fields ''type'' = string_into (\<lambda>s c. c\<lparr>acc_Type := s\<rparr>)"
  "set_field CacheControl_fields ''ttl'' = string_into (\<lambda>s c. c\<lparr>acc_TTL := s\<rparr>)"
  "set_field ImageSource_fields ''type'' = string_into (\<lambda>s c. c\<lparr>ais_Type := s\<rparr>)"
  "set_field ImageSource_fields ''media_type'' = string_into (\<lambda>s c. c\<lparr>ais_MediaType := s\<rparr>)"
  "set_field ImageSource_fields ''data'' = string_into (\<lambda>s c. c\<lparr>ais_Data := s\<rparr>)"
  by (intro ext; simp add: CacheControl_fields_def ImageSource_fields_def names_folded)+

lemma decode_enc_cache: "cache_ok c \<Longrightarrow> decode_struct CacheControl_fields zeroCacheControl (enc_CacheControl c) = Some c"
  by (simp add: decode_struct_def enc_CacheControl_def decode_members_append cache_ok_def zeroCacheControl_def
      decode_string_field [where upd = "\<lambda>s c. c\<lparr>acc_Type := s\<rparr>"]
      decode_omit_string [where upd = "\<lambda>s c. c\<lparr>acc_TTL := s\<rparr>"] set_small_field names_unquoted)

lemma decode_enc_source: "source_ok s \<Longrightarrow> decode_struct ImageSource_fields zeroSource (enc_Source s) = Some s"
  by (simp add: decode_struct_def enc_Source_def decode_members_append source_ok_def zeroSource_def
      decode_string_field [where upd = "\<lambda>s c. c\<lparr>ais_Type := s\<rparr>"] decode_string_field [where upd = "\<lambda>s c. c\<lparr>ais_MediaType := s\<rparr>"]
      decode_string_field [where upd = "\<lambda>s c. c\<lparr>ais_Data := s\<rparr>"] set_small_field names_unquoted)

lemma enc_not_null: "enc_CacheControl c \<noteq> JNull" "enc_Source s \<noteq> JNull"
  by (simp_all add: enc_CacheControl_def enc_Source_def)

lemma decode_omit_cache:
  "(\<And>c. p = Some c \<Longrightarrow> cache_ok c) \<Longrightarrow> acb_CacheControl b = None \<Longrightarrow>
     decode_members AnthropicContentBlock_fields (omit_pointer ''cache_control'' enc_CacheControl p) b = Some (b\<lparr>acb_CacheControl := p\<rparr>)"
  by (cases p) (simp_all add: omit_pointer_def names_unquoted set_block_field pointer_into_def enc_not_null decode_enc_cache)

lemma decode_omit_source:
  "(\<And>c. p = Some c \<Longrightarrow> source_ok c) \<Longrightarrow> acb_Source b = None \<Longrightarrow>
     decode_members AnthropicContentBlock_fields (omit_pointer ''source'' enc_Source p) b = Some (b\<lparr>acb_Source := p\<rparr>)"
  by (cases p) (simp_all add: omit_pointer_def names_unquoted set_block_field pointer_into_def enc_not_null decode_enc_source)

lemmas decode_block_string =
  decode_string_field [where fs = AnthropicContentBlock_fields and upd = "\<lambda>s b. b\<lparr>acb_Type := s\<rparr>"]
  decode_string_field [where fs = AnthropicContentBlock_fields and upd = "\<lambda>s b. b\<lparr>acb_Text := s\<rparr>"]
  decode_string_field [where fs = AnthropicContentBlock_fields and upd = "\<lambda>s b. b\<lparr>acb_Thinking := s\<rparr>"]
  decode_string_field [where fs = AnthropicContentBlock_fields and upd = "\<lambda>s b. b\<lparr>acb_Signature := s\<rparr>"]
  decode_omit_string [where fs = AnthropicContentBlock_fields and upd = "\<lambda>s b. b\<lparr>acb_Text := s\<rparr>"]
  decode_omit_string [where fs = AnthropicContentBlock_fields and upd = "\<lambda>s b. b\<lparr>acb_Thinking := s\<rparr>"]
  decode_omit_string [where fs = AnthropicContentBlock_fields and upd = "\<lambda>s b. b\<lparr>acb_Signature := s\<rparr>"]
  decode_omit_string [where fs = AnthropicContentBlock_fields and upd = "\<lambda>s b. b\<lparr>acb_Data := s\<rparr>"]
  decode_omit_string [where fs = AnthropicContentBlock_fields and upd = "\<lambda>s b. b\<lparr>acb_ID := s\<rparr>"]
  decode_omit_string [where fs = AnthropicContentBlock_fields and upd = "\<lambda>s b. b\<lparr>acb_Name := s\<rparr>"]
  decode_omit_string [where fs = AnthropicContentBlock_fields and upd = "\<lambda>s b. b\<lparr>acb_ToolUseID := s\<rparr>"]
  decode_omit_bool [where fs = AnthropicContentBlock_fields and upd = "\<lambda>e b. b\<lparr>acb_IsError := e\<rparr>"]

text \<open>The members of an encoded block are well formed and nest at most one level below the limit.\<close>

definition member_ok :: "string \<times> json \<Rightarrow> bool" where
  "member_ok m \<longleftrightarrow> body_ok (fst m) \<and> wf_json (snd m) \<and> json_depth (snd m) + 2 \<le> max_depth"

lemma members_ok:
  "body_ok n \<Longrightarrow> \<forall>m\<in>set (string_field n s). member_ok m"
  "body_ok n \<Longrightarrow> \<forall>m\<in>set (omit_string n s). member_ok m"
  "body_ok n \<Longrightarrow> \<forall>m\<in>set (omit_bool n e). member_ok m"
  "body_ok n \<Longrightarrow> \<forall>m\<in>set (omit_pointer n enc_CacheControl c). member_ok m"
  "body_ok n \<Longrightarrow> \<forall>m\<in>set (omit_pointer n enc_Source q). member_ok m"
  by (auto simp: string_field_def omit_string_def omit_bool_def omit_pointer_def member_ok_def max_depth_def enc_CacheControl_def
      enc_Source_def names_ok split: option.splits)

lemma types_valid: "valid_utf8 ''text''" "valid_utf8 ''thinking''" "valid_utf8 ''tool_use''" "valid_utf8 ''tool_result''"
  by code_simp+

lemma members_combine:
  "(P \<Longrightarrow> \<forall>m\<in>set A. Q m) \<Longrightarrow> (\<not> P \<Longrightarrow> \<forall>m\<in>set B. Q m) \<Longrightarrow> \<forall>m\<in>set (if P then A else B). Q m"
  "\<forall>m\<in>set A. Q m \<Longrightarrow> \<forall>m\<in>set B. Q m \<Longrightarrow> \<forall>m\<in>set (A @ B). Q m"
  "\<forall>m\<in>set []. Q m"
  by auto

lemma JObj_ok:
  assumes "\<forall>m\<in>set ms. member_ok m"
  shows "wf_json (JObj ms)" "json_depth (JObj ms) + 1 \<le> max_depth"
proof -
  have "\<forall>m\<in>set ms. json_depth (snd m) \<le> max_depth - 2" using assms by (auto simp: member_ok_def)
  then have "Max (insert 0 (set (map (\<lambda>kv. json_depth (snd kv)) ms))) \<le> max_depth - 2" by (subst Max_le_iff) auto
  then show "json_depth (JObj ms) + 1 \<le> max_depth" by (simp add: max_depth_def)
qed (use assms in \<open>auto simp: member_ok_def\<close>)

lemma encode_block:
  assumes ok: "block_ok b"
  obtains v where "AnthropicContentBlock_MarshalJSON b = Some v" "wf_json v" "json_depth v + 1 \<le> max_depth"
    "decode_struct AnthropicContentBlock_fields zeroBlock v = Some (canon b)"
proof -
  from ok have "raw_ok (acb_Input b)" "raw_ok (acb_Content b)" by (simp_all add: block_ok_iff)
  note raws = this
  obtain i where i: "omit_raw ''input'' (acb_Input b) = Some i"
      "\<And>fs upd (b'::AnthropicContentBlock). set_field fs (unquote ''input'') = raw_into upd \<Longrightarrow> upd [] b' = b' \<Longrightarrow>
        decode_members fs i b' = Some (upd (compacted (acb_Input b)) b')"
      "\<forall>m\<in>set i. fst m = ''input'' \<and> wf_json (snd m) \<and> json_depth (snd m) + 2 \<le> max_depth"
    by (rule omit_raw_ok [OF raws(1), where n = "''input''"]) (rule that)
  obtain c where c: "omit_raw ''content'' (acb_Content b) = Some c"
      "\<And>fs upd (b'::AnthropicContentBlock). set_field fs (unquote ''content'') = raw_into upd \<Longrightarrow> upd [] b' = b' \<Longrightarrow>
        decode_members fs c b' = Some (upd (compacted (acb_Content b)) b')"
      "\<forall>m\<in>set c. fst m = ''content'' \<and> wf_json (snd m) \<and> json_depth (snd m) + 2 \<le> max_depth"
    by (rule omit_raw_ok [OF raws(2), where n = "''content''"]) (rule that)
  define head where "head = (if acb_Type b = ''text'' then string_field ''text'' (acb_Text b)
                  else if acb_Type b = ''thinking''
                  then string_field ''thinking'' (acb_Thinking b) @ string_field ''signature'' (acb_Signature b)
                  else [])"
  define tx where "tx = (if acb_Type b = ''text'' then [] else omit_string ''text'' (acb_Text b))"
  define thinking where "thinking = (if acb_Type b = ''thinking'' then []
                      else omit_string ''thinking'' (acb_Thinking b) @ omit_string ''signature'' (acb_Signature b))"
  define ms where "ms = head @ string_field ''type'' (acb_Type b)
            @ omit_pointer ''cache_control'' enc_CacheControl (acb_CacheControl b) @ tx @ thinking
            @ omit_string ''data'' (acb_Data b) @ omit_pointer ''source'' enc_Source (acb_Source b)
            @ omit_string ''id'' (acb_ID b) @ omit_string ''name'' (acb_Name b) @ i
            @ omit_string ''tool_use_id'' (acb_ToolUseID b) @ c @ omit_bool ''is_error'' (acb_IsError b)"
  have "\<forall>m\<in>set i. member_ok m" "\<forall>m\<in>set c. member_ok m" using i(3) c(3) by (simp_all add: member_ok_def names_ok)
  moreover have "\<forall>m\<in>set head. member_ok m" "\<forall>m\<in>set tx. member_ok m" "\<forall>m\<in>set thinking. member_ok m"
    unfolding head_def tx_def thinking_def
    by (intro members_combine members_ok names_ok)+
  ultimately have "\<forall>m\<in>set ms. member_ok m"
    unfolding ms_def by (intro members_combine members_ok names_ok)
  note JObj_ok [OF this]
  moreover from this have "AnthropicContentBlock_MarshalJSON b = Some (JObj ms)"
    by (simp add: AnthropicContentBlock_MarshalJSON_def Let_def i(1) c(1) checked_def ms_def head_def tx_def thinking_def)
  moreover have "decode_struct AnthropicContentBlock_fields zeroBlock (JObj ms) = Some (canon b)"
    using ok unfolding decode_struct_def ms_def head_def tx_def thinking_def
    by (cases b) (simp add: block_ok_iff decode_members_append decode_block_string decode_omit_cache decode_omit_source i(2) c(2)
      names_unquoted set_block_field zeroBlock_def canon_def types_valid del: valid_utf8.simps(2))
  ultimately show ?thesis using that by blast
qed

theorem blocks_roundtrip:
  assumes "\<forall>b\<in>set bs. block_ok b"
  shows "\<exists>raw. Marshal_blocks (Some bs) = Some raw \<and> Unmarshal_blocks raw = Some (Some (map canon bs))"
proof -
  have "\<exists>v. AnthropicContentBlock_MarshalJSON b = Some v \<and> wf_json v \<and> json_depth v + 1 \<le> max_depth
      \<and> decode_struct AnthropicContentBlock_fields zeroBlock v = Some (canon b)" if "b \<in> set bs" for b
    using assms that by (blast elim: encode_block)
  then obtain f where f: "\<And>b. b \<in> set bs \<Longrightarrow> AnthropicContentBlock_MarshalJSON b = Some (f b) \<and> wf_json (f b)
      \<and> json_depth (f b) + 1 \<le> max_depth \<and> decode_struct AnthropicContentBlock_fields zeroBlock (f b) = Some (canon b)"
    by metis
  let ?v = "JArr (map f bs)"
  have "\<forall>b\<in>set bs. json_depth (f b) \<le> max_depth - 1" using f by fastforce
  then have "Max (insert 0 (set (map json_depth (map f bs)))) \<le> max_depth - 1" by (subst Max_le_iff) auto
  then have "json_depth ?v \<le> max_depth" by (simp add: max_depth_def)
  moreover have "wf_json ?v" using f by simp
  ultimately have "parse_json (print_json ?v) = Some ?v" by (simp only: parse_print)
  moreover have "those (map (decode_struct AnthropicContentBlock_fields zeroBlock) (map f bs)) = Some (map canon bs)"
    using those_map_Some [of bs "decode_struct AnthropicContentBlock_fields zeroBlock \<circ> f" canon] f by simp
  moreover have "those (map AnthropicContentBlock_MarshalJSON bs) = Some (map f bs)"
    using f by (intro those_map_Some) simp
  ultimately show ?thesis
    by (simp add: Marshal_blocks_def Marshal_slice_def Unmarshal_blocks_def Unmarshal_slice_def decode_slice_def del: print_json.simps)
qed

lemma canon_sel [simp]: "acb_Type (canon b) = acb_Type b" "acb_ID (canon b) = acb_ID b" "acb_ToolUseID (canon b) = acb_ToolUseID b"
  "acb_Text (canon b) = acb_Text b" "acb_Thinking (canon b) = acb_Thinking b" "acb_Signature (canon b) = acb_Signature b"
  "acb_Data (canon b) = acb_Data b" "acb_Source (canon b) = acb_Source b" "acb_Name (canon b) = acb_Name b"
  by (simp_all add: canon_def)

lemma compacted_ok: "raw_ok raw \<Longrightarrow> raw_ok (compacted raw)"
proof (cases "raw = []")
  case False
  assume "raw_ok raw"
  with False obtain v where v: "parse_json raw = Some v" "json_depth v + 2 \<le> max_depth" by (auto simp: raw_ok_def)
  then have "parse_json (print_json (compact_json v)) = Some (compact_json v)"
    using parse_wf [OF v(1)] by (intro parse_print) (simp_all add: wf_compact depth_compact)
  with v show ?thesis by (simp add: compacted_def raw_ok_def depth_compact)
qed simp

lemma canon_ok: "block_ok b \<Longrightarrow> block_ok (canon b)"
  by (auto simp: block_ok_iff compacted_ok) (simp_all add: canon_def compacted_ok)

end
