(* ===== verification/GoBase64.thy ===== *)
theory GoBase64
  imports GoJsonStrings
begin

text \<open>
  \<open>base64.RawStdEncoding.DecodeString\<close>: line breaks are skipped, any other character outside the alphabet (the padding
  character included) is an error, and so is a last group of one character.  It inverts the encoder.
\<close>

definition b64_value :: "char \<Rightarrow> nat option" where
  "b64_value c =
     (if between 65 90 c then Some (byte c - 65)
      else if between 97 122 c then Some (byte c - 71)
      else if between 48 57 c then Some (byte c + 4)
      else if c = CHR ''+'' then Some 62 else if c = CHR ''/'' then Some 63 else None)"

fun b64_groups :: "nat list \<Rightarrow> string option" where
  "b64_groups [] = Some []"
| "b64_groups [a] = None"
| "b64_groups [a, b] = Some [mkbyte (a * 4 + b div 16)]"
| "b64_groups [a, b, c] = Some [mkbyte (a * 4 + b div 16), mkbyte ((b mod 16) * 16 + c div 4)]"
| "b64_groups (a # b # c # d # r) = map_option (\<lambda>s. mkbyte (a * 4 + b div 16) # mkbyte ((b mod 16) * 16 + c div 4)
     # mkbyte ((c mod 4) * 64 + d) # s) (b64_groups r)"

definition b64_decode :: "string \<Rightarrow> string option" where
  "b64_decode s = (case those (map b64_value (filter (\<lambda>c. c \<noteq> CHR 0x0A \<and> c \<noteq> CHR 0x0D) s)) of
     None \<Rightarrow> None | Some ns \<Rightarrow> b64_groups ns)"

lemma b64_value_digit: "b64_value (b64_digit n) = Some (n mod 64)" "b64_digit n \<noteq> CHR 0x0A" "b64_digit n \<noteq> CHR 0x0D"
proof -
  define t where "t = ''ABCDEFGHIJKLMNOPQRSTUVWXYZabcdefghijklmnopqrstuvwxyz0123456789+/''"
  have m: "map b64_value t = map Some [0..<64]" unfolding t_def by code_simp
  then have l: "length t = 64" by (metis length_map length_upt diff_zero)
  have "b64_value (t ! (n mod 64)) = map b64_value t ! (n mod 64)" by (rule nth_map [symmetric]) (simp add: l)
  also have "\<dots> = Some (n mod 64)" unfolding m by (subst nth_map) simp_all
  finally have "b64_value (t ! (n mod 64)) = Some (n mod 64)" .
  then show "b64_value (b64_digit n) = Some (n mod 64)" unfolding b64_digit_def t_def .
  moreover have "b64_value (CHR 0x0A) = None" "b64_value (CHR 0x0D) = None" by (simp_all add: b64_value_def between_def byte_def)
  ultimately show "b64_digit n \<noteq> CHR 0x0A" "b64_digit n \<noteq> CHR 0x0D" by auto
qed

text \<open>The six-bit groups the encoder writes.\<close>

fun b64_nums :: "string \<Rightarrow> nat list" where
  "b64_nums [] = []"
| "b64_nums [a] = [byte a div 4, (byte a * 16) mod 64]"
| "b64_nums [a, b] = [byte a div 4, (byte a * 16 + byte b div 16) mod 64, (byte b * 4) mod 64]"
| "b64_nums (a # b # c # cs) = [byte a div 4, (byte a * 16 + byte b div 16) mod 64, (byte b * 4 + byte c div 64) mod 64, byte c mod 64] @ b64_nums cs"

lemma byte_256: "byte c < 256"
  by (simp add: byte_def)

lemma bits_16: "q < 4 \<Longrightarrow> t < 16 \<Longrightarrow> ((4 * p + q) * 16 + t) mod 64 = 16 * q + (t::nat)"
proof -
  assume "q < 4" "t < 16"
  then have "16 * q + t < 64" by linarith
  moreover have e: "(4 * p + q) * 16 + t = 16 * q + t + 64 * p" by simp
  ultimately show ?thesis unfolding e mod_mult_self2 by simp
qed

lemma bits_4: "s < 16 \<Longrightarrow> u < 4 \<Longrightarrow> ((16 * r + s) * 4 + u) mod 64 = 4 * s + (u::nat)"
proof -
  assume "s < 16" "u < 4"
  then have "4 * s + u < 64" by linarith
  moreover have e: "(16 * r + s) * 4 + u = 4 * s + u + 64 * r" by simp
  ultimately show ?thesis unfolding e mod_mult_self2 by simp
qed

text \<open>A byte, cut after two or after four of its bits.\<close>

lemma bits_first:
  assumes "x < 256" "t < 16"
  shows "(x div 4) * 4 + (x * 16 + t) mod 64 div 16 = (x::nat)" "(x * 16 + t) mod 64 mod 16 = t"
proof -
  have "(x * 16 + t) mod 64 = 16 * (x mod 4) + t"
    using bits_16 [of "x mod 4" t "x div 4"] assms(2) by simp
  then show "(x div 4) * 4 + (x * 16 + t) mod 64 div 16 = x" "(x * 16 + t) mod 64 mod 16 = t"
    using assms(2) by simp_all
qed

lemma bits_second:
  assumes "y < 256" "u < 4"
  shows "(y div 16) * 16 + (y * 4 + u) mod 64 div 4 = (y::nat)" "(y * 4 + u) mod 64 mod 4 = u" "y div 16 < 16"
proof -
  have "(y * 4 + u) mod 64 = 4 * (y mod 16) + u"
    using bits_4 [of "y mod 16" u "y div 16"] assms(2) by simp
  then show "(y div 16) * 16 + (y * 4 + u) mod 64 div 4 = y" "(y * 4 + u) mod 64 mod 4 = u"
    using assms(2) by simp_all
  show "y div 16 < 16" using assms(1) by simp
qed

lemma bits_third: "z < 256 \<Longrightarrow> (z div 64) * 64 + z mod 64 = (z::nat)" "z < 256 \<Longrightarrow> z div 64 < 4"
  by simp_all

lemma groups_nums: "b64_groups (b64_nums s) = Some s"
proof (induction s rule: b64_nums.induct)
  case (2 a)
  show ?case using bits_first(1) [OF byte_256, of 0 a] by simp
next
  case (3 a b)
  note 1 = bits_second [OF byte_256 [of b], of 0]
  with bits_first [OF byte_256 [of a], of "byte b div 16"] show ?case by simp
next
  case (4 a b c cs)
  note 1 = bits_third [OF byte_256 [of c]]
  note 2 = bits_second [OF byte_256 [of b] 1(2)]
  from 4 1 2 bits_first [OF byte_256 [of a] 2(3)] show ?case by simp
qed simp

lemma values_encode: "those (map b64_value (b64_encode s)) = Some (b64_nums s)"
proof (induction s rule: b64_nums.induct)
  case (2 a)
  have "byte a div 4 < 64" using byte_256 [of a] by simp
  then show ?case by (simp add: b64_value_digit)
next
  case (3 a b)
  have "byte a div 4 < 64" using byte_256 [of a] by simp
  then show ?case by (simp add: b64_value_digit)
next
  case (4 a b c cs)
  have "byte a div 4 < 64" using byte_256 [of a] by simp
  with 4 show ?case by (simp add: b64_value_digit)
qed simp

lemma filter_encode: "filter (\<lambda>c. c \<noteq> CHR 0x0A \<and> c \<noteq> CHR 0x0D) (b64_encode s) = b64_encode s"
  by (induction s rule: b64_encode.induct) (simp_all add: b64_value_digit)

theorem b64_roundtrip: "b64_decode (b64_encode s) = Some s"
  by (simp add: b64_decode_def filter_encode values_encode groups_nums)

end
