(* ===== verification/ResponsesToAnthropicRequest.thy ===== *)
theory ResponsesToAnthropicRequest
  imports RequestTypes GoBase64 AnthropicToolSchema ClaudeModels AnthropicToResponses Complex_Main
begin

text \<open>
  Requests from Responses to Anthropic (\<open>responses_to_anthropic_request.go\<close>,
  \<open>responses_to_anthropic_tool_schema.go\<close>): the input items become messages, tool calls are paired with
  their results, and the tools, the tool choice and the reasoning effort are translated.

  The value of a float64 is a rational number.  A Go error is a value of \<open>request_error\<close>.
\<close>

declare unquote.simps [simp del]

section \<open>Requests\<close>

record AnthropicThinking =
  ath_Type :: string
  ath_BudgetTokens :: int

record AnthropicOutputConfig =
  aoc_Effort :: string

record AnthropicRequest =
  aq_Model :: string
  aq_MaxTokens :: int
  aq_System :: string
  aq_Messages :: "AnthropicMessage list"
  aq_Tools :: "AnthropicTool list"
  aq_Stream :: bool
  aq_Temperature :: "rat option"
  aq_TopP :: "rat option"
  aq_StopSeqs :: "string list"
  aq_Thinking :: "AnthropicThinking option"
  aq_ToolChoice :: string
  aq_Metadata :: string
  aq_OutputConfig :: "AnthropicOutputConfig option"

record ResponsesReasoning =
  rre_Effort :: string
  rre_Summary :: string

record ResponsesText =
  rtx_Format :: string
  rtx_Verbosity :: string

record ResponsesRequest =
  rq_PromptCacheOptions :: string
  rq_Model :: string
  rq_Instructions :: string
  rq_Input :: string
  rq_MaxOutputTokens :: "int option"
  rq_Temperature :: "rat option"
  rq_TopP :: "rat option"
  rq_Stream :: bool
  rq_Tools :: "ResponsesTool list"
  rq_Include :: "string list"
  rq_Store :: "bool option"
  rq_ParallelToolCalls :: "bool option"
  rq_Reasoning :: "ResponsesReasoning option"
  rq_Text :: "ResponsesText option"
  rq_ToolChoice :: string
  rq_ServiceTier :: string
  rq_PromptCacheKey :: string
  rq_PreviousResponseID :: string

datatype request_error =
    ParseInput
  | InvalidEnvelope
  | InvalidThinkingBlock
  | InvalidSignedBlock
  | MarshalContent
  | ConvertToolChoice
  | InvalidToolChoice
  | ForcedToolChoice string
  | NonDefaultTemperature string
  | NonDefaultTopP string
  | TemperatureAndTopP
  | UnsupportedEffort string string

section \<open>Message content\<close>

definition text_block :: "string \<Rightarrow> AnthropicContentBlock" where
  "text_block t = zeroBlock\<lparr>acb_Type := ''text'', acb_Text := t\<rparr>"

definition extractTextFromContent :: "string \<Rightarrow> string" where
  "extractTextFromContent raw =
     (if raw = [] then []
      else case Unmarshal_string raw of Some s \<Rightarrow> s
      | None \<Rightarrow> (case Unmarshal_parts raw of None \<Rightarrow> []
        | Some ps \<Rightarrow> Join (map rcp_Text (filter (\<lambda>p. (rcp_Type p = ''input_text'' \<or> rcp_Type p = ''output_text''
              \<or> rcp_Type p = ''text'') \<and> rcp_Text p \<noteq> []) (case ps of None \<Rightarrow> [] | Some l \<Rightarrow> l)))
            [CHR 0x0A, CHR 0x0A]))"

definition parseContentBlocks :: "string \<Rightarrow> AnthropicContentBlock list option" where
  \<comment> \<open>\<open>None\<close> is the nil slice\<close>
  "parseContentBlocks raw = (case Unmarshal_blocks raw of Some bs \<Rightarrow> bs
     | None \<Rightarrow> (case Unmarshal_string raw of Some s \<Rightarrow> Some [text_block s] | None \<Rightarrow> None))"

definition blocks_in :: "AnthropicContentBlock list option \<Rightarrow> AnthropicContentBlock list" where
  \<comment> \<open>what \<open>range\<close> sees of a slice\<close>
  "blocks_in bs = (case bs of None \<Rightarrow> [] | Some l \<Rightarrow> l)"

definition anthropicContentIsEmpty :: "string \<Rightarrow> bool" where
  "anthropicContentIsEmpty content \<longleftrightarrow> TrimSpace content \<in> {[], ''null'', [dquote, dquote], ''[]''}"

definition anthropicContentIsOnlyBlankText :: "string \<Rightarrow> bool" where
  "anthropicContentIsOnlyBlankText content =
     (let blocks = blocks_in (parseContentBlocks content) in
      blocks \<noteq> [] \<and> list_all (\<lambda>b. acb_Type b = ''text'' \<and> TrimSpace (acb_Text b) = []) blocks)"

definition dataURIToAnthropicImageSource :: "string \<Rightarrow> AnthropicImageSource option" where
  "dataURIToAnthropicImageSource dataURI =
     (if \<not> HasPrefix dataURI ''data:'' then None
      else let rest = TrimPrefix dataURI ''data:'' in
        case IndexByte rest (CHR '';'') of None \<Rightarrow> None
        | Some semicolonIdx \<Rightarrow>
          let mediaType = take semicolonIdx rest; rest = drop (semicolonIdx + 1) rest in
          if \<not> HasPrefix rest ''base64,'' then None
          else Some \<lparr>ais_Type = ''base64'', ais_MediaType = mediaType, ais_Data = TrimPrefix rest ''base64,''\<rparr>)"

definition dataURIToAnthropicFileSource :: "string \<Rightarrow> AnthropicImageSource option" where
  "dataURIToAnthropicFileSource fileData = dataURIToAnthropicImageSource fileData"

definition source_block :: "string \<Rightarrow> AnthropicImageSource option \<Rightarrow> AnthropicContentBlock list" where
  "source_block typ src = (case src of None \<Rightarrow> [] | Some s \<Rightarrow> [zeroBlock\<lparr>acb_Type := typ, acb_Source := Some s\<rparr>])"

definition text_blocks :: "string \<Rightarrow> AnthropicContentBlock list" where
  "text_blocks t = (if t \<noteq> [] then [text_block t] else [])"

definition user_part :: "ResponsesContentPart \<Rightarrow> AnthropicContentBlock list" where
  "user_part p =
     (if rcp_Type p = ''input_text'' \<or> rcp_Type p = ''text'' then text_blocks (rcp_Text p)
      else if rcp_Type p = ''input_image'' then source_block ''image'' (dataURIToAnthropicImageSource (rcp_ImageURL p))
      else if rcp_Type p = ''input_file'' then source_block ''document'' (dataURIToAnthropicFileSource (rcp_FileData p))
      else [])"

definition parts_in :: "ResponsesContentPart list option \<Rightarrow> ResponsesContentPart list" where
  "parts_in ps = (case ps of None \<Rightarrow> [] | Some l \<Rightarrow> l)"

definition marshalled :: "AnthropicContentBlock list \<Rightarrow> request_error + string" where
  \<comment> \<open>\<open>return json.Marshal(blocks)\<close>\<close>
  "marshalled bs = (case Marshal_blocks (Some bs) of None \<Rightarrow> Inl MarshalContent | Some raw \<Rightarrow> Inr raw)"

definition convertResponsesUserToAnthropicContent :: "string \<Rightarrow> request_error + string" where
  "convertResponsesUserToAnthropicContent raw =
     (if raw = [] then Inr (Marshal_string [])
      else case Unmarshal_string raw of Some s \<Rightarrow> Inr (Marshal_string s)
      | None \<Rightarrow> (case Unmarshal_parts raw of None \<Rightarrow> Inr raw
        | Some ps \<Rightarrow> (let blocks = concat (map user_part (parts_in ps)) in
            if blocks = [] then Inr (Marshal_string []) else marshalled blocks)))"

definition assistant_part :: "ResponsesContentPart \<Rightarrow> AnthropicContentBlock list" where
  "assistant_part p = (if rcp_Type p = ''output_text'' \<or> rcp_Type p = ''text'' then text_blocks (rcp_Text p) else [])"

definition convertResponsesAssistantToAnthropicContent :: "string \<Rightarrow> request_error + string" where
  "convertResponsesAssistantToAnthropicContent raw =
     (if raw = [] then marshalled [text_block []]
      else case Unmarshal_string raw of Some s \<Rightarrow> marshalled [text_block s]
      | None \<Rightarrow> (case Unmarshal_parts raw of None \<Rightarrow> Inr raw
        | Some ps \<Rightarrow> (let blocks = concat (map assistant_part (parts_in ps)) in
            marshalled (if blocks = [] then [text_block []] else blocks))))"

definition fromResponsesCallIDToAnthropic :: "string \<Rightarrow> string" where
  "fromResponsesCallIDToAnthropic callID =
     (case CutPrefix callID ''fc_'' of (after, ok) \<Rightarrow>
       if ok \<and> (HasPrefix after ''toolu_'' \<or> HasPrefix after ''call_'') then after
       else if \<not> HasPrefix callID ''toolu_'' \<and> \<not> HasPrefix callID ''call_'' then ''toolu_'' @ callID
       else callID)"

definition output_part :: "ResponsesContentPart \<Rightarrow> AnthropicContentBlock list" where
  "output_part p =
     (if rcp_Type p = ''input_text'' \<or> rcp_Type p = ''output_text'' \<or> rcp_Type p = ''text'' then text_blocks (rcp_Text p)
      else if rcp_Type p = ''input_image'' then source_block ''image'' (dataURIToAnthropicImageSource (rcp_ImageURL p))
      else [])"

definition ignore_error :: "string option \<Rightarrow> string" where
  \<comment> \<open>\<open>content, _ := json.Marshal(...)\<close>: nil when it fails\<close>
  "ignore_error r = (case r of None \<Rightarrow> [] | Some raw \<Rightarrow> raw)"

definition responsesFunctionOutputToAnthropicContent :: "ResponsesInputItem \<Rightarrow> string" where
  "responsesFunctionOutputToAnthropicContent item =
     (if ri_outputRaw item = [] then Marshal_string (if ri_Output item = [] then ''(empty)'' else ri_Output item)
      else case Unmarshal_parts (ri_outputRaw item) of
        None \<Rightarrow> Marshal_string (ri_Output item)
      | Some ps \<Rightarrow>
          let blocks = concat (map output_part (parts_in ps)) in
          if blocks \<noteq> [] then ignore_error (Marshal_blocks (Some blocks))
          else if parts_in ps = [] then Marshal_string ''(empty)''
          else Marshal_string (ri_Output item))"

section \<open>Tool calls and their results\<close>

definition append_slices :: "'a list option \<Rightarrow> 'a list option \<Rightarrow> 'a list option" where
  \<comment> \<open>\<open>append(a, b...)\<close>: nil only if \<open>a\<close> is nil and \<open>b\<close> has no element\<close>
  "append_slices a b = (case a of
     Some xs \<Rightarrow> Some (xs @ (case b of None \<Rightarrow> [] | Some ys \<Rightarrow> ys))
   | None \<Rightarrow> (case b of None \<Rightarrow> None | Some ys \<Rightarrow> if ys = [] then None else Some ys))"

definition merge_into :: "AnthropicMessage \<Rightarrow> AnthropicMessage \<Rightarrow> AnthropicMessage" where
  "merge_into prev msg =
     prev\<lparr>am_Content := ignore_error (Marshal_blocks
        (append_slices (parseContentBlocks (am_Content prev)) (parseContentBlocks (am_Content msg))))\<rparr>"

fun merge_loop :: "AnthropicMessage list \<Rightarrow> AnthropicMessage list \<Rightarrow> AnthropicMessage list" where
  \<comment> \<open>\<open>merged\<close> in reverse: its last message first\<close>
  "merge_loop merged [] = rev merged"
| "merge_loop merged (msg # msgs) =
     (case merged of
        [] \<Rightarrow> merge_loop [msg] msgs
      | prev # rest \<Rightarrow>
          if am_Role prev \<noteq> am_Role msg then merge_loop (msg # merged) msgs
          else merge_loop (merge_into prev msg # rest) msgs)"

definition mergeConsecutiveMessages :: "AnthropicMessage list \<Rightarrow> AnthropicMessage list" where
  "mergeConsecutiveMessages messages = (if length messages \<le> 1 then messages else merge_loop [] messages)"

definition anthropicMessageFromBlocks :: "string \<Rightarrow> AnthropicContentBlock list \<Rightarrow> AnthropicMessage" where
  "anthropicMessageFromBlocks role blocks =
     \<lparr>am_Role = role, am_Content = ignore_error (Marshal_blocks (Some blocks))\<rparr>"

definition blocks_of :: "AnthropicMessage \<Rightarrow> AnthropicContentBlock list" where
  "blocks_of m = blocks_in (parseContentBlocks (am_Content m))"

definition tool_results :: "AnthropicMessage list \<Rightarrow> (string \<rightharpoonup> AnthropicContentBlock)" where
  \<comment> \<open>the index of results: the last one wins\<close>
  "tool_results messages = foldl (\<lambda>results b. results(acb_ToolUseID b \<mapsto> b)) Map.empty
     (filter (\<lambda>b. acb_Type b = ''tool_result'' \<and> acb_ToolUseID b \<noteq> [])
       (concat (map blocks_of (filter (\<lambda>m. am_Role m = ''user'') messages))))"

definition is_tool_use :: "AnthropicContentBlock \<Rightarrow> bool" where
  "is_tool_use b \<longleftrightarrow> acb_Type b = ''tool_use''"

definition is_tool_result :: "AnthropicContentBlock \<Rightarrow> bool" where
  "is_tool_result b \<longleftrightarrow> acb_Type b = ''tool_result''"

definition pair_assistant :: "(string \<rightharpoonup> AnthropicContentBlock) \<Rightarrow> AnthropicMessage \<Rightarrow> AnthropicMessage list" where
  "pair_assistant results m =
     (let toolUses = filter is_tool_use (blocks_of m); others = filter (\<lambda>b. \<not> is_tool_use b) (blocks_of m) in
      if toolUses = [] then [m]
      else let kept = filter (\<lambda>tu. results (acb_ID tu) \<noteq> None) toolUses in
        if kept = [] then (if others \<noteq> [] then [anthropicMessageFromBlocks ''assistant'' others] else [])
        else [anthropicMessageFromBlocks ''assistant'' (others @ kept),
              anthropicMessageFromBlocks ''user'' (map (\<lambda>tu. the (results (acb_ID tu))) kept)])"

definition pair_user :: "AnthropicMessage \<Rightarrow> AnthropicMessage list" where
  "pair_user m =
     (let nonResult = filter (\<lambda>b. \<not> is_tool_result b) (blocks_of m) in
      if \<not> (\<exists>b\<in>set (blocks_of m). is_tool_result b) then [m]
      else if nonResult \<noteq> [] then [anthropicMessageFromBlocks ''user'' nonResult] else [])"

definition normalizeAnthropicToolPairing :: "AnthropicMessage list \<Rightarrow> AnthropicMessage list" where
  "normalizeAnthropicToolPairing messages =
     (let results = tool_results messages in
      concat (map (\<lambda>m. if am_Role m = ''assistant'' then pair_assistant results m
                       else if am_Role m = ''user'' then pair_user m else [m]) messages))"

definition repair_turns :: "AnthropicMessage list \<Rightarrow> AnthropicMessage list" where
  \<comment> \<open>the three passes at the end of \<open>convertResponsesInputToAnthropic\<close>\<close>
  "repair_turns messages =
     mergeConsecutiveMessages (normalizeAnthropicToolPairing (mergeConsecutiveMessages messages))"

section \<open>Input items\<close>

definition only_block :: "AnthropicContentBlock \<Rightarrow> string" where
  "only_block b = ignore_error (Marshal_blocks (Some [b]))"

definition function_call_message :: "ResponsesInputItem \<Rightarrow> AnthropicMessage" where
  "function_call_message item =
     \<lparr>am_Role = ''assistant'', am_Content = only_block (zeroBlock\<lparr>acb_Type := ''tool_use'',
        acb_ID := fromResponsesCallIDToAnthropic (ri_CallID item), acb_Name := ri_Name item,
        acb_Input := (if ri_Arguments item \<noteq> [] then ri_Arguments item else ''{}'')\<rparr>)\<rparr>"

definition function_output_message :: "ResponsesInputItem \<Rightarrow> AnthropicMessage" where
  "function_output_message item =
     \<lparr>am_Role = ''user'', am_Content = only_block (zeroBlock\<lparr>acb_Type := ''tool_result'',
        acb_ToolUseID := fromResponsesCallIDToAnthropic (ri_CallID item),
        acb_Content := responsesFunctionOutputToAnthropicContent item\<rparr>)\<rparr>"

definition reasoning_message :: "bool \<Rightarrow> ResponsesInputItem \<Rightarrow> request_error + AnthropicMessage list" where
  "reasoning_message preserveThinking item =
     (if \<not> (preserveThinking \<and> HasPrefix (ri_EncryptedContent item) anthropicThinkingEnvelopePrefix) then Inr []
      else case b64_decode (TrimPrefix (ri_EncryptedContent item) anthropicThinkingEnvelopePrefix) of
        None \<Rightarrow> Inl InvalidEnvelope
      | Some raw \<Rightarrow> (case Unmarshal_struct AnthropicContentBlock_fields zeroBlock raw of
          None \<Rightarrow> Inl InvalidThinkingBlock
        | Some block \<Rightarrow>
          if (acb_Type block \<noteq> ''thinking'' \<or> acb_Signature block = [])
             \<and> (acb_Type block \<noteq> ''redacted_thinking'' \<or> acb_Data block = [])
          then Inl InvalidSignedBlock
          else (case Marshal_blocks (Some [block]) of None \<Rightarrow> Inl MarshalContent
            | Some content \<Rightarrow> Inr [\<lparr>am_Role = ''assistant'', am_Content = content\<rparr>])))"

definition user_message :: "string \<Rightarrow> request_error + AnthropicMessage list" where
  "user_message raw = (case convertResponsesUserToAnthropicContent raw of Inl e \<Rightarrow> Inl e
     | Inr content \<Rightarrow> if anthropicContentIsEmpty content then Inr []
         else Inr [\<lparr>am_Role = ''user'', am_Content = content\<rparr>])"

definition assistant_message :: "string \<Rightarrow> request_error + AnthropicMessage list" where
  "assistant_message raw = (case convertResponsesAssistantToAnthropicContent raw of Inl e \<Rightarrow> Inl e
     | Inr content \<Rightarrow> if anthropicContentIsEmpty content \<or> anthropicContentIsOnlyBlankText content then Inr []
         else Inr [\<lparr>am_Role = ''assistant'', am_Content = content\<rparr>])"

definition item_messages :: "bool \<Rightarrow> ResponsesInputItem \<Rightarrow> request_error + string list \<times> AnthropicMessage list" where
  \<comment> \<open>one iteration of the loop over the items: what it appends to \<open>systemParts\<close> and to \<open>messages\<close>\<close>
  "item_messages preserveThinking item =
     (if ri_Role item = ''system'' \<or> ri_Role item = ''developer'' then
        (let t = extractTextFromContent (ri_Content item) in Inr (if t \<noteq> [] then [t] else [], []))
      else if ri_Type item = ''function_call'' then Inr ([], [function_call_message item])
      else if ri_Type item = ''function_call_output'' then Inr ([], [function_output_message item])
      else if ri_Type item = ''reasoning'' then map_sum id (Pair []) (reasoning_message preserveThinking item)
      else if ri_Role item = ''user'' then map_sum id (Pair []) (user_message (ri_Content item))
      else if ri_Role item = ''assistant'' then map_sum id (Pair []) (assistant_message (ri_Content item))
      else if ri_Content item = [] then Inr ([], [])
      else map_sum id (Pair []) (user_message (ri_Content item)))"

fun convert_items :: "bool \<Rightarrow> ResponsesInputItem list \<Rightarrow> request_error + string list \<times> AnthropicMessage list" where
  "convert_items pt [] = Inr ([], [])"
| "convert_items pt (item # items) =
     (case item_messages pt item of Inl e \<Rightarrow> Inl e
      | Inr (sys, msgs) \<Rightarrow> (case convert_items pt items of Inl e \<Rightarrow> Inl e
        | Inr (sys', msgs') \<Rightarrow> Inr (sys @ sys', msgs @ msgs')))"

definition system_field :: "string list \<Rightarrow> string" where
  "system_field parts = (if parts \<noteq> [] then Marshal_string (Join parts [CHR 0x0A, CHR 0x0A]) else [])"

definition convertResponsesInputToAnthropic ::
    "string \<Rightarrow> string \<Rightarrow> bool \<Rightarrow> request_error + string \<times> AnthropicMessage list" where
  "convertResponsesInputToAnthropic instructions inputRaw preserveThinking =
     (let systemParts = (if TrimSpace instructions \<noteq> [] then [TrimSpace instructions] else []) in
      case Unmarshal_string inputRaw of
        Some inputStr \<Rightarrow> Inr (system_field systemParts, [\<lparr>am_Role = ''user'', am_Content = Marshal_string inputStr\<rparr>])
      | None \<Rightarrow> (case Unmarshal_items inputRaw of None \<Rightarrow> Inl ParseInput
        | Some items \<Rightarrow> (case convert_items preserveThinking items of Inl e \<Rightarrow> Inl e
          | Inr (parts, messages) \<Rightarrow> Inr (system_field (systemParts @ parts), repair_turns messages))))"

section \<open>Tool choice and effort\<close>

definition type_object :: "string \<Rightarrow> string" where
  \<comment> \<open>\<open>json.Marshal(map[string]string{"type": t})\<close>\<close>
  "type_object t = Marshal_object [(''type'', JStr (enc_string t))]"

record tool_choice =
  tc_Type :: string
  tc_Name :: string
  tc_Function :: string

definition function_fields :: "string field_table" where
  "function_fields = [(''name'', string_into (\<lambda>s _. s))]"

definition tool_choice_fields :: "tool_choice field_table" where
  "tool_choice_fields =
     [(''type'', string_into (\<lambda>s c. c\<lparr>tc_Type := s\<rparr>)), (''name'', string_into (\<lambda>s c. c\<lparr>tc_Name := s\<rparr>)),
      (''function'', struct_into function_fields tc_Function (\<lambda>n c. c\<lparr>tc_Function := n\<rparr>))]"

definition convertResponsesToAnthropicToolChoice :: "string \<Rightarrow> string" where
  \<comment> \<open>the function has no error branch: marshalling a map of strings does not fail\<close>
  "convertResponsesToAnthropicToolChoice raw =
     (case Unmarshal_string raw of
        Some s \<Rightarrow>
          if s = ''auto'' then type_object ''auto''
          else if s = ''required'' then type_object ''any''
          else if s = ''none'' then type_object ''none''
          else raw
      | None \<Rightarrow> (case Unmarshal_struct tool_choice_fields \<lparr>tc_Type = [], tc_Name = [], tc_Function = []\<rparr> raw of
          None \<Rightarrow> raw
        | Some tc \<Rightarrow>
          if tc_Type tc = ''function'' then
            (let name = TrimSpace (tc_Name tc); name = (if name = [] then TrimSpace (tc_Function tc) else name)
             in if name = [] then raw
                else Marshal_object [(''type'', JStr (enc_string ''tool'')), (''name'', JStr (enc_string name))])
          else raw))"

definition defaultThinkingBudget :: "string \<Rightarrow> int" where
  "defaultThinkingBudget effort =
     (if effort = ''low'' then 1024 else if effort = ''medium'' then 4096
      else if effort = ''high'' then 10240 else if effort = ''max'' then 32768 else 10240)"

definition mapResponsesEffortToAnthropic :: "string \<Rightarrow> string" where
  "mapResponsesEffortToAnthropic effort = (if effort = ''xhigh'' then ''max'' else effort)"

section \<open>Tools\<close>

definition convert_tool :: "ResponsesTool \<Rightarrow> AnthropicTool" where
  "convert_tool t =
     (if rt_Type t = ''web_search'' \<or> rt_Type t = ''google_search'' \<or> rt_Type t = ''web_search_20250305''
      then zeroTool\<lparr>at_Type := ''web_search_20250305'', at_Name := ''web_search''\<rparr>
      else
        let named = zeroTool\<lparr>at_Name := rt_Name t, at_Description := rt_Description t,
              at_InputSchema := normalizeAnthropicInputSchema (rt_Parameters t)\<rparr>
        in if rt_Type t = ''function'' \<or> rt_Type t = ''custom'' then named else named\<lparr>at_Type := rt_Type t\<rparr>)"

definition convertResponsesToAnthropicTools :: "ResponsesTool list \<Rightarrow> AnthropicTool list" where
  "convertResponsesToAnthropicTools tools = map convert_tool tools"

section \<open>The request\<close>

definition f64_099 :: rat where
  \<comment> \<open>the float64 nearest to 0.99\<close>
  "f64_099 = 4458563631096791 / 2 ^ 52"

definition choice_type :: "string \<Rightarrow> string option" where
  \<comment> \<open>decoding of the converted tool choice into a struct with a \<open>type\<close>; an absent choice has none\<close>
  "choice_type raw = (if raw = [] then Some []
     else Unmarshal_struct [(''type'', string_into (\<lambda>s _. s))] [] raw)"

definition sonnet_sampling :: "ResponsesRequest \<Rightarrow> request_error option" where
  "sonnet_sampling req =
     (if (case rq_Temperature req of None \<Rightarrow> False | Some t \<Rightarrow> t \<noteq> 1) then Some (NonDefaultTemperature ''claude-sonnet-5-5'')
      else if (case rq_TopP req of None \<Rightarrow> False | Some p \<Rightarrow> p < f64_099 \<or> p > 1) then Some (NonDefaultTopP ''claude-sonnet-5-5'')
      else None)"

definition haiku_sampling :: "ResponsesRequest \<Rightarrow> request_error option" where
  "haiku_sampling req =
     (if (case rq_Temperature req of None \<Rightarrow> False | Some t \<Rightarrow> t \<noteq> 1) then Some (NonDefaultTemperature ''claude-haiku-5-5'')
      else if (case rq_TopP req of None \<Rightarrow> False | Some p \<Rightarrow> p \<noteq> f64_099) then Some (NonDefaultTopP ''claude-haiku-5-5'')
      else if rq_Temperature req \<noteq> None \<and> rq_TopP req \<noteq> None then Some TemperatureAndTopP
      else None)"

definition requested_effort :: "ResponsesRequest \<Rightarrow> string" where
  "requested_effort req = (case rq_Reasoning req of None \<Rightarrow> [] | Some r \<Rightarrow> rre_Effort r)"

definition thinking_55 :: "ResponsesRequest \<Rightarrow> AnthropicRequest \<Rightarrow> request_error + AnthropicRequest" where
  \<comment> \<open>the branch for the 5.5 models\<close>
  "thinking_55 req out =
     (let isSonnet55 = IsSonnet55 (rq_Model req); isHaiku55 = IsHaiku55 (rq_Model req) in
      case choice_type (aq_ToolChoice out) of None \<Rightarrow> Inl InvalidToolChoice
      | Some choice \<Rightarrow>
        if (choice = ''any'' \<or> choice = ''tool'') \<and> \<not> isHaiku55 then Inl (ForcedToolChoice (rq_Model req))
        else case (if isSonnet55 then sonnet_sampling req else None) of Some e \<Rightarrow> Inl e
        | None \<Rightarrow>
        (case (if isHaiku55 then haiku_sampling req else None) of Some e \<Rightarrow> Inl e
         | None \<Rightarrow>
          (let effort = (if requested_effort req \<noteq> [] then requested_effort req
                         else if isSonnet55 then ''high'' else ''medium'') in
           if isSonnet55 \<and> effort = ''none''
           then Inr (out\<lparr>aq_Thinking := Some \<lparr>ath_Type = ''between_tools'', ath_BudgetTokens = 0\<rparr>,
                         aq_OutputConfig := Some \<lparr>aoc_Effort = ''low''\<rparr>\<rparr>)
           else if isHaiku55 \<and> effort = ''none''
           then Inr (out\<lparr>aq_Thinking := Some \<lparr>ath_Type = ''disabled'', ath_BudgetTokens = 0\<rparr>,
                         aq_OutputConfig := Some \<lparr>aoc_Effort = ''low''\<rparr>\<rparr>)
           else if effort \<notin> {''low'', ''medium'', ''high'', ''xhigh'', ''max''}
           then Inl (UnsupportedEffort (rq_Model req) effort)
           else Inr (out\<lparr>aq_Thinking := Some \<lparr>ath_Type = ''adaptive'', ath_BudgetTokens = 0\<rparr>,
                         aq_OutputConfig := Some \<lparr>aoc_Effort = effort\<rparr>\<rparr>))))"

definition thinking_other :: "ResponsesRequest \<Rightarrow> AnthropicRequest \<Rightarrow> AnthropicRequest" where
  "thinking_other req out =
     (if requested_effort req = [] then out
      else let effort = mapResponsesEffortToAnthropic (requested_effort req);
               out = out\<lparr>aq_OutputConfig := Some \<lparr>aoc_Effort = effort\<rparr>\<rparr>
           in if effort \<noteq> ''low''
              then out\<lparr>aq_Thinking := Some \<lparr>ath_Type = ''enabled'', ath_BudgetTokens = defaultThinkingBudget effort\<rparr>\<rparr>
              else out)"

definition max_tokens :: "int option \<Rightarrow> int" where
  "max_tokens m = (let v = (case m of None \<Rightarrow> 0 | Some n \<Rightarrow> if n > 0 then n else 0) in if v = 0 then 8192 else v)"

definition ResponsesToAnthropicRequest :: "ResponsesRequest \<Rightarrow> request_error + AnthropicRequest" where
  "ResponsesToAnthropicRequest req =
     (let is55 = IsOpus55 (rq_Model req) \<or> IsSonnet55 (rq_Model req) \<or> IsHaiku55 (rq_Model req) in
      case convertResponsesInputToAnthropic (rq_Instructions req) (rq_Input req) is55 of Inl e \<Rightarrow> Inl e
      | Inr (system, messages) \<Rightarrow>
        let out = \<lparr>aq_Model = rq_Model req, aq_MaxTokens = max_tokens (rq_MaxOutputTokens req), aq_System = system,
              aq_Messages = messages, aq_Tools = convertResponsesToAnthropicTools (rq_Tools req), aq_Stream = rq_Stream req,
              aq_Temperature = rq_Temperature req, aq_TopP = rq_TopP req, aq_StopSeqs = [], aq_Thinking = None,
              aq_ToolChoice = (if rq_ToolChoice req \<noteq> [] then convertResponsesToAnthropicToolChoice (rq_ToolChoice req) else []),
              aq_Metadata = [], aq_OutputConfig = None\<rparr>
        in if is55 then thinking_55 req out else Inr (thinking_other req out))"

end
