(* ===== verification/ResponsesToAnthropicRequestCorrect.thy ===== *)
theory ResponsesToAnthropicRequestCorrect
  imports ResponsesToAnthropicRequest
begin

text \<open>
  What Anthropic requires of the turns of a request, as an acceptor: an assistant message that calls tools is
  followed by a user message whose results answer exactly these calls, in this order, and no other message has
  results.  The three repair passes establish it for every history of messages (\<open>repair_turns_ok\<close>), keep everything
  that is neither a call nor a result (\<open>repair_carried\<close>), and drop exactly the calls without a result (\<open>repair_call_sigs\<close>).
\<close>

declare unquote.simps [simp del] body_ok.simps [simp del] valid_utf8.simps(2) [simp del]

section \<open>The requirement\<close>

definition calls :: "AnthropicMessage \<Rightarrow> string list" where
  "calls m = map acb_ID (filter is_tool_use (blocks_of m))"

definition answers :: "AnthropicMessage \<Rightarrow> string list" where
  "answers m = map acb_ToolUseID (filter is_tool_result (blocks_of m))"

definition tool_turn :: "string list \<Rightarrow> AnthropicMessage \<Rightarrow> string list option" where
  \<comment> \<open>the state is the list of calls the next message has to answer\<close>
  "tool_turn pending m =
     (if am_Role m = ''assistant'' then (if pending = [] then Some (calls m) else None)
      else if am_Role m = ''user'' then (if answers m = pending then Some [] else None)
      else if pending = [] then Some [] else None)"

definition turns_ok :: "AnthropicMessage list \<Rightarrow> bool" where
  "turns_ok ms \<longleftrightarrow> run_acc tool_turn [] ms = Some []"

definition bare :: "AnthropicContentBlock \<Rightarrow> AnthropicContentBlock" where
  \<comment> \<open>a block without its raw values, whose text is compacted on the way\<close>
  "bare b = b\<lparr>acb_Input := [], acb_Content := []\<rparr>"

definition carried :: "AnthropicMessage \<Rightarrow> AnthropicContentBlock list" where
  \<comment> \<open>what a message says besides the calls and results of its role\<close>
  "carried m = map bare (filter (\<lambda>b. if am_Role m = ''assistant'' then \<not> is_tool_use b
     else if am_Role m = ''user'' then \<not> is_tool_result b else True) (blocks_of m))"

definition all_answers :: "AnthropicMessage list \<Rightarrow> string list" where
  "all_answers ms = concat (map answers (filter (\<lambda>m. am_Role m = ''user'') ms))"

text \<open>What a call asks for: its ID, its function, and the value of its input, in which strings are decoded; an absent
  input is the empty object.\<close>

fun json_value :: "json \<Rightarrow> json" where
  "json_value (JStr b) = JStr (unquote b)"
| "json_value (JArr vs) = JArr (map json_value vs)"
| "json_value (JObj kvs) = JObj (map (\<lambda>kv. (unquote (fst kv), json_value (snd kv))) kvs)"
| "json_value v = v"

definition input_value :: "string \<Rightarrow> json option" where
  "input_value raw = map_option json_value (parse_json (if raw = [] then ''{}'' else raw))"

definition call_sig :: "AnthropicContentBlock \<Rightarrow> string \<times> string \<times> json option" where
  "call_sig b = (acb_ID b, acb_Name b, input_value (acb_Input b))"

definition call_sigs :: "AnthropicMessage \<Rightarrow> (string \<times> string \<times> json option) list" where
  "call_sigs m = map call_sig (filter is_tool_use (blocks_of m))"

definition all_call_sigs :: "AnthropicMessage list \<Rightarrow> (string \<times> string \<times> json option) list" where
  "all_call_sigs ms = concat (map call_sigs (filter (\<lambda>m. am_Role m = ''assistant'') ms))"

section \<open>Content that is parsed again\<close>

lemma Unmarshal_string_valid: "Unmarshal_string raw = Some s \<Longrightarrow> valid_utf8 s"
  by (auto simp: Unmarshal_string_def dest!: parse_wf intro: valid_unquote split: option.splits json.splits)

lemma text_block_ok: "valid_utf8 t \<Longrightarrow> block_ok (text_block t)"
  by (simp add: text_block_def block_ok_iff zeroBlock_def types_valid raw_ok_def)

lemma blocks_of_ok: "b \<in> set (blocks_of m) \<Longrightarrow> block_ok b"
  by (auto simp: blocks_of_def blocks_in_def parseContentBlocks_def text_block_ok Unmarshal_string_valid
      dest: decode_blocks_ok split: option.splits)

lemma parse_marshalled:
  "\<forall>b\<in>set bs. block_ok b \<Longrightarrow> parseContentBlocks (ignore_error (Marshal_blocks (Some bs))) = Some (map canon bs)"
  using blocks_roundtrip [of bs] by (auto simp: parseContentBlocks_def ignore_error_def)

lemma parse_null: "parse_json ''null'' = Some JNull"
  by code_simp

lemma blocks_of_marshalled:
  "\<forall>b\<in>set bs. block_ok b \<Longrightarrow> blocks_of \<lparr>am_Role = r, am_Content = ignore_error (Marshal_blocks (Some bs))\<rparr> = map canon bs"
  by (simp add: blocks_of_def parse_marshalled blocks_in_def)

lemma blocks_of_from_blocks [simp]:
  "\<forall>b\<in>set bs. block_ok b \<Longrightarrow> blocks_of (anthropicMessageFromBlocks r bs) = map canon bs"
  "am_Role (anthropicMessageFromBlocks r bs) = r"
  by (simp_all add: anthropicMessageFromBlocks_def blocks_of_marshalled)

lemma append_slices_cases:
  obtains "append_slices a b = None" "blocks_in a = []" "blocks_in b = []"
  | "append_slices a b = Some (blocks_in a @ blocks_in b)"
  by (cases a; cases b; cases "b = Some []") (auto simp: append_slices_def blocks_in_def)

lemma blocks_of_merge: "blocks_of (merge_into p m) = map canon (blocks_of p @ blocks_of m)"
proof -
  let ?a = "parseContentBlocks (am_Content p)" and ?b = "parseContentBlocks (am_Content m)"
  show ?thesis
  proof (cases rule: append_slices_cases [of ?a ?b])
    case 1
    then have "am_Content (merge_into p m) = ''null''"
      by (simp add: merge_into_def Marshal_blocks_def Marshal_slice_def ignore_error_def)
    then have "blocks_of (merge_into p m) = []"
      by (simp add: blocks_of_def parseContentBlocks_def Unmarshal_blocks_def Unmarshal_slice_def decode_slice_def parse_null blocks_in_def)
    with 1 show ?thesis by (simp add: blocks_of_def)
  next
    case 2
    then have "am_Content (merge_into p m) = ignore_error (Marshal_blocks (Some (blocks_of p @ blocks_of m)))"
      by (simp add: merge_into_def blocks_of_def)
    moreover have "\<forall>b\<in>set (blocks_of p @ blocks_of m). block_ok b" using blocks_of_ok by auto
    ultimately show ?thesis
      using parse_marshalled [of "blocks_of p @ blocks_of m"] by (simp add: blocks_of_def blocks_in_def del: set_append)
  qed
qed

lemma canon_kinds [simp]: "is_tool_use (canon b) = is_tool_use b" "is_tool_result (canon b) = is_tool_result b" "bare (canon b) = bare b"
  by (simp_all add: is_tool_use_def is_tool_result_def bare_def canon_def)

lemma json_value_compact: "wf_json v \<Longrightarrow> json_value (compact_json v) = json_value v"
  by (induction v rule: json_value.induct) (auto simp: unquote_compact)

lemma print_json_not_Nil: "wf_json v \<Longrightarrow> print_json v \<noteq> []"
  using print_json_hd by fastforce

lemma input_value_compacted:
  assumes "raw_ok raw"
  shows "input_value (compacted raw) = input_value raw"
proof (cases "raw = []")
  case False
  with assms obtain v where v: "parse_json raw = Some v" "json_depth v + 2 \<le> max_depth" by (auto simp: raw_ok_def)
  then have wf: "wf_json v" "wf_json (compact_json v)" using parse_wf [OF v(1)] by (simp_all add: wf_compact)
  then have "parse_json (print_json (compact_json v)) = Some (compact_json v)"
    using v(2) by (intro parse_print) (simp_all add: depth_compact)
  with v wf False show ?thesis
    by (simp add: input_value_def compacted_def print_json_not_Nil json_value_compact)
qed simp

lemma call_sig_canon: "block_ok b \<Longrightarrow> call_sig (canon b) = call_sig b"
  by (simp add: call_sig_def block_ok_iff) (simp add: canon_def input_value_compacted)

lemma map_call_sig_canon: "\<forall>b\<in>set bs. block_ok b \<Longrightarrow> map call_sig (map canon bs) = map call_sig bs"
  by (simp add: call_sig_canon)

lemma filter_canon: "filter is_tool_use (map canon bs) = map canon (filter is_tool_use bs)"
  "filter is_tool_result (map canon bs) = map canon (filter is_tool_result bs)"
  by (simp_all add: filter_map comp_def)

lemma merge_sel [simp]:
  "am_Role (merge_into p m) = am_Role p" "calls (merge_into p m) = calls p @ calls m" "answers (merge_into p m) = answers p @ answers m"
  by (simp_all add: merge_into_def [of p m] calls_def answers_def blocks_of_merge [unfolded merge_into_def] filter_canon)

lemma carried_merge: "am_Role p = am_Role m \<Longrightarrow> carried (merge_into p m) = carried p @ carried m"
  by (simp add: carried_def blocks_of_merge filter_map comp_def)

lemma call_sigs_merge: "call_sigs (merge_into p m) = call_sigs p @ call_sigs m"
  unfolding call_sigs_def blocks_of_merge filter_canon
  by (subst map_call_sig_canon) (auto intro: blocks_of_ok)

section \<open>Merging\<close>

lemma tool_turn_merge:
  "am_Role p = am_Role m \<Longrightarrow> tool_turn s p = Some s' \<Longrightarrow> tool_turn s' m = Some s'' \<Longrightarrow> tool_turn s (merge_into p m) = Some s''"
  by (auto simp: tool_turn_def split: if_splits)

lemma merge_loop_turns:
  "run_acc tool_turn s (rev merged @ msgs) = Some t \<Longrightarrow> run_acc tool_turn s (merge_loop merged msgs) = Some t"
proof (induction merged msgs rule: merge_loop.induct)
  case (2 merged msg msgs)
  show ?case
  proof (cases merged)
    case (Cons prev rest)
    show ?thesis
    proof (cases "am_Role prev = am_Role msg")
      case True
      from "2.prems" Cons obtain a b c where abc: "run_acc tool_turn s (rev rest) = Some a" "tool_turn a prev = Some b"
          "tool_turn b msg = Some c" "run_acc tool_turn c msgs = Some t"
        by (auto simp: run_acc_append split: option.splits)
      with tool_turn_merge [OF True] have "run_acc tool_turn s (rev (merge_into prev msg # rest) @ msgs) = Some t"
        by (simp add: run_acc_append)
      with 2 Cons True show ?thesis by simp
    qed (use 2 Cons in simp)
  qed (use 2 in simp)
qed simp

lemma merge_turns: "turns_ok ms \<Longrightarrow> turns_ok (mergeConsecutiveMessages ms)"
  by (simp add: turns_ok_def mergeConsecutiveMessages_def merge_loop_turns)

lemma merge_loop_alternates:
  "distinct_adj (map am_Role (rev merged)) \<Longrightarrow> distinct_adj (map am_Role (merge_loop merged msgs))"
proof (induction merged msgs rule: merge_loop.induct)
  case (2 merged msg msgs)
  then show ?case
    by (cases merged) (auto simp: distinct_adj_append_iff)
qed simp

lemma merge_alternates: "distinct_adj (map am_Role (mergeConsecutiveMessages ms))"
proof (cases "length ms \<le> 1")
  case True
  then show ?thesis by (cases ms) (auto simp: mergeConsecutiveMessages_def)
qed (simp add: mergeConsecutiveMessages_def merge_loop_alternates)

text \<open>Whatever is collected message by message, and added up by merging, is the same after merging.\<close>

lemma merge_loop_sum:
  assumes "\<And>p m. am_Role p = am_Role m \<Longrightarrow> f (merge_into p m) = f p @ f m"
  shows "concat (map f (merge_loop merged msgs)) = concat (map f (rev merged @ msgs))"
  by (induction merged msgs rule: merge_loop.induct) (auto simp: assms split: list.split)

lemma merge_sum:
  assumes "\<And>p m. am_Role p = am_Role m \<Longrightarrow> f (merge_into p m) = f p @ f m"
  shows "concat (map f (mergeConsecutiveMessages ms)) = concat (map f ms)"
  by (simp add: mergeConsecutiveMessages_def merge_loop_sum [OF assms])

lemma concat_filter: "concat (map f (filter P xs)) = concat (map (\<lambda>x. if P x then f x else []) xs)"
  by (induction xs) auto

lemma merge_carried: "concat (map carried (mergeConsecutiveMessages ms)) = concat (map carried ms)"
  by (rule merge_sum) (rule carried_merge)

lemma merge_answers: "all_answers (mergeConsecutiveMessages ms) = all_answers ms"
  unfolding all_answers_def concat_filter by (rule merge_sum) simp

lemma merge_call_sigs: "all_call_sigs (mergeConsecutiveMessages ms) = all_call_sigs ms"
  unfolding all_call_sigs_def concat_filter by (rule merge_sum) (simp add: call_sigs_merge)

section \<open>Pairing\<close>

lemma tool_results_fold:
  "foldl (\<lambda>results b. results(acb_ToolUseID b \<mapsto> b)) R bs i = Some b \<Longrightarrow>
     (b \<in> set bs \<and> acb_ToolUseID b = i) \<or> R i = Some b"
  "foldl (\<lambda>results b. results(acb_ToolUseID b \<mapsto> b)) R bs i = None \<longleftrightarrow> R i = None \<and> i \<notin> acb_ToolUseID ` set bs"
proof (induction bs arbitrary: R)
  case (Cons a bs)
  { case 1
    then have "(b \<in> set bs \<and> acb_ToolUseID b = i) \<or> (R(acb_ToolUseID a \<mapsto> a)) i = Some b"
      by (intro Cons.IH(1)) simp
    then show ?case by (auto split: if_splits) }
  { case 2
    then show ?case using Cons.IH(2) [of "R(acb_ToolUseID a \<mapsto> a)"] by auto }
qed simp_all

lemma tool_results_spec:
  "tool_results ms i = Some b \<Longrightarrow> is_tool_result b \<and> acb_ToolUseID b = i \<and> block_ok b"
  unfolding tool_results_def by (drule tool_results_fold(1)) (auto simp: is_tool_result_def blocks_of_ok)

lemma tool_results_dom: "tool_results ms i \<noteq> None \<longleftrightarrow> i \<in> set (all_answers ms) \<and> i \<noteq> []"
  unfolding tool_results_def tool_results_fold(2)
  by (auto simp: all_answers_def answers_def is_tool_result_def)

lemma pair_assistant_spec:
  assumes R: "\<And>i b. R i = Some b \<Longrightarrow> is_tool_result b \<and> acb_ToolUseID b = i \<and> block_ok b"
    and m: "am_Role m = ''assistant''"
  shows "run_acc tool_turn [] (pair_assistant R m) = Some [] \<and> concat (map carried (pair_assistant R m)) = carried m
    \<and> all_call_sigs (pair_assistant R m) = filter (\<lambda>s. R (fst s) \<noteq> None) (call_sigs m)"
proof -
  let ?uses = "filter is_tool_use (blocks_of m)" and ?others = "filter (\<lambda>b. \<not> is_tool_use b) (blocks_of m)"
  let ?kept = "filter (\<lambda>tu. R (acb_ID tu) \<noteq> None) ?uses"
  have sigs: "filter (\<lambda>s. R (fst s) \<noteq> None) (call_sigs m) = map call_sig ?kept"
    by (simp add: call_sigs_def call_sig_def filter_map comp_def)
  have ok: "\<forall>b\<in>set bs. block_ok b" if "set bs \<subseteq> set (blocks_of m)" for bs using that blocks_of_ok by blast
  have others: "filter is_tool_use ?others = []" by (simp add: filter_empty_conv)
  show ?thesis
  proof (cases "?uses = []")
    case True
    then show ?thesis using m by (simp add: pair_assistant_def tool_turn_def calls_def call_sigs_def all_call_sigs_def)
  next
    case False
    have okr: "\<forall>b\<in>set (map (\<lambda>tu. the (R (acb_ID tu))) ?kept). is_tool_result b \<and> block_ok b" using R by fastforce
    have ids: "map (\<lambda>tu. acb_ToolUseID (the (R (acb_ID tu)))) ?kept = map acb_ID ?kept" using R by fastforce
    show ?thesis
    proof (cases "?kept = []")
      case True
      have "blocks_of (anthropicMessageFromBlocks r ?others) = map canon ?others" for r
        by (rule blocks_of_from_blocks) (auto intro: blocks_of_ok)
      note b = this
      have none: "filter (\<lambda>s. R (fst s) \<noteq> None) (call_sigs m) = []" unfolding sigs True by simp
      have "calls (anthropicMessageFromBlocks r ?others) = [] \<and> call_sigs (anthropicMessageFromBlocks r ?others) = []" for r
        unfolding calls_def call_sigs_def b filter_canon others by simp
      moreover have "carried (anthropicMessageFromBlocks ''assistant'' ?others) = carried m"
        using m unfolding carried_def b by (simp add: filter_map comp_def)
      moreover have "carried m = []" if "?others = []" using m that by (simp add: carried_def)
      moreover have "pair_assistant R m = (if ?others \<noteq> [] then [anthropicMessageFromBlocks ''assistant'' ?others] else [])"
        using False True by (simp add: pair_assistant_def Let_def)
      ultimately show ?thesis unfolding none by (simp add: tool_turn_def all_call_sigs_def)
    next
      case kept: False
      let ?m1 = "anthropicMessageFromBlocks ''assistant'' (?others @ ?kept)"
      let ?m2 = "anthropicMessageFromBlocks ''user'' (map (\<lambda>tu. the (R (acb_ID tu))) ?kept)"
      have b1: "blocks_of ?m1 = map canon (?others @ ?kept)" by (rule blocks_of_from_blocks) (auto intro: blocks_of_ok)
      have b2: "blocks_of ?m2 = map canon (map (\<lambda>tu. the (R (acb_ID tu))) ?kept)" using okr by (intro blocks_of_from_blocks) blast
      have kept_uses: "filter is_tool_use ?kept = ?kept" by (rule filter_True) auto
      have c1: "calls ?m1 = map acb_ID ?kept"
        unfolding calls_def b1 filter_canon filter_append others kept_uses by (simp del: filter_filter)
      have "call_sigs ?m1 = map call_sig ?kept"
        unfolding call_sigs_def b1 filter_canon filter_append others kept_uses append_Nil
        by (rule map_call_sig_canon) (auto intro: blocks_of_ok)
      note s1 = this
      have "filter is_tool_result (map (\<lambda>tu. the (R (acb_ID tu))) ?kept) = map (\<lambda>tu. the (R (acb_ID tu))) ?kept"
        using okr by (intro filter_True) blast
      then have a2: "answers ?m2 = map acb_ID ?kept"
        unfolding answers_def b2 filter_canon using ids by simp
      have "carried ?m1 = carried m"
        using m unfolding carried_def b1 by (simp add: filter_map comp_def filter_empty_conv)
      moreover have "carried ?m2 = []"
        using okr unfolding carried_def b2 by (auto simp: filter_map comp_def filter_empty_conv)
      moreover have "pair_assistant R m = [?m1, ?m2]" using False kept by (simp add: pair_assistant_def Let_def)
      ultimately show ?thesis
        using c1 s1 a2 unfolding sigs by (simp add: tool_turn_def all_call_sigs_def)
    qed
  qed
qed

lemma pair_user_spec:
  assumes m: "am_Role m = ''user''"
  shows "run_acc tool_turn [] (pair_user m) = Some [] \<and> concat (map carried (pair_user m)) = carried m
    \<and> all_call_sigs (pair_user m) = []"
proof -
  let ?rest = "filter (\<lambda>b. \<not> is_tool_result b) (blocks_of m)"
  have b: "blocks_of (anthropicMessageFromBlocks r ?rest) = map canon ?rest" for r
    by (rule blocks_of_from_blocks) (auto intro: blocks_of_ok)
  show ?thesis
  proof (cases "\<exists>b\<in>set (blocks_of m). is_tool_result b")
    case False
    then have "answers m = []" by (simp add: answers_def filter_empty_conv)
    with False m show ?thesis by (simp add: pair_user_def tool_turn_def all_call_sigs_def)
  next
    case True
    have "answers (anthropicMessageFromBlocks r ?rest) = []" for r
      unfolding answers_def b filter_canon by (simp add: filter_empty_conv)
    moreover have "carried (anthropicMessageFromBlocks ''user'' ?rest) = carried m"
      using m unfolding carried_def b by (simp add: filter_map comp_def)
    moreover have "carried m = []" if "?rest = []" using m that by (simp add: carried_def)
    moreover have "pair_user m = (if ?rest \<noteq> [] then [anthropicMessageFromBlocks ''user'' ?rest] else [])"
      using True by (auto simp: pair_user_def Let_def)
    ultimately show ?thesis by (simp add: tool_turn_def all_call_sigs_def)
  qed
qed

lemma run_acc_concat:
  "(\<And>x. x \<in> set xs \<Longrightarrow> run_acc f a (g x) = Some a) \<Longrightarrow> run_acc f a (concat (map g xs)) = Some a"
  by (induction xs) (auto simp: run_acc_append)

lemma all_call_sigs_append: "all_call_sigs (xs @ ys) = all_call_sigs xs @ all_call_sigs ys"
  by (simp add: all_call_sigs_def)

lemma pairing_spec:
  "turns_ok (normalizeAnthropicToolPairing ms)"
  "concat (map carried (normalizeAnthropicToolPairing ms)) = concat (map carried ms)"
  "all_call_sigs (normalizeAnthropicToolPairing ms) = filter (\<lambda>s. fst s \<in> set (all_answers ms) \<and> fst s \<noteq> []) (all_call_sigs ms)"
proof -
  let ?R = "tool_results ms"
  let ?f = "\<lambda>m. if am_Role m = ''assistant'' then pair_assistant ?R m else if am_Role m = ''user'' then pair_user m else [m]"
  have f: "run_acc tool_turn [] (?f m) = Some [] \<and> concat (map carried (?f m)) = carried m
      \<and> all_call_sigs (?f m) = filter (\<lambda>s. ?R (fst s) \<noteq> None) (all_call_sigs [m])" for m
  proof (cases "am_Role m = ''assistant''")
    case True
    then show ?thesis using pair_assistant_spec [of ?R m] tool_results_spec by (simp add: all_call_sigs_def)
  next
    case False
    then show ?thesis using pair_user_spec [of m] by (simp add: all_call_sigs_def tool_turn_def)
  qed
  have n: "normalizeAnthropicToolPairing ms = concat (map ?f ms)" by (simp add: normalizeAnthropicToolPairing_def Let_def)
  show "turns_ok (normalizeAnthropicToolPairing ms)"
    unfolding turns_ok_def n using f by (intro run_acc_concat) blast
  have "concat (map carried (concat (map ?f ms'))) = concat (map carried ms')" for ms'
    by (induction ms') (use f in simp_all)
  then show "concat (map carried (normalizeAnthropicToolPairing ms)) = concat (map carried ms)" unfolding n .
  have "all_call_sigs (concat (map ?f ms')) = filter (\<lambda>s. ?R (fst s) \<noteq> None) (all_call_sigs ms')" for ms'
  proof (induction ms')
    case (Cons m ms')
    have "all_call_sigs (m # ms') = all_call_sigs [m] @ all_call_sigs ms'" using all_call_sigs_append [of "[m]" ms'] by simp
    with Cons f [of m] show ?case by (simp add: all_call_sigs_append)
  qed (simp add: all_call_sigs_def)
  then show "all_call_sigs (normalizeAnthropicToolPairing ms) = filter (\<lambda>s. fst s \<in> set (all_answers ms) \<and> fst s \<noteq> []) (all_call_sigs ms)"
    unfolding n tool_results_dom .
qed

section \<open>The three passes\<close>

lemma repair_turns_ok: "turns_ok (repair_turns ms)"
  unfolding repair_turns_def by (rule merge_turns) (rule pairing_spec)

lemma repair_alternates: "distinct_adj (map am_Role (repair_turns ms))"
  unfolding repair_turns_def by (rule merge_alternates)

lemma repair_carried: "concat (map carried (repair_turns ms)) = concat (map carried ms)"
  unfolding repair_turns_def by (simp add: merge_carried pairing_spec)

lemma repair_call_sigs:
  "all_call_sigs (repair_turns ms) = filter (\<lambda>s. fst s \<in> set (all_answers ms) \<and> fst s \<noteq> []) (all_call_sigs ms)"
  unfolding repair_turns_def by (simp add: merge_call_sigs merge_answers pairing_spec)

section \<open>Converted histories\<close>

lemma parse_Marshal_string: "parse_json (Marshal_string s) = Some (JStr (enc_string s))"
  using parse_print [of "JStr (enc_string s)"] by (simp add: Marshal_string_def max_depth_def)

lemma blocks_of_string: "blocks_of \<lparr>am_Role = r, am_Content = Marshal_string s\<rparr> = [text_block (unquote (enc_string s))]"
  by (simp add: blocks_of_def blocks_in_def parseContentBlocks_def Unmarshal_blocks_def Unmarshal_slice_def decode_slice_def
      Unmarshal_string_def parse_Marshal_string)

lemma string_message_turns: "turns_ok [\<lparr>am_Role = ''user'', am_Content = Marshal_string s\<rparr>]"
  by (simp add: turns_ok_def tool_turn_def answers_def blocks_of_string text_block_def is_tool_result_def)

lemma converted_turns:
  assumes "convertResponsesInputToAnthropic instructions input pt = Inr (sys, msgs)"
  shows "turns_ok msgs \<and> distinct_adj (map am_Role msgs)"
proof (cases "Unmarshal_string input")
  case (Some s)
  with assms show ?thesis by (auto simp: convertResponsesInputToAnthropic_def Let_def string_message_turns)
next
  case None
  with assms obtain ms where "msgs = repair_turns ms"
    by (auto simp: convertResponsesInputToAnthropic_def Let_def split: option.splits sum.splits prod.splits)
  then show ?thesis by (simp add: repair_turns_ok repair_alternates)
qed

section \<open>Function calls with unusable arguments\<close>

lemma bad_arguments_message:
  assumes "parse_json (ri_Arguments item) = None" "ri_Arguments item \<noteq> []"
  shows "function_call_message item = \<lparr>am_Role = ''assistant'', am_Content = []\<rparr>"
  using assms
  by (simp add: function_call_message_def only_block_def Marshal_blocks_def Marshal_slice_def AnthropicContentBlock_MarshalJSON_def
      omit_raw_def Marshal_raw_def ignore_error_def)

section \<open>The envelope of signed thinking\<close>

definition thinking_block :: "string \<Rightarrow> string \<Rightarrow> AnthropicContentBlock" where
  "thinking_block t sig = zeroBlock\<lparr>acb_Type := ''thinking'', acb_Thinking := t, acb_Signature := sig\<rparr>"

definition redacted_block :: "string \<Rightarrow> AnthropicContentBlock" where
  "redacted_block d = zeroBlock\<lparr>acb_Type := ''redacted_thinking'', acb_Data := d\<rparr>"

text \<open>The payload is the encoding of an object.\<close>

definition payload_members :: "AnthropicContentBlock \<Rightarrow> (string \<times> json) list" where
  "payload_members b = string_field ''type'' (acb_Type b) @ string_field ''thinking'' (acb_Thinking b)
     @ omit_string ''signature'' (acb_Signature b) @ omit_string ''data'' (acb_Data b)"

lemma enc_names: "enc_string ''type'' = ''type''" "enc_string ''thinking'' = ''thinking''" "enc_string ''signature'' = ''signature''"
    "enc_string ''data'' = ''data''"
  by code_simp+

lemma payload_text: "thinking_payload b = print_json (JObj (payload_members b))"
  by (simp add: thinking_payload_def payload_members_def json_field_def Marshal_string_def string_field_def omit_string_def enc_names
      del: enc_string.simps)

lemma payload_decoded:
  assumes "valid_utf8 (acb_Type b)" "valid_utf8 (acb_Thinking b)" "valid_utf8 (acb_Signature b)" "valid_utf8 (acb_Data b)"
  shows "Unmarshal_struct AnthropicContentBlock_fields zeroBlock (thinking_payload b) =
    Some (zeroBlock\<lparr>acb_Type := acb_Type b, acb_Thinking := acb_Thinking b, acb_Signature := acb_Signature b, acb_Data := acb_Data b\<rparr>)"
proof -
  have "\<forall>m\<in>set (payload_members b). member_ok m"
    unfolding payload_members_def by (intro members_combine members_ok names_ok)
  then have "parse_json (thinking_payload b) = Some (JObj (payload_members b))"
    unfolding payload_text by (intro parse_print) (use JObj_ok in fastforce)+
  moreover have "decode_members AnthropicContentBlock_fields (payload_members b) zeroBlock =
      Some (zeroBlock\<lparr>acb_Type := acb_Type b, acb_Thinking := acb_Thinking b, acb_Signature := acb_Signature b, acb_Data := acb_Data b\<rparr>)"
    using assms by (simp add: payload_members_def decode_members_append decode_block_string names_unquoted set_block_field zeroBlock_def)
  ultimately show ?thesis by (simp add: Unmarshal_struct_def decode_struct_def)
qed

lemma HasPrefix_append: "HasPrefix (p @ s) p" "TrimPrefix (p @ s) p = s"
  by (auto simp: HasPrefix_iff TrimPrefix_def)

lemma envelope_message:
  assumes "ri_EncryptedContent item = encodeAnthropicThinking b"
    and "b = thinking_block t sig \<and> sig \<noteq> [] \<or> b = redacted_block sig \<and> sig \<noteq> []" "valid_utf8 t" "valid_utf8 sig"
  shows "\<exists>content. reasoning_message True item = Inr [\<lparr>am_Role = ''assistant'', am_Content = content\<rparr>]
    \<and> parseContentBlocks content = Some [b]"
proof -
  have val: "valid_utf8 ''redacted_thinking''" "valid_utf8 ''thinking''" by code_simp+
  have "block_ok b \<and> canon b = b \<and>
      zeroBlock\<lparr>acb_Type := acb_Type b, acb_Thinking := acb_Thinking b, acb_Signature := acb_Signature b, acb_Data := acb_Data b\<rparr> = b"
    using assms(2)
  proof (elim disjE conjE)
    assume "b = thinking_block t sig"
    then show ?thesis using assms(3,4) val by (simp add: thinking_block_def block_ok_iff zeroBlock_def raw_ok_def canon_def)
  next
    assume "b = redacted_block sig"
    then show ?thesis using assms(3,4) val by (simp add: redacted_block_def block_ok_iff zeroBlock_def raw_ok_def canon_def)
  qed
  then have ok: "block_ok b" and canon: "canon b = b"
    and sel: "zeroBlock\<lparr>acb_Type := acb_Type b, acb_Thinking := acb_Thinking b, acb_Signature := acb_Signature b, acb_Data := acb_Data b\<rparr> = b"
    by blast+
  have "Unmarshal_struct AnthropicContentBlock_fields zeroBlock (thinking_payload b) = Some b"
    using payload_decoded [of b] ok sel by (simp add: block_ok_iff)
  moreover obtain content where c: "Marshal_blocks (Some [b]) = Some content" "Unmarshal_blocks content = Some (Some [b])"
    using blocks_roundtrip [of "[b]"] ok canon by auto
  moreover have "\<not> ((acb_Type b \<noteq> ''thinking'' \<or> acb_Signature b = [])
             \<and> (acb_Type b \<noteq> ''redacted_thinking'' \<or> acb_Data b = []))"
    using assms(2) by (auto simp: thinking_block_def redacted_block_def)
  ultimately show ?thesis
    using assms(1) by (simp add: reasoning_message_def encodeAnthropicThinking_def HasPrefix_append b64_roundtrip
        parseContentBlocks_def del: de_Morgan_conj)
qed

end
