(* ===== verification/OpenAIModels.thy ===== *)
theory OpenAIModels
  imports GoStrings
begin

text \<open>
  Model identifiers of OpenAI as clients spell them (\<open>internal/pkg/openai/constants.go\<close>): the canonical spelling, and the
  families the request converter has to tell apart.  The embedded instruction texts are not modelled.
\<close>

section \<open>Package strings\<close>

fun Contains :: "string \<Rightarrow> string \<Rightarrow> bool" where
  "Contains [] p = (p = [])"
| "Contains (c # cs) p = (HasPrefix (c # cs) p \<or> Contains cs p)"

fun ReplaceAll :: "string \<Rightarrow> string \<Rightarrow> string \<Rightarrow> string" where
  \<comment> \<open>for a pattern that is not empty\<close>
  "ReplaceAll [] old new = []"
| "ReplaceAll (c # cs) old new =
     (if old \<noteq> [] \<and> HasPrefix (c # cs) old then new @ ReplaceAll (drop (length old - 1) cs) old new
      else c # ReplaceAll cs old new)"

fun fields_from :: "string \<Rightarrow> string \<Rightarrow> string list" where
  \<comment> \<open>\<open>strings.Fields\<close>, given the field being read in reverse\<close>
  "fields_from f [] = (if f = [] then [] else [rev f])"
| "fields_from f (c # cs) =
     (let n = match_len space_encodings (c # cs) in
      if n = 0 then fields_from (c # f) cs
      else (if f = [] then [] else [rev f]) @ fields_from [] (drop (n - 1) cs))"

definition Fields :: "string \<Rightarrow> string list" where
  "Fields s = fields_from [] s"

definition after_last :: "string \<Rightarrow> char \<Rightarrow> string option" where
  \<comment> \<open>\<open>s[strings.LastIndexByte(s, b)+1:]\<close>, if the byte occurs\<close>
  "after_last s b = (if b \<in> set s then Some (rev (takeWhile (\<lambda>c. c \<noteq> b) (rev s))) else None)"

section \<open>Canonical spellings\<close>

lemma HasPrefix_length: "HasPrefix s p \<Longrightarrow> length p \<le> length s"
  by (auto simp: HasPrefix_iff)

lemma ReplaceAll_shorter:
  "length new < length old \<Longrightarrow> length (ReplaceAll s old new) \<le> length s \<and> (Contains s old \<longrightarrow> length (ReplaceAll s old new) < length s)"
proof (induction s old new rule: ReplaceAll.induct)
  case (2 c cs old new)
  show ?case
  proof (cases "HasPrefix (c # cs) old")
    case True
    moreover from True have "length old \<le> Suc (length cs)" using HasPrefix_length [of "c # cs" old] by simp
    moreover have "old \<noteq> []" using 2 by auto
    moreover from this 2(1,3) True have "length (ReplaceAll (drop (length old - 1) cs) old new) \<le> length cs - (length old - 1)" by simp
    ultimately show ?thesis using 2(3) by (cases old) auto
  qed (use 2 in auto)
qed auto

function single_hyphens :: "string \<Rightarrow> string" where
  \<comment> \<open>the loop that replaces double hyphens while there are any\<close>
  "single_hyphens s = (if Contains s ''--'' then single_hyphens (ReplaceAll s ''--'' ''-'') else s)"
  by pat_completeness auto
termination
  by (relation "measure length") (simp_all add: ReplaceAll_shorter)

declare single_hyphens.simps [simp del]

definition alias_replacements :: "(string \<times> string) list" where
  "alias_replacements =
     [(''gpt-5.4mini'', ''gpt-5.4-mini''), (''gpt-5.4nano'', ''gpt-5.4-nano''),
      (''gpt-5.3-codexspark'', ''gpt-5.3-codex-spark''), (''gpt-5.3codexspark'', ''gpt-5.3-codex-spark''),
      (''gpt-5.3codex'', ''gpt-5.3-codex'')]"

definition CanonicalizeOpenAIModelAliasSpelling :: "string \<Rightarrow> string" where
  "CanonicalizeOpenAIModelAliasSpelling model =
     (let model = TrimSpace model;
          model = (case after_last model (CHR ''/'') of Some rest \<Rightarrow> TrimSpace rest | None \<Rightarrow> model);
          model = ToLower model
      in if model = [] then []
         else let normalized = ReplaceAll model ''_'' ''-'';
                  normalized = single_hyphens (Join (Fields normalized) ''-'');
                  normalized = (if HasPrefix normalized ''gpt5'' then ''gpt-5'' @ TrimPrefix normalized ''gpt5'' else normalized)
              in if \<not> HasPrefix normalized ''gpt-'' \<and> \<not> Contains normalized ''codex'' then []
                 else fold (\<lambda>(old, new) s. ReplaceAll s old new) alias_replacements normalized)"

definition spelled_with :: "string \<Rightarrow> string list \<Rightarrow> string \<Rightarrow> bool" where
  \<comment> \<open>the base, or the base with one of the suffixes\<close>
  "spelled_with base suffixes canonical \<longleftrightarrow>
     canonical = base \<or> (case CutPrefix canonical (base @ ''-'') of (suffix, ok) \<Rightarrow> ok \<and> suffix \<in> set suffixes)"

definition IsGPT6SolOrLunaModelSpelling :: "string \<Rightarrow> bool" where
  "IsGPT6SolOrLunaModelSpelling model =
     (let canonical = CanonicalizeOpenAIModelAliasSpelling model in
      list_ex (\<lambda>base. spelled_with base [''none'', ''low'', ''medium'', ''high'', ''xhigh'', ''max'', ''openai-compact''] canonical)
        [''gpt-6-sol'', ''gpt-6-luna''])"

definition IsGPT61SolModelSpelling :: "string \<Rightarrow> bool" where
  "IsGPT61SolModelSpelling model =
     spelled_with ''gpt-6.1-sol'' [''none'', ''minimal'', ''low'', ''medium'', ''high'', ''xhigh'', ''max'', ''openai-compact'']
       (CanonicalizeOpenAIModelAliasSpelling model)"

definition IsGPT61TerraModelSpelling :: "string \<Rightarrow> bool" where
  "IsGPT61TerraModelSpelling model =
     spelled_with ''gpt-6.1-terra'' [''none'', ''low'', ''medium'', ''high'', ''xhigh'', ''max'', ''openai-compact'']
       (CanonicalizeOpenAIModelAliasSpelling model)"

definition RequiresResponsesForToolCalls :: "string \<Rightarrow> bool" where
  "RequiresResponsesForToolCalls model \<longleftrightarrow> IsGPT61SolModelSpelling model \<or> IsGPT61TerraModelSpelling model"

definition ValidateGPT61SolReasoningEffort :: "string \<Rightarrow> string \<Rightarrow> bool" where
  \<comment> \<open>whether the combination is accepted: no error is returned\<close>
  "ValidateGPT61SolReasoningEffort model effort \<longleftrightarrow>
     \<not> (IsGPT61SolModelSpelling model \<and> ToLower (TrimSpace effort) \<in> {''none'', ''minimal''})"

lemma spellings:
  "CanonicalizeOpenAIModelAliasSpelling ''openai/GPT_6.1  Sol--Max'' = ''gpt-6.1-sol-max''"
  "CanonicalizeOpenAIModelAliasSpelling ''gpt5.3codexspark'' = ''gpt-5.3-codex-spark''"
  "CanonicalizeOpenAIModelAliasSpelling ''claude-opus-4-8'' = []"
  by code_simp+

end
