(* ===== verification/AnthropicToResponsesRequest.thy ===== *)
theory AnthropicToResponsesRequest
  imports ResponsesToAnthropicRequest OpenAIModels
begin

text \<open>
  From an Anthropic Messages request to an OpenAI Responses request (\<open>anthropic_to_responses.go\<close>): system prompt, messages,
  tools, tool choice, effort and sampling parameters, with the JSON the input items become.
\<close>

declare unquote.simps [simp del]

datatype to_responses_error =
    EffortNotSupported string
  | DecodeContent
  | MarshalInput
  | DecodeToolChoice

section \<open>Encoding input items and content parts\<close>

definition ResponsesContentPart_json :: "ResponsesContentPart \<Rightarrow> json option" where
  "ResponsesContentPart_json p = map_option (\<lambda>breakpoint. JObj (breakpoint @ string_field ''type'' (rcp_Type p)
       @ omit_string ''text'' (rcp_Text p) @ omit_string ''refusal'' (rcp_Refusal p) @ omit_string ''image_url'' (rcp_ImageURL p)
       @ omit_string ''filename'' (rcp_Filename p) @ omit_string ''file_data'' (rcp_FileData p) @ omit_string ''file_id'' (rcp_FileID p)))
     (omit_raw ''prompt_cache_breakpoint'' (rcp_PromptCacheBreakpoint p))"

definition Marshal_parts :: "ResponsesContentPart list \<Rightarrow> string option" where
  \<comment> \<open>of a slice that is not nil\<close>
  "Marshal_parts ps = Marshal_slice ResponsesContentPart_json (Some ps)"

definition ResponsesInputItem_json :: "ResponsesInputItem \<Rightarrow> json option" where
  \<comment> \<open>\<open>outputRaw\<close> is not exported\<close>
  "ResponsesInputItem_json i = map_option (\<lambda>content. JObj (omit_string ''type'' (ri_Type i) @ omit_string ''role'' (ri_Role i)
       @ content @ omit_string ''encrypted_content'' (ri_EncryptedContent i) @ omit_string ''call_id'' (ri_CallID i)
       @ omit_string ''name'' (ri_Name i) @ omit_string ''arguments'' (ri_Arguments i) @ omit_string ''id'' (ri_ID i)
       @ omit_string ''output'' (ri_Output i)))
     (omit_raw ''content'' (ri_Content i))"

definition Marshal_items :: "ResponsesInputItem list \<Rightarrow> string option" where
  \<comment> \<open>the slice is only appended to: it is nil as long as it is empty\<close>
  "Marshal_items items = Marshal_slice ResponsesInputItem_json (if items = [] then None else Some items)"

section \<open>System prompt\<close>

definition isAnthropicBillingHeaderText :: "string \<Rightarrow> bool" where
  "isAnthropicBillingHeaderText t = HasPrefix t ''x-anthropic-billing-header: ''"

definition input_text_part :: "string \<Rightarrow> ResponsesContentPart" where
  "input_text_part t = zeroPart\<lparr>rcp_Type := ''input_text'', rcp_Text := t\<rparr>"

definition parseAnthropicSystemContentParts :: "string \<Rightarrow> to_responses_error + ResponsesContentPart list" where
  "parseAnthropicSystemContentParts raw =
     (case Unmarshal_string raw of
        Some s \<Rightarrow> Inr (if isAnthropicBillingHeaderText s \<or> s = [] then [] else [input_text_part s])
      | None \<Rightarrow> (case Unmarshal_blocks raw of
          None \<Rightarrow> Inl DecodeContent
        | Some bs \<Rightarrow> Inr (map (\<lambda>b. input_text_part (acb_Text b))
            (filter (\<lambda>b. acb_Type b = ''text'' \<and> acb_Text b \<noteq> [] \<and> \<not> isAnthropicBillingHeaderText (acb_Text b)) (blocks_in bs)))))"

section \<open>Messages\<close>

definition anthropicImageToDataURI :: "AnthropicImageSource option \<Rightarrow> string" where
  "anthropicImageToDataURI src = (case src of None \<Rightarrow> []
     | Some s \<Rightarrow> if ais_Data s = [] then []
         else ''data:'' @ (if ais_MediaType s = [] then ''image/png'' else ais_MediaType s) @ '';base64,'' @ ais_Data s)"

definition image_parts :: "AnthropicContentBlock \<Rightarrow> ResponsesContentPart list" where
  "image_parts b = (let uri = anthropicImageToDataURI (acb_Source b) in
     if uri \<noteq> [] then [zeroPart\<lparr>rcp_Type := ''input_image'', rcp_ImageURL := uri\<rparr>] else [])"

definition or_empty :: "string \<Rightarrow> string" where
  "or_empty s = (if s = [] then ''(empty)'' else s)"

definition convertToolResultOutput :: "AnthropicContentBlock \<Rightarrow> string \<times> ResponsesContentPart list" where
  "convertToolResultOutput b =
     (if acb_Content b = [] then (''(empty)'', [])
      else case Unmarshal_string (acb_Content b) of Some s \<Rightarrow> (or_empty s, [])
      | None \<Rightarrow> (case Unmarshal_blocks (acb_Content b) of
          None \<Rightarrow> (''(empty)'', [])
        | Some inner \<Rightarrow>
            (or_empty (Join (map acb_Text (filter (\<lambda>ib. acb_Type ib = ''text'' \<and> acb_Text ib \<noteq> []) (blocks_in inner)))
               [CHR 0x0A, CHR 0x0A]),
             concat (map image_parts (filter (\<lambda>ib. acb_Type ib = ''image'') (blocks_in inner))))))"

definition message_content :: "string \<Rightarrow> ResponsesContentPart list \<Rightarrow> to_responses_error + ResponsesInputItem" where
  "message_content role parts = (case Marshal_parts parts of None \<Rightarrow> Inl MarshalInput
     | Some content \<Rightarrow> Inr (zeroItem\<lparr>ri_Type := ''message'', ri_Role := role, ri_Content := content\<rparr>))"

definition result_item :: "AnthropicContentBlock \<Rightarrow> ResponsesInputItem" where
  "result_item b = zeroItem\<lparr>ri_Type := ''function_call_output'', ri_CallID := toResponsesCallID (acb_ToolUseID b),
     ri_Output := fst (convertToolResultOutput b)\<rparr>"

definition block_parts :: "AnthropicContentBlock \<Rightarrow> ResponsesContentPart list" where
  "block_parts b =
     (if acb_Type b = ''text'' then (if acb_Text b \<noteq> [] then [input_text_part (acb_Text b)] else [])
      else if acb_Type b = ''image'' then image_parts b else [])"

definition user_items :: "AnthropicContentBlock list \<Rightarrow> to_responses_error + ResponsesInputItem list" where
  "user_items blocks =
     (let results = filter is_tool_result blocks;
          parts = concat (map block_parts blocks) @ concat (map (\<lambda>b. snd (convertToolResultOutput b)) results)
      in if parts = [] then Inr (map result_item results)
         else map_sum id (\<lambda>m. map result_item results @ [m]) (message_content ''user'' parts))"

definition anthropicUserToResponses :: "string \<Rightarrow> to_responses_error + ResponsesInputItem list" where
  "anthropicUserToResponses raw =
     (case Unmarshal_string raw of
        Some s \<Rightarrow> map_sum id (\<lambda>m. [m]) (message_content ''user'' [input_text_part s])
      | None \<Rightarrow> (case Unmarshal_blocks raw of None \<Rightarrow> Inl DecodeContent | Some bs \<Rightarrow> user_items (blocks_in bs)))"

definition extractAnthropicTextFromBlocks :: "AnthropicContentBlock list \<Rightarrow> string" where
  "extractAnthropicTextFromBlocks blocks =
     Join (map acb_Text (filter (\<lambda>b. acb_Type b = ''text'' \<and> acb_Text b \<noteq> []) blocks)) [CHR 0x0A, CHR 0x0A]"

definition reasoning_items :: "AnthropicContentBlock \<Rightarrow> ResponsesInputItem list" where
  "reasoning_items b =
     (if acb_Type b \<noteq> ''thinking'' then []
      else let sig = TrimSpace (acb_Signature b) in
        if sig = [] \<or> HasPrefix sig ''gAAAA'' then []
        else [zeroItem\<lparr>ri_Type := ''reasoning'', ri_EncryptedContent := sig\<rparr>])"

definition call_item :: "AnthropicContentBlock \<Rightarrow> ResponsesInputItem" where
  "call_item b = zeroItem\<lparr>ri_Type := ''function_call'', ri_CallID := toResponsesCallID (acb_ID b), ri_Name := acb_Name b,
     ri_Arguments := (if acb_Input b \<noteq> [] then acb_Input b else ''{}'')\<rparr>"

definition output_text_part :: "string \<Rightarrow> ResponsesContentPart" where
  "output_text_part t = zeroPart\<lparr>rcp_Type := ''output_text'', rcp_Text := t\<rparr>"

definition assistant_items :: "AnthropicContentBlock list \<Rightarrow> to_responses_error + ResponsesInputItem list" where
  "assistant_items blocks =
     (let reasoning = concat (map reasoning_items blocks);
          t = extractAnthropicTextFromBlocks blocks;
          tool_calls = map call_item (filter is_tool_use blocks)
      in if t = [] then Inr (reasoning @ tool_calls)
         else map_sum id (\<lambda>m. reasoning @ [m] @ tool_calls) (message_content ''assistant'' [output_text_part t]))"

definition anthropicAssistantToResponses :: "string \<Rightarrow> to_responses_error + ResponsesInputItem list" where
  "anthropicAssistantToResponses raw =
     (case Unmarshal_string raw of
        Some s \<Rightarrow> map_sum id (\<lambda>m. [m]) (message_content ''assistant'' [output_text_part s])
      | None \<Rightarrow> (case Unmarshal_blocks raw of None \<Rightarrow> Inl DecodeContent | Some bs \<Rightarrow> assistant_items (blocks_in bs)))"

definition anthropicMsgToResponsesItems :: "AnthropicMessage \<Rightarrow> to_responses_error + ResponsesInputItem list" where
  "anthropicMsgToResponsesItems m =
     (if am_Role m = ''user'' then anthropicUserToResponses (am_Content m)
      else if am_Role m = ''assistant'' then anthropicAssistantToResponses (am_Content m)
      else anthropicUserToResponses (am_Content m))"

fun messages_items :: "AnthropicMessage list \<Rightarrow> to_responses_error + ResponsesInputItem list" where
  "messages_items [] = Inr []"
| "messages_items (m # ms) = (case anthropicMsgToResponsesItems m of Inl e \<Rightarrow> Inl e
     | Inr items \<Rightarrow> map_sum id (\<lambda>out. items @ out) (messages_items ms))"

definition system_items :: "string \<Rightarrow> to_responses_error + ResponsesInputItem list" where
  "system_items system =
     (if system = [] then Inr []
      else case parseAnthropicSystemContentParts system of Inl e \<Rightarrow> Inl e
      | Inr parts \<Rightarrow> Inr (if parts = [] then []
          else [zeroItem\<lparr>ri_Type := ''message'', ri_Role := ''developer'', ri_Content := ignore_error (Marshal_parts parts)\<rparr>]))"

definition convertAnthropicToResponsesInput :: "string \<Rightarrow> AnthropicMessage list \<Rightarrow> to_responses_error + ResponsesInputItem list" where
  "convertAnthropicToResponsesInput system msgs = (case system_items system of Inl e \<Rightarrow> Inl e
     | Inr sys \<Rightarrow> map_sum id (\<lambda>out. sys @ out) (messages_items msgs))"

section \<open>Tools and tool choice\<close>

definition normalizeToolParameters :: "string \<Rightarrow> string" where
  "normalizeToolParameters schema =
     (if schema = [] \<or> schema = ''null'' then empty_object_schema
      else case Unmarshal_object schema of None \<Rightarrow> schema
      | Some m \<Rightarrow>
        if map_of m ''type'' \<noteq> Some (JStr ''object'') then schema
        else if map_of m ''properties'' \<noteq> None then schema
        else (case Marshal_map (AList.update ''properties'' (JObj []) m) of None \<Rightarrow> schema | Some v \<Rightarrow> print_json v))"

definition convert_anthropic_tool :: "AnthropicTool \<Rightarrow> ResponsesTool" where
  "convert_anthropic_tool t =
     (if HasPrefix (at_Type t) ''web_search'' then ResponsesTool ''web_search'' [] [] [] None [] [] [] [] [] [] None None
      else ResponsesTool ''function'' (at_Name t) (at_Description t) (normalizeToolParameters (at_InputSchema t)) (Some False)
        [] [] [] [] [] [] None None)"

definition convertAnthropicToolsToResponses :: "AnthropicTool list \<Rightarrow> ResponsesTool list" where
  "convertAnthropicToolsToResponses tools = map convert_anthropic_tool tools"

definition anthropic_choice_fields :: "(string \<times> string) field_table" where
  "anthropic_choice_fields =
     [(''type'', string_into (\<lambda>s (t, n). (s, n))), (''name'', string_into (\<lambda>s (t, n). (t, s)))]"

definition convertAnthropicToolChoiceToResponses :: "string \<Rightarrow> string option" where
  "convertAnthropicToolChoiceToResponses raw =
     (case Unmarshal_struct anthropic_choice_fields ([], []) raw of None \<Rightarrow> None
      | Some (typ, name) \<Rightarrow> Some (
          if typ = ''auto'' then Marshal_string ''auto''
          else if typ = ''any'' then Marshal_string ''required''
          else if typ = ''none'' then Marshal_string ''none''
          else if typ = ''tool''
          then Marshal_object [(''type'', JStr (enc_string ''function'')), (''name'', JStr (enc_string name))]
          else raw))"

section \<open>Effort and model generations\<close>

definition mapAnthropicEffortToResponses :: "string \<Rightarrow> string" where
  "mapAnthropicEffortToResponses effort = (if effort = ''max'' then ''xhigh'' else effort)"

definition anthropicReasoningEffort :: "AnthropicRequest \<Rightarrow> string" where
  "anthropicReasoningEffort req =
     (if (case aq_Thinking req of None \<Rightarrow> False | Some t \<Rightarrow> ath_Type t = ''disabled'') then ''none''
      else mapAnthropicEffortToResponses
        (case aq_OutputConfig req of None \<Rightarrow> ''medium'' | Some c \<Rightarrow> if aoc_Effort c \<noteq> [] then aoc_Effort c else ''medium''))"

definition openAIModelGeneration :: "string \<Rightarrow> int option" where
  \<comment> \<open>\<open>None\<close> for a false second result; the digits are added up in an \<open>int\<close>\<close>
  "openAIModelGeneration model =
     (case CutPrefix (ToLower (TrimSpace model)) ''gpt-'' of (rest, ok) \<Rightarrow>
       if \<not> ok then None
       else let digits = takeWhile is_digit rest in
         if digits = [] then None
         else Some (foldl (\<lambda>major r. wrap64 (major * 10 + int (byte r - 48))) 0 digits))"

definition isReasoningModel :: "string \<Rightarrow> bool" where
  "isReasoningModel model \<longleftrightarrow>
     (case openAIModelGeneration model of None \<Rightarrow> False | Some major \<Rightarrow> major \<ge> 5) \<or> IsGPT6SolOrLunaModelSpelling model"

section \<open>The request\<close>

definition floored_tokens :: "int \<Rightarrow> int \<Rightarrow> int option" where
  "floored_tokens minOutputTokens maxTokens =
     (if maxTokens > 0 then Some (if maxTokens < minOutputTokens then minOutputTokens else maxTokens) else None)"

definition responses_effort :: "AnthropicRequest \<Rightarrow> string" where
  "responses_effort req =
     (let effort = anthropicReasoningEffort req in
      if (IsGPT61SolModelSpelling (aq_Model req) \<or> IsGPT61TerraModelSpelling (aq_Model req))
         \<and> (case aq_OutputConfig req of None \<Rightarrow> False | Some c \<Rightarrow> aoc_Effort c = ''max'') \<and> effort \<noteq> ''none''
      then ''max'' else effort)"

definition AnthropicToResponsesWithMinOutputTokens :: "AnthropicRequest \<Rightarrow> int \<Rightarrow> to_responses_error + ResponsesRequest" where
  "AnthropicToResponsesWithMinOutputTokens req minOutputTokens =
     (if \<not> ValidateGPT61SolReasoningEffort (aq_Model req) (anthropicReasoningEffort req)
      then Inl (EffortNotSupported (anthropicReasoningEffort req))
      else case convertAnthropicToResponsesInput (aq_System req) (aq_Messages req) of Inl e \<Rightarrow> Inl e
      | Inr input \<Rightarrow> (case Marshal_items input of None \<Rightarrow> Inl MarshalInput
        | Some inputJSON \<Rightarrow>
          let reasoning = isReasoningModel (aq_Model req); effort = responses_effort req;
              out = \<lparr>rq_PromptCacheOptions = [], rq_Model = aq_Model req, rq_Instructions = [], rq_Input = inputJSON,
                rq_MaxOutputTokens = floored_tokens minOutputTokens (aq_MaxTokens req),
                rq_Temperature = (if reasoning then None else aq_Temperature req),
                rq_TopP = (if reasoning then None else aq_TopP req), rq_Stream = aq_Stream req,
                rq_Tools = convertAnthropicToolsToResponses (aq_Tools req), rq_Include = [''reasoning.encrypted_content''],
                rq_Store = Some False, rq_ParallelToolCalls = Some True,
                rq_Reasoning = Some \<lparr>rre_Effort = effort, rre_Summary = (if effort \<noteq> ''none'' then ''auto'' else [])\<rparr>,
                rq_Text = Some \<lparr>rtx_Format = [], rtx_Verbosity = ''medium''\<rparr>, rq_ToolChoice = [], rq_ServiceTier = [],
                rq_PromptCacheKey = [], rq_PreviousResponseID = []\<rparr>
          in if aq_ToolChoice req = [] then Inr out
             else case convertAnthropicToolChoiceToResponses (aq_ToolChoice req) of
               None \<Rightarrow> Inl DecodeToolChoice | Some tc \<Rightarrow> Inr (out\<lparr>rq_ToolChoice := tc\<rparr>)))"

definition DefaultMinMaxOutputTokens :: int where
  "DefaultMinMaxOutputTokens = 128"

definition AnthropicToResponses :: "AnthropicRequest \<Rightarrow> to_responses_error + ResponsesRequest" where
  "AnthropicToResponses req = AnthropicToResponsesWithMinOutputTokens req DefaultMinMaxOutputTokens"

end
