(* ===== verification/AnthropicToResponsesRequestCorrect.thy ===== *)
theory AnthropicToResponsesRequestCorrect
  imports AnthropicToResponsesRequest ResponsesToAnthropicRequestCorrect
begin

text \<open>
  What an upstream reads from the request that \<open>AnthropicToResponses\<close> writes: the items and their parts decode to what
  was encoded (\<open>items_roundtrip\<close>), and the conversion back finds every call and every result.
\<close>

declare unquote.simps [simp del] body_ok.simps [simp del] valid_utf8.simps(2) [simp del]

section \<open>UTF-8 text in pieces\<close>

lemma rune_len_append:
  assumes "rune_len (c # cs) \<noteq> 0"
  shows "rune_len (c # cs @ q) = rune_len (c # cs)"
  using rune_len_spec(1) [OF refl assms] rune_len_spec(3) [OF refl assms, where q = "drop (rune_len (c # cs) - 1) cs @ q"]
  by (simp flip: append_assoc)

lemma rune_len_le: "rune_len (c # cs) \<noteq> 0 \<Longrightarrow> rune_len (c # cs) \<le> Suc (length cs)"
  using rune_len_spec(1) [OF refl, of c cs] by simp

lemma valid_utf8_append: "valid_utf8 a \<Longrightarrow> valid_utf8 b \<Longrightarrow> valid_utf8 (a @ b)"
proof (induction a rule: valid_utf8.induct)
  case (2 c cs)
  then show ?case
    using rune_len_append [of c cs b] rune_len_le [of c cs] by (simp add: valid_utf8.simps(2) Let_def)
qed simp

lemma rune_len_ascii_stop:
  assumes d: "byte d < 128" and n: "rune_len (c # cs @ d # q) \<noteq> 0"
  shows "rune_len (c # cs @ d # q) = rune_len (c # cs)"
proof -
  let ?n = "rune_len (c # cs @ d # q) - 1"
  have "?n \<le> length cs"
  proof (rule ccontr)
    assume "\<not> ?n \<le> length cs"
    then have "d \<in> set (take ?n (cs @ d # q))" by (cases "?n - length cs") auto
    then have "is_cont d" using rune_len_spec(2) [OF refl n] by blast
    with d show False by (simp add: is_cont_def)
  qed
  then show ?thesis using rune_len_spec(3) [OF refl n, where q = "drop ?n cs"] by simp
qed

lemma valid_utf8_split: "byte d < 128 \<Longrightarrow> valid_utf8 (a @ d # b) \<Longrightarrow> valid_utf8 a \<and> valid_utf8 b"
proof (induction a rule: valid_utf8.induct)
  case (2 c cs)
  then show ?case
    using rune_len_ascii_stop [of d c cs b] rune_len_le [of c cs] by (simp add: valid_utf8.simps(2) Let_def)
qed (simp add: valid_utf8_ascii)

lemma valid_utf8_Join: "valid_utf8 sep \<Longrightarrow> \<forall>x\<in>set xs. valid_utf8 x \<Longrightarrow> valid_utf8 (Join xs sep)"
  by (induction xs sep rule: Join.induct) (simp_all add: valid_utf8_append)

section \<open>Strings that are encoded, compacted and decoded\<close>

definition echo :: "string \<Rightarrow> string" where
  \<comment> \<open>a string as it comes back: invalid bytes are replaced\<close>
  "echo s = unquote (enc_string s)"

lemma echo_valid [simp]: "valid_utf8 s \<Longrightarrow> echo s = s"
  by (simp add: echo_def unquote_enc_string)

lemma echo_Nil [simp]: "echo [] = []"
  by (simp add: echo_def unquote.simps(1))

definition compact_members :: "(string \<times> json) list \<Rightarrow> (string \<times> json) list" where
  "compact_members ms = map (\<lambda>kv. (compact_body (fst kv), compact_json (snd kv))) ms"

lemma compact_members_simps [simp]:
  "compact_members [] = []" "compact_members (xs @ ys) = compact_members xs @ compact_members ys"
  "compact_json (JObj ms) = JObj (compact_members ms)"
  by (simp_all add: compact_members_def)

declare compact_json.simps(3) [simp del]

text \<open>Writing a string member, compacted or not, and reading it into its field.\<close>

lemma decode_echo:
  assumes "set_field fs (unquote n) = string_into upd"
  shows "decode_members fs (string_field n s) b = Some (upd (echo s) b)"
    and "upd [] b = b \<Longrightarrow> decode_members fs (omit_string n s) b = Some (upd (echo s) b)"
    and "body_ok n \<Longrightarrow> decode_members fs (compact_members (string_field n s)) b = Some (upd (echo s) b)"
    and "body_ok n \<Longrightarrow> upd [] b = b \<Longrightarrow> decode_members fs (compact_members (omit_string n s)) b = Some (upd (echo s) b)"
  using assms
  by (simp_all add: omit_string_def string_field_def string_into_def echo_def compact_members_def unquote_compact unquote.simps(1))

section \<open>Content parts\<close>

lemma part_names_folded: "fold_name ''prompt_cache_breakpoint'' = ''PROMPT_CACHE_BREAKPOINT''" "fold_name ''refusal'' = ''REFUSAL''"
  "fold_name ''image_url'' = ''IMAGE_URL''" "fold_name ''filename'' = ''FILENAME''" "fold_name ''file_data'' = ''FILE_DATA''"
  "fold_name ''file_id'' = ''FILE_ID''"
  by code_simp+

lemma part_names_unquoted: "unquote ''refusal'' = ''refusal''" "unquote ''image_url'' = ''image_url''"
  "unquote ''filename'' = ''filename''" "unquote ''file_data'' = ''file_data''" "unquote ''file_id'' = ''file_id''"
  by code_simp+

lemma part_names_ok: "body_ok ''refusal''" "body_ok ''image_url''" "body_ok ''filename''" "body_ok ''file_data''" "body_ok ''file_id''"
  by code_simp+

lemma set_part_field:
  "set_field ResponsesContentPart_fields ''type'' = string_into (\<lambda>s p. p\<lparr>rcp_Type := s\<rparr>)"
  "set_field ResponsesContentPart_fields ''text'' = string_into (\<lambda>s p. p\<lparr>rcp_Text := s\<rparr>)"
  "set_field ResponsesContentPart_fields ''refusal'' = string_into (\<lambda>s p. p\<lparr>rcp_Refusal := s\<rparr>)"
  "set_field ResponsesContentPart_fields ''image_url'' = string_into (\<lambda>s p. p\<lparr>rcp_ImageURL := s\<rparr>)"
  "set_field ResponsesContentPart_fields ''filename'' = string_into (\<lambda>s p. p\<lparr>rcp_Filename := s\<rparr>)"
  "set_field ResponsesContentPart_fields ''file_data'' = string_into (\<lambda>s p. p\<lparr>rcp_FileData := s\<rparr>)"
  "set_field ResponsesContentPart_fields ''file_id'' = string_into (\<lambda>s p. p\<lparr>rcp_FileID := s\<rparr>)"
  by (intro ext; simp add: ResponsesContentPart_fields_def names_folded part_names_folded)+

lemmas decode_part_string =
  decode_echo [where fs = ResponsesContentPart_fields and upd = "\<lambda>s p. p\<lparr>rcp_Type := s\<rparr>"]
  decode_echo [where fs = ResponsesContentPart_fields and upd = "\<lambda>s p. p\<lparr>rcp_Text := s\<rparr>"]
  decode_echo [where fs = ResponsesContentPart_fields and upd = "\<lambda>s p. p\<lparr>rcp_Refusal := s\<rparr>"]
  decode_echo [where fs = ResponsesContentPart_fields and upd = "\<lambda>s p. p\<lparr>rcp_ImageURL := s\<rparr>"]
  decode_echo [where fs = ResponsesContentPart_fields and upd = "\<lambda>s p. p\<lparr>rcp_Filename := s\<rparr>"]
  decode_echo [where fs = ResponsesContentPart_fields and upd = "\<lambda>s p. p\<lparr>rcp_FileData := s\<rparr>"]
  decode_echo [where fs = ResponsesContentPart_fields and upd = "\<lambda>s p. p\<lparr>rcp_FileID := s\<rparr>"]

definition part_ok :: "ResponsesContentPart \<Rightarrow> bool" where
  "part_ok p \<longleftrightarrow> rcp_PromptCacheBreakpoint p = [] \<and> valid_utf8 (rcp_Type p) \<and> valid_utf8 (rcp_Text p) \<and> valid_utf8 (rcp_Refusal p)
     \<and> valid_utf8 (rcp_ImageURL p) \<and> valid_utf8 (rcp_Filename p) \<and> valid_utf8 (rcp_FileData p) \<and> valid_utf8 (rcp_FileID p)"

definition part_members :: "ResponsesContentPart \<Rightarrow> (string \<times> json) list" where
  "part_members p = string_field ''type'' (rcp_Type p)
       @ omit_string ''text'' (rcp_Text p) @ omit_string ''refusal'' (rcp_Refusal p) @ omit_string ''image_url'' (rcp_ImageURL p)
       @ omit_string ''filename'' (rcp_Filename p) @ omit_string ''file_data'' (rcp_FileData p) @ omit_string ''file_id'' (rcp_FileID p)"

lemma encode_part: "part_ok p \<Longrightarrow> ResponsesContentPart_json p = Some (JObj (part_members p))"
  by (simp add: ResponsesContentPart_json_def part_members_def part_ok_def omit_raw_def)

lemma decode_part: "part_ok p \<Longrightarrow> decode_struct ResponsesContentPart_fields zeroPart (compact_json (JObj (part_members p))) = Some p"
  by (cases p) (simp add: decode_struct_def part_members_def part_ok_def decode_members_append decode_part_string set_part_field
      names_unquoted part_names_unquoted names_ok part_names_ok zeroPart_def)

lemma part_members_ok: "\<forall>m\<in>set (part_members p). member_ok m"
  unfolding part_members_def by (intro members_combine members_ok names_ok part_names_ok)

lemma JArr_ok:
  assumes "\<forall>v\<in>set vs. wf_json v \<and> json_depth v + 1 \<le> max_depth"
  shows "wf_json (JArr vs)" "json_depth (JArr vs) \<le> max_depth"
proof -
  have "\<forall>v\<in>set vs. json_depth v \<le> max_depth - 1" using assms by fastforce
  then have "Max (insert 0 (set (map json_depth vs))) \<le> max_depth - 1" by (subst Max_le_iff) auto
  then show "json_depth (JArr vs) \<le> max_depth" by (simp add: max_depth_def)
qed (use assms in simp)

lemma part_depth: "json_depth (JObj (part_members p)) \<le> 1"
  by (auto simp: part_members_def string_field_def omit_string_def)

lemma parts_depth: "json_depth (JArr (map (\<lambda>p. JObj (part_members p)) ps)) \<le> 2"
proof -
  have "\<forall>v\<in>set (map (\<lambda>p. JObj (part_members p)) ps). json_depth v \<le> 1" using part_depth by fastforce
  then have "Max (insert 0 (set (map json_depth (map (\<lambda>p. JObj (part_members p)) ps)))) \<le> 1" by (subst Max_le_iff) auto
  then show ?thesis by simp
qed

lemma parts_content:
  assumes "\<forall>p\<in>set ps. part_ok p"
  obtains c where "Marshal_parts ps = Some c" "raw_ok c" "compacted c \<noteq> []" "Unmarshal_string (compacted c) = None"
    "Unmarshal_parts (compacted c) = Some (Some ps)"
proof -
  let ?v = "JArr (map (\<lambda>p. JObj (part_members p)) ps)"
  have wf: "wf_json ?v" using part_members_ok JObj_ok(1) by fastforce
  have d: "json_depth ?v + 2 \<le> max_depth" using parts_depth [of ps] by (simp add: max_depth_def)
  have p: "parse_json (print_json ?v) = Some ?v" using wf d by (intro parse_print) auto
  have q: "parse_json (print_json (compact_json ?v)) = Some (compact_json ?v)"
    using wf d by (intro parse_print) (simp_all only: wf_compact depth_compact)
  have c: "compacted (print_json ?v) = print_json (compact_json ?v)" using p by (simp add: compacted_def)
  have "those (map ResponsesContentPart_json ps) = Some (map (\<lambda>p. JObj (part_members p)) ps)"
    using assms encode_part by (intro those_map_Some) simp
  then have "Marshal_parts ps = Some (print_json ?v)" by (simp add: Marshal_parts_def Marshal_slice_def)
  moreover have "raw_ok (print_json ?v)" using wf d by (intro raw_into_ok)
  moreover have "compacted (print_json ?v) \<noteq> []" unfolding c using wf by (intro print_json_not_Nil wf_compact)
  moreover have "Unmarshal_string (compacted (print_json ?v)) = None" unfolding c Unmarshal_string_def q by simp
  moreover have "those (map (decode_struct ResponsesContentPart_fields zeroPart) (map (\<lambda>p. compact_json (JObj (part_members p))) ps)) = Some ps"
    using assms decode_part those_map_Some [of ps "\<lambda>p. decode_struct ResponsesContentPart_fields zeroPart (compact_json (JObj (part_members p)))" "\<lambda>p. p"]
    by (simp add: comp_def)
  then have "Unmarshal_parts (compacted (print_json ?v)) = Some (Some ps)"
    unfolding c Unmarshal_parts_def Unmarshal_slice_def q by (simp add: decode_slice_def comp_def)
  ultimately show ?thesis by (rule that)
qed

section \<open>Input items\<close>

lemma item_names_folded: "fold_name ''role'' = ''ROLE''" "fold_name ''encrypted_content'' = ''ENCRYPTED_CONTENT''"
  "fold_name ''call_id'' = ''CALL_ID''" "fold_name ''arguments'' = ''ARGUMENTS''" "fold_name ''output'' = ''OUTPUT''"
  by code_simp+

lemma item_names_unquoted: "unquote ''role'' = ''role''" "unquote ''encrypted_content'' = ''encrypted_content''"
  "unquote ''call_id'' = ''call_id''" "unquote ''arguments'' = ''arguments''" "unquote ''output'' = ''output''"
  by code_simp+

lemma item_names_ok: "body_ok ''role''" "body_ok ''encrypted_content''" "body_ok ''call_id''" "body_ok ''arguments''" "body_ok ''output''"
  by code_simp+

lemma set_item_field:
  "set_field wire_fields ''type'' = string_into (\<lambda>s (i, r). (i\<lparr>ri_Type := s\<rparr>, r))"
  "set_field wire_fields ''role'' = string_into (\<lambda>s (i, r). (i\<lparr>ri_Role := s\<rparr>, r))"
  "set_field wire_fields ''content'' = raw_into (\<lambda>s (i, r). (i\<lparr>ri_Content := s\<rparr>, r))"
  "set_field wire_fields ''encrypted_content'' = string_into (\<lambda>s (i, r). (i\<lparr>ri_EncryptedContent := s\<rparr>, r))"
  "set_field wire_fields ''call_id'' = string_into (\<lambda>s (i, r). (i\<lparr>ri_CallID := s\<rparr>, r))"
  "set_field wire_fields ''name'' = string_into (\<lambda>s (i, r). (i\<lparr>ri_Name := s\<rparr>, r))"
  "set_field wire_fields ''arguments'' = string_into (\<lambda>s (i, r). (i\<lparr>ri_Arguments := s\<rparr>, r))"
  "set_field wire_fields ''id'' = string_into (\<lambda>s (i, r). (i\<lparr>ri_ID := s\<rparr>, r))"
  "set_field wire_fields ''output'' = raw_into (\<lambda>s (i, r). (i, s))"
  by (intro ext; simp add: wire_fields_def names_folded item_names_folded)+

lemmas decode_item_string =
  decode_echo(2) [where fs = wire_fields and upd = "\<lambda>s (i, r). (i\<lparr>ri_Type := s\<rparr>, r)"]
  decode_echo(2) [where fs = wire_fields and upd = "\<lambda>s (i, r). (i\<lparr>ri_Role := s\<rparr>, r)"]
  decode_echo(2) [where fs = wire_fields and upd = "\<lambda>s (i, r). (i\<lparr>ri_EncryptedContent := s\<rparr>, r)"]
  decode_echo(2) [where fs = wire_fields and upd = "\<lambda>s (i, r). (i\<lparr>ri_CallID := s\<rparr>, r)"]
  decode_echo(2) [where fs = wire_fields and upd = "\<lambda>s (i, r). (i\<lparr>ri_Name := s\<rparr>, r)"]
  decode_echo(2) [where fs = wire_fields and upd = "\<lambda>s (i, r). (i\<lparr>ri_Arguments := s\<rparr>, r)"]
  decode_echo(2) [where fs = wire_fields and upd = "\<lambda>s (i, r). (i\<lparr>ri_ID := s\<rparr>, r)"]

lemma decode_output:
  "decode_members wire_fields (omit_string ''output'' s) (i, []) = Some (i, if s = [] then [] else Marshal_string s)"
  by (simp add: omit_string_def string_field_def item_names_unquoted set_item_field raw_into_def Marshal_string_def)

lemma TrimSpace_quoted: "TrimSpace (dquote # b @ [dquote]) = dquote # b @ [dquote]"
proof -
  have front: "trim_front space_encodings (dquote # q) = dquote # q" for q
    by (simp add: match_len_def space_encodings_def)
  have rear: "trim_front (map rev space_encodings) (dquote # q) = dquote # q" for q
    by (simp add: match_len_def space_encodings_def)
  show ?thesis unfolding TrimSpace_def front using rear [of "rev (dquote # b)"] by simp
qed

definition echo_item :: "ResponsesInputItem \<Rightarrow> ResponsesInputItem" where
  "echo_item i = \<lparr>ri_Type = echo (ri_Type i), ri_Role = echo (ri_Role i), ri_Content = compacted (ri_Content i),
     ri_EncryptedContent = echo (ri_EncryptedContent i), ri_CallID = echo (ri_CallID i), ri_Name = echo (ri_Name i),
     ri_Arguments = echo (ri_Arguments i), ri_ID = echo (ri_ID i), ri_Output = echo (ri_Output i), ri_outputRaw = []\<rparr>"

lemma item_roundtrip:
  assumes "raw_ok (ri_Content i)"
  obtains v where "ResponsesInputItem_json i = Some v" "wf_json v" "json_depth v + 1 \<le> max_depth"
    "ResponsesInputItem_UnmarshalJSON v = Some (echo_item i)"
proof -
  obtain c where c: "omit_raw ''content'' (ri_Content i) = Some c"
      "\<And>fs upd (b::ResponsesInputItem \<times> string). set_field fs (unquote ''content'') = raw_into upd \<Longrightarrow> upd [] b = b \<Longrightarrow>
        decode_members fs c b = Some (upd (compacted (ri_Content i)) b)"
      "\<forall>m\<in>set c. fst m = ''content'' \<and> wf_json (snd m) \<and> json_depth (snd m) + 2 \<le> max_depth"
    by (rule omit_raw_ok [OF assms, where n = "''content''"]) (rule that)
  define ms where "ms = omit_string ''type'' (ri_Type i) @ omit_string ''role'' (ri_Role i)
       @ c @ omit_string ''encrypted_content'' (ri_EncryptedContent i) @ omit_string ''call_id'' (ri_CallID i)
       @ omit_string ''name'' (ri_Name i) @ omit_string ''arguments'' (ri_Arguments i) @ omit_string ''id'' (ri_ID i)
       @ omit_string ''output'' (ri_Output i)"
  have "\<forall>m\<in>set c. member_ok m" using c(3) by (simp add: member_ok_def names_ok)
  then have "\<forall>m\<in>set ms. member_ok m" unfolding ms_def by (intro members_combine members_ok names_ok item_names_ok)
  note JObj_ok [OF this]
  moreover have "ResponsesInputItem_json i = Some (JObj ms)" by (simp add: ResponsesInputItem_json_def c(1) ms_def)
  moreover have "decode_struct wire_fields (zeroItem, []) (JObj ms) =
      Some (echo_item i\<lparr>ri_Output := []\<rparr>, if ri_Output i = [] then [] else Marshal_string (ri_Output i))"
    by (simp add: decode_struct_def ms_def decode_members_append decode_item_string decode_output c(2) set_item_field
        names_unquoted item_names_unquoted zeroItem_def echo_item_def)
  then have "ResponsesInputItem_UnmarshalJSON (JObj ms) = Some (echo_item i)"
    by (simp add: ResponsesInputItem_UnmarshalJSON_def Let_def Marshal_string_def TrimSpace_quoted)
       (simp add: Unmarshal_string_def parse_Marshal_string [unfolded Marshal_string_def] echo_item_def echo_def unquote.simps(1))
  ultimately show ?thesis using that by blast
qed

lemma items_roundtrip:
  assumes "\<forall>i\<in>set items. raw_ok (ri_Content i)" "items \<noteq> []"
  obtains raw where "Marshal_items items = Some raw" "Unmarshal_string raw = None" "Unmarshal_items raw = Some (map echo_item items)"
proof -
  have "\<forall>i\<in>set items. \<exists>v. ResponsesInputItem_json i = Some v \<and> wf_json v \<and> json_depth v + 1 \<le> max_depth
      \<and> ResponsesInputItem_UnmarshalJSON v = Some (echo_item i)"
    using assms(1) by (blast elim: item_roundtrip)
  then obtain f where f: "\<And>i. i \<in> set items \<Longrightarrow> ResponsesInputItem_json i = Some (f i) \<and> wf_json (f i)
      \<and> json_depth (f i) + 1 \<le> max_depth \<and> ResponsesInputItem_UnmarshalJSON (f i) = Some (echo_item i)"
    by metis
  let ?v = "JArr (map f items)"
  have "\<forall>v\<in>set (map f items). wf_json v \<and> json_depth v + 1 \<le> max_depth" using f by auto
  note p = parse_print [OF JArr_ok [OF this]]
  have "those (map ResponsesInputItem_json items) = Some (map f items)" using f by (intro those_map_Some) simp
  then have "Marshal_items items = Some (print_json ?v)" using assms(2) by (simp add: Marshal_items_def Marshal_slice_def)
  moreover have "Unmarshal_string (print_json ?v) = None" unfolding Unmarshal_string_def p by simp
  moreover have "those (map ResponsesInputItem_UnmarshalJSON (map f items)) = Some (map echo_item items)"
    using those_map_Some [of items "ResponsesInputItem_UnmarshalJSON \<circ> f" echo_item] f by simp
  then have "Unmarshal_items (print_json ?v) = Some (map echo_item items)" unfolding Unmarshal_items_def p by simp
  ultimately show ?thesis by (rule that)
qed

section \<open>What the converter writes\<close>

inductive produced :: "ResponsesInputItem \<Rightarrow> bool" where
  call: "block_ok b \<Longrightarrow> valid_utf8 (acb_Input b) \<Longrightarrow> produced (call_item b)"
| result: "block_ok b \<Longrightarrow> produced (result_item b)"
| reasoning: "produced (zeroItem\<lparr>ri_Type := ''reasoning'', ri_EncryptedContent := sig\<rparr>)"
| message: "role \<in> {''user'', ''assistant'', ''developer''} \<Longrightarrow> \<forall>p\<in>set ps. part_ok p \<Longrightarrow> Marshal_parts ps = Some c \<Longrightarrow>
    produced (zeroItem\<lparr>ri_Type := ''message'', ri_Role := role, ri_Content := c\<rparr>)"

definition item_sigs :: "ResponsesInputItem \<Rightarrow> (string \<times> string \<times> json option) list" where
  "item_sigs i = (if ri_Type i = ''function_call''
     then [(fromResponsesCallIDToAnthropic (ri_CallID i), ri_Name i, input_value (ri_Arguments i))] else [])"

definition item_answers :: "ResponsesInputItem \<Rightarrow> string list" where
  "item_answers i = (if ri_Type i = ''function_call_output'' then [fromResponsesCallIDToAnthropic (ri_CallID i)] else [])"

lemma zeroItem_sel [simp]: "ri_Type zeroItem = []" "ri_Role zeroItem = []" "ri_Content zeroItem = []" "ri_EncryptedContent zeroItem = []"
  "ri_CallID zeroItem = []" "ri_Name zeroItem = []" "ri_Arguments zeroItem = []" "ri_ID zeroItem = []" "ri_Output zeroItem = []"
  "ri_outputRaw zeroItem = []"
  by (simp_all add: zeroItem_def)

lemma produced_raw_ok: "produced i \<Longrightarrow> raw_ok (ri_Content i)"
proof (induction rule: produced.induct)
  case (message role ps c)
  then show ?case by (auto elim: parts_content)
qed (simp_all add: call_item_def result_item_def raw_ok_def)

lemma item_types_valid: "valid_utf8 ''function_call''" "valid_utf8 ''function_call_output''" "valid_utf8 ''reasoning''" "valid_utf8 ''message''"
  "valid_utf8 ''user''" "valid_utf8 ''assistant''" "valid_utf8 ''developer''" "valid_utf8 ''image''" "valid_utf8 ''document''"
  "valid_utf8 ''base64''" "valid_utf8 ''(empty)''" "valid_utf8 ''{}''" "valid_utf8 [CHR 0x0A, CHR 0x0A]" "valid_utf8 ''input_text''"
  "valid_utf8 ''output_text''" "valid_utf8 ''input_image''" "valid_utf8 ''data:''" "valid_utf8 '';base64,''" "valid_utf8 ''image/png''"
  "valid_utf8 ''toolu_''" "valid_utf8 []"
  by code_simp+

lemma valid_utf8_prefixed: "valid_utf8 (''fc_'' @ s) = valid_utf8 s" "valid_utf8 (''data:'' @ s) = valid_utf8 s" "valid_utf8 (''base64,'' @ s) = valid_utf8 s"
  by (simp_all add: valid_utf8_ascii byte_def)

lemma CutPrefix_cases: "CutPrefix s p = (t, ok) \<Longrightarrow> if ok then s = p @ t else t = s"
  by (auto simp: CutPrefix_def HasPrefix_iff split: if_splits)

lemma fromResponses_valid:
  assumes "valid_utf8 i"
  shows "valid_utf8 (fromResponsesCallIDToAnthropic i)"
proof -
  obtain after ok where c: "CutPrefix i ''fc_'' = (after, ok)" by fastforce
  have "valid_utf8 after" if ok using CutPrefix_cases [OF c] that assms valid_utf8_prefixed(1) by metis
  moreover have "valid_utf8 (''toolu_'' @ i)" by (rule valid_utf8_append [OF item_types_valid(20) assms])
  ultimately show ?thesis
    using assms unfolding fromResponsesCallIDToAnthropic_def c prod.case by presburger
qed

text \<open>The converted calls and results.\<close>

lemma braces: "parse_json ''{}'' = Some (JObj [])"
  by code_simp

lemma string_raw_ok: "raw_ok (Marshal_string s)"
  by (simp add: raw_ok_def parse_Marshal_string max_depth_def)

lemma call_message:
  assumes "block_ok b"
  shows "all_call_sigs [function_call_message (call_item b)] = item_sigs (call_item b)"
proof -
  let ?args = "if acb_Input b \<noteq> [] then acb_Input b else ''{}''"
  define b' where "b' = zeroBlock\<lparr>acb_Type := ''tool_use'', acb_ID := fromResponsesCallIDToAnthropic (acb_ID b),
    acb_Name := acb_Name b, acb_Input := ?args\<rparr>"
  have "raw_ok ?args" using assms by (auto simp: block_ok_iff raw_ok_def braces max_depth_def)
  then have ok: "block_ok b'"
    using assms fromResponses_valid by (simp add: b'_def block_ok_iff types_valid zeroBlock_def raw_ok_def)
  have m: "function_call_message (call_item b) = anthropicMessageFromBlocks ''assistant'' [b']"
    by (simp add: function_call_message_def call_item_def anthropicMessageFromBlocks_def only_block_def b'_def toResponsesCallID_def)
  have "blocks_of (function_call_message (call_item b)) = [canon b']" unfolding m using ok by simp
  moreover have "call_sig (canon b') = (fromResponsesCallIDToAnthropic (acb_ID b), acb_Name b, input_value ?args)"
    using call_sig_canon [OF ok] by (simp add: call_sig_def b'_def)
  moreover have "is_tool_use b'" by (simp add: is_tool_use_def b'_def)
  ultimately show ?thesis
    by (simp add: all_call_sigs_def call_sigs_def item_sigs_def m) (simp add: call_item_def toResponsesCallID_def)
qed

lemma result_message:
  assumes "valid_utf8 (ri_CallID i)" "ri_outputRaw i = []"
  shows "all_answers [function_output_message i] = [fromResponsesCallIDToAnthropic (ri_CallID i)]"
proof -
  define b' where "b' = zeroBlock\<lparr>acb_Type := ''tool_result'', acb_ToolUseID := fromResponsesCallIDToAnthropic (ri_CallID i),
    acb_Content := responsesFunctionOutputToAnthropicContent i\<rparr>"
  have "raw_ok (responsesFunctionOutputToAnthropicContent i)"
    using assms(2) by (simp add: responsesFunctionOutputToAnthropicContent_def string_raw_ok)
  then have ok: "block_ok b'"
    using assms(1) fromResponses_valid by (simp add: b'_def block_ok_iff types_valid zeroBlock_def raw_ok_def)
  have m: "function_output_message i = anthropicMessageFromBlocks ''user'' [b']"
    by (simp add: function_output_message_def anthropicMessageFromBlocks_def only_block_def b'_def)
  have "blocks_of (function_output_message i) = [canon b']" unfolding m using ok by simp
  moreover have "is_tool_result b'" by (simp add: is_tool_result_def b'_def)
  ultimately show ?thesis by (simp add: all_answers_def answers_def m b'_def)
qed

text \<open>A converted message has neither calls nor results.\<close>

definition plain_block :: "AnthropicContentBlock \<Rightarrow> bool" where
  "plain_block b \<longleftrightarrow> block_ok b \<and> \<not> is_tool_use b \<and> \<not> is_tool_result b"

lemma plain_text: "valid_utf8 t \<Longrightarrow> plain_block (text_block t)"
  using text_block_ok [of t] by (simp add: plain_block_def is_tool_use_def is_tool_result_def text_block_def)

lemma IndexByte_split: "IndexByte s c = Some n \<Longrightarrow> s = take n s @ c # drop (Suc n) s"
  by (induction s arbitrary: n) (auto split: if_splits)

lemma TrimPrefix_append: "HasPrefix s p \<Longrightarrow> s = p @ TrimPrefix s p"
  by (auto simp: TrimPrefix_def HasPrefix_iff)

lemma data_uri_source:
  assumes "dataURIToAnthropicImageSource uri = Some src" "valid_utf8 uri"
  shows "source_ok src"
proof -
  define rest where "rest = TrimPrefix uri ''data:''"
  obtain n where n: "HasPrefix uri ''data:''" "IndexByte rest (CHR '';'') = Some n" "HasPrefix (drop (n + 1) rest) ''base64,''"
      "src = \<lparr>ais_Type = ''base64'', ais_MediaType = take n rest, ais_Data = TrimPrefix (drop (n + 1) rest) ''base64,''\<rparr>"
    using assms(1) by (auto simp: dataURIToAnthropicImageSource_def Let_def rest_def split: if_splits option.splits)
  have "valid_utf8 rest" using assms(2) TrimPrefix_append [OF n(1)] valid_utf8_prefixed(2) rest_def by metis
  moreover have "rest = take n rest @ CHR '';'' # drop (n + 1) rest" using IndexByte_split [OF n(2)] by simp
  ultimately have v: "valid_utf8 (take n rest) \<and> valid_utf8 (drop (n + 1) rest)"
    using valid_utf8_split [of "CHR '';''" "take n rest" "drop (n + 1) rest"] by (simp add: byte_def)
  then have "valid_utf8 (TrimPrefix (drop (n + 1) rest) ''base64,'')"
    using TrimPrefix_append [OF n(3)] valid_utf8_prefixed(3) by metis
  with v n(4) show ?thesis by (simp add: source_ok_def item_types_valid)
qed

lemma plain_source:
  assumes "valid_utf8 uri" "typ \<in> {''image'', ''document''}" "b \<in> set (source_block typ (dataURIToAnthropicImageSource uri))"
  shows "plain_block b"
proof -
  obtain src where "dataURIToAnthropicImageSource uri = Some src" "b = zeroBlock\<lparr>acb_Type := typ, acb_Source := Some src\<rparr>"
    using assms(3) by (cases "dataURIToAnthropicImageSource uri") (auto simp: source_block_def)
  with assms(1,2) data_uri_source show ?thesis
    by (auto simp: plain_block_def block_ok_iff zeroBlock_def raw_ok_def is_tool_use_def is_tool_result_def item_types_valid)
qed

lemma plain_user_part: "part_ok p \<Longrightarrow> b \<in> set (user_part p) \<Longrightarrow> plain_block b"
  by (auto simp: user_part_def text_blocks_def part_ok_def plain_text dataURIToAnthropicFileSource_def
      intro: plain_source split: if_splits)

lemma plain_assistant_part: "part_ok p \<Longrightarrow> b \<in> set (assistant_part p) \<Longrightarrow> plain_block b"
  by (auto simp: assistant_part_def text_blocks_def part_ok_def plain_text split: if_splits)

lemma plain_message:
  assumes "\<forall>b\<in>set bs. plain_block b"
  obtains content where "marshalled bs = Inr content" "\<forall>r. all_call_sigs [\<lparr>am_Role = r, am_Content = content\<rparr>] = []"
    "\<forall>r. all_answers [\<lparr>am_Role = r, am_Content = content\<rparr>] = []"
proof -
  have ok: "\<forall>b\<in>set bs. block_ok b" using assms by (simp add: plain_block_def)
  then obtain raw where raw: "Marshal_blocks (Some bs) = Some raw" "Unmarshal_blocks raw = Some (Some (map canon bs))"
    using blocks_roundtrip by blast
  then have "blocks_of \<lparr>am_Role = r, am_Content = raw\<rparr> = map canon bs" for r
    by (simp add: blocks_of_def parseContentBlocks_def blocks_in_def)
  moreover have "filter is_tool_use (map canon bs) = []" "filter is_tool_result (map canon bs) = []"
    using assms unfolding filter_canon by (simp_all add: plain_block_def filter_empty_conv)
  ultimately show ?thesis
    using that [of raw] raw(1) by (simp add: marshalled_def all_call_sigs_def call_sigs_def all_answers_def answers_def del: filter_map)
qed

definition silent :: "request_error + AnthropicMessage list \<Rightarrow> bool" where
  \<comment> \<open>converted, without calls or results\<close>
  "silent r \<longleftrightarrow> (\<exists>ms. r = Inr ms \<and> all_call_sigs ms = [] \<and> all_answers ms = [])"

lemma no_messages [simp]: "all_call_sigs [] = []" "all_answers [] = []"
  by (simp_all add: all_call_sigs_def all_answers_def)

lemma silent_Nil [simp]: "silent (Inr [])"
  by (simp add: silent_def)

lemma empty_string_content: "anthropicContentIsEmpty (Marshal_string [])"
  using TrimSpace_quoted [of "[]"] by (simp add: anthropicContentIsEmpty_def Marshal_string_def)

lemma user_silent:
  assumes "raw \<noteq> []" "Unmarshal_string raw = None" "Unmarshal_parts raw = Some (Some ps)" "\<forall>p\<in>set ps. part_ok p"
  shows "silent (user_message raw)"
proof (cases "concat (map user_part ps) = []")
  case True
  with assms show ?thesis
    by (simp add: user_message_def convertResponsesUserToAnthropicContent_def parts_in_def empty_string_content)
next
  case False
  have "\<forall>b\<in>set (concat (map user_part ps)). plain_block b" using assms(4) plain_user_part by auto
  then obtain content where "marshalled (concat (map user_part ps)) = Inr content"
      "\<forall>r. all_call_sigs [\<lparr>am_Role = r, am_Content = content\<rparr>] = []" "\<forall>r. all_answers [\<lparr>am_Role = r, am_Content = content\<rparr>] = []"
    by (rule plain_message)
  with assms False show ?thesis
    by (auto simp: user_message_def convertResponsesUserToAnthropicContent_def parts_in_def silent_def Let_def)
qed

lemma assistant_silent:
  assumes "raw \<noteq> []" "Unmarshal_string raw = None" "Unmarshal_parts raw = Some (Some ps)" "\<forall>p\<in>set ps. part_ok p"
  shows "silent (assistant_message raw)"
proof -
  let ?bs = "let blocks = concat (map assistant_part ps) in if blocks = [] then [text_block []] else blocks"
  have "\<forall>b\<in>set ?bs. plain_block b" using assms(4) plain_assistant_part plain_text by (auto simp: Let_def)
  then obtain content where "marshalled ?bs = Inr content"
      "\<forall>r. all_call_sigs [\<lparr>am_Role = r, am_Content = content\<rparr>] = []" "\<forall>r. all_answers [\<lparr>am_Role = r, am_Content = content\<rparr>] = []"
    by (rule plain_message)
  with assms show ?thesis
    by (simp add: assistant_message_def convertResponsesAssistantToAnthropicContent_def parts_in_def silent_def Let_def)
qed

lemma convertToolResultOutput_valid: "valid_utf8 (fst (convertToolResultOutput b))"
proof -
  have e: "valid_utf8 (or_empty s)" if "valid_utf8 s" for s using that by (simp add: or_empty_def item_types_valid)
  have v: "valid_utf8 (acb_Text x)" if "Unmarshal_blocks raw = Some bs" "x \<in> set (blocks_in bs)" for raw bs x
    using that decode_blocks_ok [of raw] by (cases bs) (auto simp: blocks_in_def block_ok_iff)
  have "valid_utf8 (or_empty (Join (map acb_Text (filter P (blocks_in bs))) [CHR 0x0A, CHR 0x0A]))"
    if "Unmarshal_blocks raw = Some bs" for raw bs P
    using v [OF that] by (intro e valid_utf8_Join) (auto simp: item_types_valid)
  with e show ?thesis
    by (auto simp: convertToolResultOutput_def item_types_valid Unmarshal_string_valid split: option.split)
qed

lemma produced_messages:
  assumes "produced i"
  shows "\<exists>sys ms. item_messages False (echo_item i) = Inr (sys, ms) \<and> all_call_sigs ms = item_sigs i \<and> all_answers ms = item_answers i"
  using assms
proof (induction rule: produced.induct)
  case (call b)
  have "echo_item (call_item b) = call_item b"
    using call by (simp add: echo_item_def call_item_def block_ok_iff toResponsesCallID_def item_types_valid zeroItem_def)
  moreover have "item_messages False (call_item b) = Inr ([], [function_call_message (call_item b)])"
    by (simp add: item_messages_def call_item_def)
  moreover have "all_answers [function_call_message (call_item b)] = []" by (simp add: all_answers_def function_call_message_def)
  ultimately show ?case using call_message [OF call(1)] by (simp add: item_answers_def call_item_def)
next
  case (result b)
  have "echo_item (result_item b) = result_item b"
    using result convertToolResultOutput_valid [of b]
    by (simp add: echo_item_def result_item_def block_ok_iff toResponsesCallID_def item_types_valid zeroItem_def)
  moreover have "item_messages False (result_item b) = Inr ([], [function_output_message (result_item b)])"
    by (simp add: item_messages_def result_item_def)
  moreover have "all_call_sigs [function_output_message (result_item b)] = []" by (simp add: all_call_sigs_def function_output_message_def)
  moreover have "valid_utf8 (ri_CallID (result_item b))" using result by (simp add: result_item_def toResponsesCallID_def block_ok_iff)
  ultimately show ?case
    using result_message [of "result_item b"] by (simp add: item_answers_def item_sigs_def) (simp add: result_item_def)
next
  case (reasoning sig)
  show ?case
    by (simp add: echo_item_def item_types_valid item_messages_def reasoning_message_def item_sigs_def item_answers_def
        all_call_sigs_def all_answers_def)
next
  case (message role ps c)
  let ?i = "zeroItem\<lparr>ri_Type := ''message'', ri_Role := role, ri_Content := c\<rparr>"
  obtain c' where "Marshal_parts ps = Some c'" and c': "compacted c' \<noteq> []" "Unmarshal_string (compacted c') = None"
      "Unmarshal_parts (compacted c') = Some (Some ps)"
    using message(2) by (rule parts_content)
  with message(3) have c: "compacted c \<noteq> []" "Unmarshal_string (compacted c) = None" "Unmarshal_parts (compacted c) = Some (Some ps)"
    by simp_all
  have e: "ri_Role (echo_item ?i) = role" "ri_Type (echo_item ?i) = ''message''" "ri_Content (echo_item ?i) = compacted c"
    using message(1) by (auto simp: echo_item_def item_types_valid)
  have none: "item_sigs ?i = []" "item_answers ?i = []" by (simp_all add: item_sigs_def item_answers_def)
  consider "role = ''user''" | "role = ''assistant''" | "role = ''developer''" using message(1) by blast
  then show ?case
  proof cases
    case 1
    with e have "item_messages False (echo_item ?i) = map_sum id (Pair []) (user_message (compacted c))" by (simp add: item_messages_def)
    with user_silent [OF c message(2)] none show ?thesis by (auto simp: silent_def)
  next
    case 2
    with e have "item_messages False (echo_item ?i) = map_sum id (Pair []) (assistant_message (compacted c))" by (simp add: item_messages_def)
    with assistant_silent [OF c message(2)] none show ?thesis by (auto simp: silent_def)
  next
    case 3
    with e have "\<exists>sys. item_messages False (echo_item ?i) = Inr (sys, [])" by (simp add: item_messages_def Let_def)
    with none show ?thesis by (auto simp: all_call_sigs_def all_answers_def)
  qed
qed

lemma produced_items:
  assumes "\<forall>i\<in>set items. produced i"
  shows "\<exists>sys ms. convert_items False (map echo_item items) = Inr (sys, ms) \<and> all_call_sigs ms = concat (map item_sigs items)
    \<and> all_answers ms = concat (map item_answers items)"
  using assms
proof (induction items)
  case (Cons i items)
  then obtain sys ms where "convert_items False (map echo_item items) = Inr (sys, ms)"
      "all_call_sigs ms = concat (map item_sigs items)" "all_answers ms = concat (map item_answers items)" by auto
  moreover obtain sys' ms' where "item_messages False (echo_item i) = Inr (sys', ms')" "all_call_sigs ms' = item_sigs i"
      "all_answers ms' = item_answers i"
    using Cons produced_messages [of i] by auto
  ultimately show ?case by (simp add: all_call_sigs_def all_answers_def)
qed (simp add: all_call_sigs_def all_answers_def)

section \<open>Converted messages\<close>

lemma valid_data_uri: "source_ok src \<Longrightarrow> valid_utf8 (anthropicImageToDataURI (Some src))"
  unfolding anthropicImageToDataURI_def option.case source_ok_def
  by (simp only: valid_utf8_append item_types_valid split: if_split) simp

lemma text_part_ok: "valid_utf8 t \<Longrightarrow> part_ok (input_text_part t)" "valid_utf8 t \<Longrightarrow> part_ok (output_text_part t)"
  by (simp_all add: part_ok_def input_text_part_def output_text_part_def zeroPart_def item_types_valid)

lemma image_parts_ok: "block_ok b \<Longrightarrow> p \<in> set (image_parts b) \<Longrightarrow> part_ok p"
  using valid_data_uri
  by (cases "acb_Source b") (auto simp: image_parts_def Let_def part_ok_def zeroPart_def item_types_valid block_ok_iff
      anthropicImageToDataURI_def [of None] split: if_splits)

lemma block_parts_ok: "block_ok b \<Longrightarrow> p \<in> set (block_parts b) \<Longrightarrow> part_ok p"
  using image_parts_ok [of b p] by (auto simp: block_parts_def text_part_ok block_ok_iff split: if_splits)

lemma result_parts_ok: "p \<in> set (snd (convertToolResultOutput b)) \<Longrightarrow> part_ok p"
  by (auto simp: convertToolResultOutput_def blocks_in_def split: if_splits option.splits
      intro: image_parts_ok decode_blocks_ok)

lemma message_content_produced:
  assumes "role \<in> {''user'', ''assistant''}" "\<forall>p\<in>set ps. part_ok p"
  obtains i where "message_content role ps = Inr i" "produced i" "item_sigs i = []" "item_answers i = []"
proof -
  obtain c where "Marshal_parts ps = Some c" using assms(2) by (rule parts_content)
  with assms that [of "zeroItem\<lparr>ri_Type := ''message'', ri_Role := role, ri_Content := c\<rparr>"] show ?thesis
    by (auto simp: message_content_def item_sigs_def item_answers_def intro: produced.message)
qed

definition sent_sig :: "string \<times> string \<times> json option \<Rightarrow> string \<times> string \<times> json option" where
  "sent_sig s = (fromResponsesCallIDToAnthropic (fst s), snd s)"

definition inputs_valid :: "AnthropicMessage \<Rightarrow> bool" where
  \<comment> \<open>the inputs of the calls are UTF-8 text\<close>
  "inputs_valid m \<longleftrightarrow> (\<forall>b\<in>set (blocks_of m). is_tool_use b \<longrightarrow> valid_utf8 (acb_Input b))"

definition faithful :: "AnthropicMessage \<Rightarrow> ResponsesInputItem list \<Rightarrow> bool" where
  "faithful m items \<longleftrightarrow> (\<forall>i\<in>set items. produced i)
     \<and> concat (map item_sigs items) = map sent_sig (if am_Role m = ''assistant'' then call_sigs m else [])
     \<and> (am_Role m = ''user'' \<longrightarrow> concat (map item_answers items) = map fromResponsesCallIDToAnthropic (answers m))"

lemma string_message: "Unmarshal_string (am_Content m) = Some s \<Longrightarrow> call_sigs m = [] \<and> answers m = []"
  by (auto simp: call_sigs_def answers_def blocks_of_def blocks_in_def parseContentBlocks_def Unmarshal_blocks_def Unmarshal_slice_def
      decode_slice_def Unmarshal_string_def text_block_def is_tool_use_def is_tool_result_def split: option.splits json.splits)

lemma array_message:
  "Unmarshal_string (am_Content m) = None \<Longrightarrow> Unmarshal_blocks (am_Content m) = Some bs \<Longrightarrow> blocks_of m = blocks_in bs"
  by (simp add: blocks_of_def parseContentBlocks_def)

lemma concat_singletons: "(\<And>x. x \<in> set xs \<Longrightarrow> f x = [g x]) \<Longrightarrow> concat (map f xs) = map g xs"
  by (induction xs) auto

lemma user_faithful:
  assumes "anthropicUserToResponses (am_Content m) = Inr items" "am_Role m \<noteq> ''assistant''"
  shows "faithful m items"
proof (cases "Unmarshal_string (am_Content m)")
  case (Some s)
  then have "\<forall>p\<in>set [input_text_part s]. part_ok p" by (simp add: text_part_ok Unmarshal_string_valid)
  then obtain i where "message_content ''user'' [input_text_part s] = Inr i" "produced i" "item_sigs i = []" "item_answers i = []"
    by (rule message_content_produced [where role = "''user''", rotated]) auto
  with assms Some string_message [OF Some] show ?thesis by (auto simp: anthropicUserToResponses_def faithful_def)
next
  case None
  with assms(1) obtain bs where bs: "Unmarshal_blocks (am_Content m) = Some bs" "user_items (blocks_in bs) = Inr items"
    by (auto simp: anthropicUserToResponses_def split: option.splits)
  note b = array_message [OF None bs(1)]
  let ?results = "filter is_tool_result (blocks_of m)"
  define parts where "parts = concat (map block_parts (blocks_of m)) @ concat (map (\<lambda>b. snd (convertToolResultOutput b)) ?results)"
  have "\<forall>p\<in>set parts. part_ok p" using block_parts_ok result_parts_ok blocks_of_ok unfolding parts_def by fastforce
  then obtain i where i: "message_content ''user'' parts = Inr i" "produced i" "item_sigs i = []" "item_answers i = []"
    by (rule message_content_produced [where role = "''user''", rotated]) auto
  have items: "items = map result_item ?results @ (if parts = [] then [] else [i])"
    using bs(2) i(1) unfolding user_items_def b [symmetric] Let_def parts_def [symmetric] by (simp split: if_splits)
  have "\<forall>x\<in>set (map result_item ?results). produced x" using blocks_of_ok by (auto intro: produced.result)
  moreover have "concat (map item_sigs (map result_item ?results)) = []" by (simp add: item_sigs_def result_item_def)
  moreover have "concat (map item_answers (map result_item ?results)) = map fromResponsesCallIDToAnthropic (answers m)"
    by (simp add: answers_def item_answers_def result_item_def toResponsesCallID_def comp_def concat_singletons)
  ultimately show ?thesis using items i(2-4) assms(2) by (auto simp: faithful_def)
qed

lemma assistant_faithful:
  assumes "anthropicAssistantToResponses (am_Content m) = Inr items" "am_Role m = ''assistant''" "inputs_valid m"
  shows "faithful m items"
proof (cases "Unmarshal_string (am_Content m)")
  case (Some s)
  then have "\<forall>p\<in>set [output_text_part s]. part_ok p" by (simp add: text_part_ok Unmarshal_string_valid)
  then obtain i where "message_content ''assistant'' [output_text_part s] = Inr i" "produced i" "item_sigs i = []" "item_answers i = []"
    by (rule message_content_produced [where role = "''assistant''", rotated]) auto
  with assms Some string_message [OF Some] show ?thesis by (auto simp: anthropicAssistantToResponses_def faithful_def)
next
  case None
  with assms(1) obtain bs where bs: "Unmarshal_blocks (am_Content m) = Some bs" "assistant_items (blocks_in bs) = Inr items"
    by (auto simp: anthropicAssistantToResponses_def split: option.splits)
  note b = array_message [OF None bs(1)]
  let ?uses = "filter is_tool_use (blocks_of m)" and ?reasoning = "concat (map reasoning_items (blocks_of m))"
  let ?t = "extractAnthropicTextFromBlocks (blocks_of m)"
  have "valid_utf8 ?t" using blocks_of_ok unfolding extractAnthropicTextFromBlocks_def
    by (intro valid_utf8_Join) (auto simp: item_types_valid block_ok_iff)
  then have "\<forall>p\<in>set [output_text_part ?t]. part_ok p" by (simp add: text_part_ok)
  then obtain i where i: "message_content ''assistant'' [output_text_part ?t] = Inr i" "produced i" "item_sigs i = []" "item_answers i = []"
    by (rule message_content_produced [where role = "''assistant''", rotated]) auto
  have items: "items = ?reasoning @ (if ?t = [] then [] else [i]) @ map call_item ?uses"
    using bs(2) i(1) unfolding assistant_items_def b [symmetric] Let_def by (simp split: if_splits)
  have r: "produced x \<and> item_sigs x = []" if "x \<in> set ?reasoning" for x
    using that by (auto simp: reasoning_items_def Let_def item_sigs_def intro: produced.reasoning split: if_splits)
  then have "concat (map item_sigs ?reasoning) = []" by simp
  moreover have "\<forall>x\<in>set (map call_item ?uses). produced x"
    using blocks_of_ok assms(3) by (auto simp: inputs_valid_def intro: produced.call)
  moreover have "item_sigs (call_item x) = [sent_sig (call_sig x)]" for x
    by (simp add: item_sigs_def call_item_def sent_sig_def call_sig_def toResponsesCallID_def input_value_def)
  then have "concat (map item_sigs (map call_item ?uses)) = map sent_sig (call_sigs m)"
    by (simp add: call_sigs_def comp_def concat_singletons)
  ultimately show ?thesis using items i(2-4) r assms(2) by (auto simp: faithful_def)
qed

lemma messages_faithful:
  assumes "messages_items msgs = Inr items" "\<forall>m\<in>set msgs. inputs_valid m"
  shows "(\<forall>i\<in>set items. produced i) \<and> concat (map item_sigs items) = map sent_sig (all_call_sigs msgs)
    \<and> fromResponsesCallIDToAnthropic ` set (all_answers msgs) \<subseteq> set (concat (map item_answers items))"
  using assms
proof (induction msgs arbitrary: items)
  case (Cons m msgs)
  obtain xs ys where xs: "anthropicMsgToResponsesItems m = Inr xs" and ys: "messages_items msgs = Inr ys" and items: "items = xs @ ys"
    using Cons.prems(1) by (cases "messages_items msgs") (auto split: sum.splits)
  have m: "faithful m xs"
    using xs user_faithful [of m xs] assistant_faithful [of m xs] Cons.prems(2)
    by (auto simp: anthropicMsgToResponsesItems_def split: if_splits)
  then have x: "\<forall>i\<in>set xs. produced i" "concat (map item_sigs xs) = map sent_sig (if am_Role m = ''assistant'' then call_sigs m else [])"
    by (simp_all add: faithful_def)
  have "fromResponsesCallIDToAnthropic ` set (if am_Role m = ''user'' then answers m else []) \<subseteq> set (concat (map item_answers xs))"
    using m by (cases "am_Role m = ''user''") (simp_all add: faithful_def del: set_concat)
  note x3 = this
  have y: "\<forall>i\<in>set ys. produced i" "concat (map item_sigs ys) = map sent_sig (all_call_sigs msgs)"
    "fromResponsesCallIDToAnthropic ` set (all_answers msgs) \<subseteq> set (concat (map item_answers ys))"
    using Cons ys by simp_all
  have a: "all_answers (m # msgs) = (if am_Role m = ''user'' then answers m else []) @ all_answers msgs"
    and c: "all_call_sigs (m # msgs) = (if am_Role m = ''assistant'' then call_sigs m else []) @ all_call_sigs msgs"
    by (simp_all add: all_answers_def all_call_sigs_def)
  show ?case
    unfolding items a c map_append concat_append set_append image_Un x(2) y(2) using x(1) x3 y(1,3) by blast
qed simp

lemma system_produced:
  assumes "system_items system = Inr items"
  shows "(\<forall>i\<in>set items. produced i) \<and> concat (map item_sigs items) = []"
proof (cases "system = []")
  case False
  with assms obtain parts where p: "parseAnthropicSystemContentParts system = Inr parts"
      "items = (if parts = [] then []
          else [zeroItem\<lparr>ri_Type := ''message'', ri_Role := ''developer'', ri_Content := ignore_error (Marshal_parts parts)\<rparr>])"
    by (auto simp: system_items_def split: sum.splits)
  have "\<forall>p\<in>set parts. part_ok p"
    using p(1) decode_blocks_ok [of system]
    by (auto simp: parseAnthropicSystemContentParts_def text_part_ok Unmarshal_string_valid blocks_in_def block_ok_iff
        split: option.splits if_splits)
  moreover from this obtain c where "Marshal_parts parts = Some c" by (rule parts_content)
  ultimately show ?thesis
    using p(2) produced.message [of "''developer''" parts c] by (auto simp: item_sigs_def ignore_error_def)
qed (use assms in \<open>simp add: system_items_def\<close>)

lemma input_faithful:
  assumes "convertAnthropicToResponsesInput system msgs = Inr items" "\<forall>m\<in>set msgs. inputs_valid m"
  shows "(\<forall>i\<in>set items. produced i) \<and> concat (map item_sigs items) = map sent_sig (all_call_sigs msgs)
    \<and> fromResponsesCallIDToAnthropic ` set (all_answers msgs) \<subseteq> set (concat (map item_answers items))"
proof -
  obtain xs ys where "system_items system = Inr xs" "messages_items msgs = Inr ys" "items = xs @ ys"
    using assms(1) by (cases "messages_items msgs") (auto simp: convertAnthropicToResponsesInput_def split: sum.splits)
  with system_produced [of system xs] messages_faithful [of msgs ys] assms(2) show ?thesis by auto
qed

lemma sent_sig_id: "HasPrefix i ''toolu_'' \<or> HasPrefix i ''call_'' \<Longrightarrow> fromResponsesCallIDToAnthropic i = i"
  by (auto simp: fromResponsesCallIDToAnthropic_def CutPrefix_def HasPrefix_iff)

lemma parse_null_string: "Unmarshal_string ''null'' = Some []"
  by (simp add: Unmarshal_string_def parse_null)

lemma calls_come_back:
  assumes conv: "convertAnthropicToResponsesInput system msgs = Inr items" and valid: "\<forall>m\<in>set msgs. inputs_valid m"
    and calls: "\<forall>s\<in>set (all_call_sigs msgs). (HasPrefix (fst s) ''toolu_'' \<or> HasPrefix (fst s) ''call_'') \<and> fst s \<in> set (all_answers msgs)"
    and input: "Marshal_items items = Some input"
  shows "\<exists>system' msgs'. convertResponsesInputToAnthropic instructions input False = Inr (system', msgs')
    \<and> all_call_sigs msgs' = all_call_sigs msgs"
proof -
  from input_faithful [OF conv valid] have f: "\<forall>i\<in>set items. produced i"
      "concat (map item_sigs items) = map sent_sig (all_call_sigs msgs)"
      "fromResponsesCallIDToAnthropic ` set (all_answers msgs) \<subseteq> set (concat (map item_answers items))"
    by blast+
  have known: "fromResponsesCallIDToAnthropic (fst s) = fst s \<and> fst s \<in> set (all_answers msgs) \<and> fst s \<noteq> []"
    if "s \<in> set (all_call_sigs msgs)" for s
  proof -
    from bspec [OF calls that] have p: "HasPrefix (fst s) ''toolu_'' \<or> HasPrefix (fst s) ''call_''" "fst s \<in> set (all_answers msgs)"
      by blast+
    from p(1) have "fst s \<noteq> []" by (cases "fst s") simp_all
    with sent_sig_id [OF p(1)] p(2) show ?thesis by blast
  qed
  have same: "map sent_sig (all_call_sigs msgs) = all_call_sigs msgs"
    by (rule map_idI) (simp add: sent_sig_def known)
  show ?thesis
  proof (cases "items = []")
    case True
    then have "input = ''null''" using input by (simp add: Marshal_items_def Marshal_slice_def)
    moreover have "all_call_sigs msgs = []" using f(2) True by simp
    ultimately show ?thesis by (simp add: convertResponsesInputToAnthropic_def parse_null_string all_call_sigs_def)
  next
    case False
    have "\<forall>i\<in>set items. raw_ok (ri_Content i)" using f(1) produced_raw_ok by blast
    then obtain raw where raw: "Marshal_items items = Some raw" "Unmarshal_string raw = None" "Unmarshal_items raw = Some (map echo_item items)"
      using False by (rule items_roundtrip)
    obtain sys ms where ms: "convert_items False (map echo_item items) = Inr (sys, ms)"
        "all_call_sigs ms = concat (map item_sigs items)" "all_answers ms = concat (map item_answers items)"
      using produced_items [OF f(1)] by blast
    have sigs: "all_call_sigs ms = all_call_sigs msgs" unfolding ms(2) f(2) same ..
    have "fst s \<in> set (all_answers ms) \<and> fst s \<noteq> []" if "s \<in> set (all_call_sigs msgs)" for s
    proof -
      from known [OF that] have s: "fromResponsesCallIDToAnthropic (fst s) = fst s" "fst s \<in> set (all_answers msgs)" "fst s \<noteq> []"
        by blast+
      have "fst s \<in> set (concat (map item_answers items))"
        using subsetD [OF f(3) imageI [OF s(2)]] unfolding s(1) .
      with s(3) ms(3) show ?thesis by simp
    qed
    then have "all_call_sigs (repair_turns ms) = all_call_sigs msgs"
      unfolding repair_call_sigs sigs by (simp add: filter_id_conv)
    with raw input ms(1) show ?thesis by (simp add: convertResponsesInputToAnthropic_def Let_def)
  qed
qed

lemma request_round_trip:
  assumes conv: "AnthropicToResponses req = Inr out" and valid: "\<forall>m\<in>set (aq_Messages req). inputs_valid m"
    and calls: "\<forall>s\<in>set (all_call_sigs (aq_Messages req)). (HasPrefix (fst s) ''toolu_'' \<or> HasPrefix (fst s) ''call_'')
        \<and> fst s \<in> set (all_answers (aq_Messages req))"
    and model: "\<not> IsOpus55 (aq_Model req)" "\<not> IsSonnet55 (aq_Model req)" "\<not> IsHaiku55 (aq_Model req)"
  shows "\<exists>back. ResponsesToAnthropicRequest out = Inr back \<and> all_call_sigs (aq_Messages back) = all_call_sigs (aq_Messages req)
    \<and> turns_ok (aq_Messages back)"
proof -
  obtain items where items: "convertAnthropicToResponsesInput (aq_System req) (aq_Messages req) = Inr items"
      "Marshal_items items = Some (rq_Input out)" "rq_Model out = aq_Model req"
    using conv by (auto simp: AnthropicToResponses_def AnthropicToResponsesWithMinOutputTokens_def Let_def
        split: if_splits sum.splits option.splits)
  obtain sys ms where ms: "convertResponsesInputToAnthropic (rq_Instructions out) (rq_Input out) False = Inr (sys, ms)"
      "all_call_sigs ms = all_call_sigs (aq_Messages req)"
    using calls_come_back [OF items(1) valid calls items(2)] by blast
  with items(3) model have "\<exists>back. ResponsesToAnthropicRequest out = Inr back \<and> aq_Messages back = ms"
    by (simp add: ResponsesToAnthropicRequest_def thinking_other_def Let_def)
  with ms converted_turns [OF ms(1)] show ?thesis by auto
qed

end
