(* ===== verification/Spec2Isabelle.thy ===== *)
theory Spec2Isabelle
  imports ResponsesToAnthropicCorrect AnthropicToResponsesCorrect ResponsesToChatCorrect ChatToAnthropicCorrect ChatConversionsAgree ChatToResponsesCorrect ClaudeModels KeywordMatcherCorrect StreamCircuitCorrect AnthropicToolSchemaCorrect ResponsesToAnthropicRequestCorrect AnthropicToResponsesRequestCorrect
begin

text \<open>
  A verification of the protocol bridges of an API gateway for language models
  (\<open>src/backend/internal/pkg/apicompat\<close>, in Go), and of two algorithms of the services around them
  (\<open>src/backend/internal/service\<close>): the keyword matcher of content moderation and the proxy stream circuit breaker.

  \<^bold>\<open>The program.\<close>  The gateway offers three HTTP interfaces - Anthropic Messages, OpenAI Responses and OpenAI
  Chat Completions - over upstreams that speak one of them.  For each pair it has a converter of whole
  answers and a converter of streams.  A stream converter is a Go function that takes one upstream
  event and a pointer to its state, mutates the state and returns client events; a finaliser closes
  what is open when the upstream connection ends.  What the gateway must not do is send a stream
  that a client library rejects, lose or repeat text, tool arguments or token counts.  In the other direction it rewrites
  requests: a Responses history, in which anything may stand between a tool call and its result, becomes Anthropic
  messages, which must alternate and answer every call at once, and an Anthropic request becomes a Responses request.  Before a request is
  forwarded, moderation looks for the first configured keyword its text contains, with an automaton built once
  for all keywords; while answers are streamed, the circuit breaker counts the disconnects of each
  upstream proxy and quarantines a proxy that keeps failing.

  \<^bold>\<open>The theories.\<close>
  \<^item> \<open>Prelude\<close>: runs of converters (\<open>run_conv\<close>, \<open>client_stream\<close>) and of protocol acceptors (\<open>run_acc\<close>,
    \<open>accepts\<close>), and the locales \<open>translator\<close>, \<open>closing_translator\<close> and \<open>output_measure\<close>, which lift what one
    step does to whole streams.
  \<^item> \<open>GoStrings\<close>, \<open>GoJson\<close>, \<open>GoSha256\<close>: the parts of Go's standard library the code uses - byte strings, UTF-8, 64-bit
    integers that wrap, \<open>encoding/json\<close>, \<open>crypto/sha256\<close>; \<open>crypto/rand\<close> is a source of draws without any law.
  \<^item> \<open>ApiTypes\<close>: the response and event structs of \<open>types.go\<close> as records with their zero values.
  \<^item> \<open>Protocols\<close>: the abstract specifications - acceptors for the Messages stream (\<open>anth_accept\<close>), its unconditional
    part (\<open>nest_accept\<close>), the Responses stream (\<open>resp_accept\<close>, \<open>seq_resp_accept\<close>) - and what streams carry.
  \<^item> \<open>ClaudeModels\<close> (\<open>internal/pkg/claude\<close>), \<open>ToolNames\<close>, \<open>ChatContent\<close>: model identifiers, tool names and call IDs, message text.
  \<^item> \<open>ResponsesToAnthropic\<close>, \<open>AnthropicToResponses\<close>, \<open>ResponsesToChat\<close>, \<open>ChatToAnthropic\<close>, \<open>ChatToResponses\<close>: one converter
    each, in the order of its Go file: the state record (\<open>ra_state\<close>, \<open>as_state\<close>, \<open>rc_state\<close>, \<open>ca_state\<close>, \<open>cr_state\<close>, with the
    fields of the Go struct and, where fresh IDs are drawn, the random source), one definition per Go function under
    its Go name, and definitions for the loop bodies.
  \<^item> \<open>...Correct\<close>: the invariants of each converter, one lemma per handler, and the interpretations of the locales on
    the converter's own definitions; \<open>ChatConversionsAgree\<close>: the two ways from a Chat answer to an Anthropic one.
  \<^item> \<open>GoJsonCorrect\<close>, \<open>GoJsonStrings\<close>, \<open>GoBase64\<close>, \<open>GoStruct\<close>: parsing what was printed, unquoting what was quoted,
    raw base64, and \<open>json.Unmarshal\<close> into structs by tables of their fields.
  \<^item> \<open>RequestTypes\<close>: the request structs of \<open>types.go\<close>, \<open>UnmarshalJSON\<close> of input items and \<open>MarshalJSON\<close> of content blocks,
    with the lemma that blocks that are encoded and decoded come back.
  \<^item> \<open>AnthropicToolSchema\<close> (\<open>responses_to_anthropic_tool_schema.go\<close>) and \<open>ResponsesToAnthropicRequest\<close>
    (\<open>responses_to_anthropic_request.go\<close>), one definition per Go function and one per case of the loop over the items;
    \<open>AnthropicToolSchemaCorrect\<close> shows that a schema always becomes an object schema (C38),
    \<open>ResponsesToAnthropicRequestCorrect\<close> what the three passes over the messages achieve (\<open>turns_ok\<close>, C34 and C35).
  \<^item> \<open>OpenAIModels\<close> (\<open>internal/pkg/openai/constants.go\<close>) and \<open>AnthropicToResponsesRequest\<close> (\<open>anthropic_to_responses.go\<close>): the
    request in the other direction; \<open>AnthropicToResponsesRequestCorrect\<close> shows that its input items are decoded to what
    was written, and that the two converters together lose no tool call (\<open>request_round_trip\<close>, C40).
  \<^item> \<open>KeywordMatcher\<close>: \<open>newContentModerationKeywordMatcher\<close> in its phases (trie, failure links, edge layout) and \<open>Match\<close>;
    \<open>KeywordTrie\<close> relates the built arrays to the set of keyword prefixes, and \<open>KeywordMatcherCorrect\<close> proves the
    failure links to lead to the longest proper suffixes and \<open>Match\<close> to find the first keyword (C29).
  \<^item> \<open>StreamCircuit\<close>: settings, entries and methods of the breaker, and the service's calls of it; \<open>StreamCircuitCorrect\<close>:
    what holds of every entry after every history of calls (locale \<open>entry_invariant\<close>), and how long a quarantine lasts (C30 to C33).
  \<^item> this theory: the properties, C1 to C40, with concrete streams and requests as witnesses.

  \<^bold>\<open>Conventions.\<close>  A Go \<open>int\<close> is an \<open>int\<close> with \<open>iadd\<close> and \<open>isub\<close> wrapping at 64 bits where counts are added; a string is its list of
  bytes; a nil pointer is \<open>None\<close>; a map that is only looked up is a function to \<open>option\<close>, one that is iterated over or
  counted an association list.  \<open>time.Now\<close> is the argument \<open>now\<close>, and the random source the argument \<open>g\<close>.  \<open>parse_json\<close> recurses
  on a bound of twice the length of the text plus one, which is always enough (C17); the loops of the keyword matcher recurse
  on the number of edges or nodes of the automaton, enough because a chain of siblings repeats no edge and a
  failure link leads to a shallower node.  \<open>strings.ToLower\<close> is the argument \<open>lower\<close>, and the order in which Go visits the
  keys of the circuit's map the argument \<open>arrange\<close>.
  A \<open>json.RawMessage\<close> is its text, empty when it is nil; what is decoded into one is kept without the white space between
  tokens.  A \<open>float64\<close> that is only compared is a rational number, and the errors of a request are the
  constructors of \<open>request_error\<close>.

  \<^bold>\<open>Not modelled.\<close>  The request converters from and to Chat Completions, the raw-JSON restorer of client tools, the marshalling of events into SSE lines, and everything
  around the bridges but the two algorithms named above: HTTP handlers, account scheduling, billing, the rest of moderation,
  repositories, generated database code and the front end.
\<close>

section \<open>Concrete streams, on which the properties are exercised\<close>

definition sample_responses :: "ResponsesStreamEvent list" where
  \<comment> \<open>a Responses stream: a message in two deltas, then a function call\<close>
  "sample_responses =
    [zeroRSE\<lparr>rse_Type := ''response.created'', rse_Response := Some (zeroResponse\<lparr>rr_ID := ''resp_1'', rr_Model := ''gpt''\<rparr>)\<rparr>,
     zeroRSE\<lparr>rse_Type := ''response.output_item.added'', rse_Item := Some (zeroOutput\<lparr>ro_Type := ''message''\<rparr>)\<rparr>,
     zeroRSE\<lparr>rse_Type := ''response.content_part.added''\<rparr>,
     zeroRSE\<lparr>rse_Type := ''response.output_text.delta'', rse_Delta := ''Hel''\<rparr>,
     zeroRSE\<lparr>rse_Type := ''response.output_text.delta'', rse_Delta := ''lo''\<rparr>,
     zeroRSE\<lparr>rse_Type := ''response.output_text.done'', rse_Text := ''Hello''\<rparr>,
     zeroRSE\<lparr>rse_Type := ''response.content_part.done''\<rparr>,
     zeroRSE\<lparr>rse_Type := ''response.output_item.done'', rse_Item := Some (zeroOutput\<lparr>ro_Type := ''message''\<rparr>)\<rparr>,
     zeroRSE\<lparr>rse_Type := ''response.output_item.added'', rse_OutputIndex := 1,
       rse_Item := Some (zeroOutput\<lparr>ro_Type := ''function_call'', ro_CallID := ''call_1'', ro_Name := ''ls''\<rparr>)\<rparr>,
     zeroRSE\<lparr>rse_Type := ''response.function_call_arguments.delta'', rse_OutputIndex := 1, rse_Delta := ''{}''\<rparr>,
     zeroRSE\<lparr>rse_Type := ''response.function_call_arguments.done'', rse_OutputIndex := 1, rse_Arguments := ''{}''\<rparr>,
     zeroRSE\<lparr>rse_Type := ''response.output_item.done'', rse_OutputIndex := 1,
       rse_Item := Some (zeroOutput\<lparr>ro_Type := ''function_call''\<rparr>)\<rparr>,
     zeroRSE\<lparr>rse_Type := ''response.completed'',
       rse_Response := Some (zeroResponse\<lparr>rr_ID := ''resp_1'', rr_Status := ''completed''\<rparr>)\<rparr>]"

definition sample_entropy :: rng where
  "sample_entropy = \<lparr>draws = (\<lambda>n. replicate 12 n), drawn = 0\<rparr>"

definition sample_messages :: "AnthropicStreamEvent list" where
  \<comment> \<open>a Messages stream: a text block in two deltas, then a tool call\<close>
  "sample_messages =
    [message_start ''msg_1'' ''claude'',
     block_start 0 (zeroBlock\<lparr>acb_Type := ''text''\<rparr>),
     block_delta 0 (zeroDelta\<lparr>ad_Type := ''text_delta'', ad_Text := ''Hel''\<rparr>),
     block_delta 0 (zeroDelta\<lparr>ad_Type := ''text_delta'', ad_Text := ''lo''\<rparr>),
     block_stop 0,
     block_start 1 (zeroBlock\<lparr>acb_Type := ''tool_use'', acb_ID := ''toolu_1'', acb_Name := ''ls''\<rparr>),
     json_args_delta 1 ''{}'',
     block_stop 1] @ message_end ''tool_use'' zeroAnthropicUsage"

definition sample_delta :: "ChatDelta \<Rightarrow> ChatCompletionsChunk" where
  "sample_delta d = \<lparr>cck_ID = ''chatcmpl-1'', cck_Object = ''chat.completion.chunk'', cck_Created = 0, cck_Model = ''gpt'',
     cck_Choices = [\<lparr>ccc_Index = 0, ccc_Delta = d, ccc_FinishReason = None\<rparr>], cck_Usage = None,
     cck_SystemFingerprint = [], cck_ServiceTier = []\<rparr>"

definition sample_call :: "int \<Rightarrow> string \<Rightarrow> string \<Rightarrow> ChatToolCall" where
  "sample_call i name args = zeroToolCall\<lparr>ctc_Index := Some i, ctc_ID := ''call_1'',
     ctc_Function := \<lparr>cfc_Name = name, cfc_Arguments = args\<rparr>\<rparr>"

definition sample_chunks :: "ChatCompletionsChunk list" where
  \<comment> \<open>a Chat Completions stream: reasoning, text, then a tool call in two fragments\<close>
  "sample_chunks =
    [sample_delta (zeroChatDelta\<lparr>cd_ReasoningContent := Some ''hm''\<rparr>),
     sample_delta (zeroChatDelta\<lparr>cd_Content := Some ''Hello''\<rparr>),
     sample_delta (zeroChatDelta\<lparr>cd_ToolCalls := [sample_call 0 ''ls'' []]\<rparr>),
     sample_delta (zeroChatDelta\<lparr>cd_ToolCalls := [sample_call 0 [] ''{}'']\<rparr>)]"

section \<open>Complete streams\<close>

text \<open>
  C1.  When the Responses upstream sends its items one after the other (\<open>seq_resp_accept\<close>) and has at least sent
  \<open>response.created\<close>, the client of the Anthropic endpoint receives a complete Messages stream: \<open>message_start\<close>,
  blocks with consecutive indices, each opened, filled with deltas of its own kind and closed, then
  one \<open>message_delta\<close> with a stop reason and \<open>message_stop\<close> - also when the upstream connection is cut
  anywhere, since the finaliser closes what is open.
\<close>
theorem ResponsesEventToAnthropic_complete:
  assumes "accepts rv_created seq_resp_accept resp_initial evts"
  shows "accepts anth_complete anth_accept anth_initial
     (client_stream ResponsesEventToAnthropicEvents FinalizeResponsesAnthropicStream evts
        (NewResponsesEventToAnthropicState now))"
proof -
  let ?s = "NewResponsesEventToAnthropicState now"
  from assms obtain v where v: "run_acc seq_resp_accept resp_initial evts = Some v" "rv_created v" by (auto simp: accepts_iff)
  obtain es s' where r: "run_conv ResponsesEventToAnthropicEvents evts ?s = (es, s')" by fastforce
  from ra_protocol.stream_accepted [OF ra_initial(1) v(1) r] v(2) have "ra_closable s'"
    by (simp add: ra_rel_def ra_closable_def)
  with ra_protocol.client_stream_complete [OF ra_initial(1) v(1), of now] r show ?thesis by (simp add: ra_initial(2))
qed

lemma ResponsesEventToAnthropic_complete_witness:
  "accepts anth_complete anth_accept anth_initial
     (client_stream ResponsesEventToAnthropicEvents FinalizeResponsesAnthropicStream sample_responses
        (NewResponsesEventToAnthropicState 7))
   \<and> accepts anth_complete anth_accept anth_initial
     (client_stream ResponsesEventToAnthropicEvents FinalizeResponsesAnthropicStream (take 4 sample_responses)
        (NewResponsesEventToAnthropicState 7))"
  by (intro conjI ResponsesEventToAnthropic_complete) code_simp+



text \<open>
  C3.  The two converters compose: an Anthropic stream within the contract of C2, turned into
  Responses events and back, is again a complete Messages stream.
\<close>
theorem Anthropic_Responses_Anthropic_complete:
  assumes "accepts (\<lambda>a. as_closable a (snd (run_conv AnthropicEventToResponsesEvents evts
             (NewAnthropicEventToResponsesState now g)))) handled_accept anth_initial evts"
  shows "accepts anth_complete anth_accept anth_initial
     (client_stream ResponsesEventToAnthropicEvents FinalizeResponsesAnthropicStream
        (client_stream AnthropicEventToResponsesEvents FinalizeAnthropicResponsesStream evts
           (NewAnthropicEventToResponsesState now g))
        (NewResponsesEventToAnthropicState later))"
proof -
  let ?mid = "client_stream AnthropicEventToResponsesEvents FinalizeAnthropicResponsesStream evts
     (NewAnthropicEventToResponsesState now g)"
  let ?s = "NewResponsesEventToAnthropicState later"
  from as_protocol.client_stream_accepted [OF as_initial(1) assms]
  have "accepts rv_created seq_resp_accept resp_initial ?mid"
    by (auto simp: as_initial(2) accepts_iff run_acc_both resp_complete_def)
  then obtain v where v: "run_acc seq_resp_accept resp_initial ?mid = Some v" "rv_created v" by (auto simp: accepts_iff)
  obtain es s' where r: "run_conv ResponsesEventToAnthropicEvents ?mid ?s = (es, s')" by fastforce
  from ra_protocol.stream_accepted [OF ra_initial(1) v(1) r] v(2) have "ra_closable s'"
    by (simp add: ra_rel_def ra_closable_def)
  with ra_protocol.client_stream_complete [OF ra_initial(1) v(1), of later] r show ?thesis by (simp add: ra_initial(2))
qed

lemma Anthropic_Responses_Anthropic_complete_witness:
  "accepts anth_complete anth_accept anth_initial
     (client_stream ResponsesEventToAnthropicEvents FinalizeResponsesAnthropicStream
        (client_stream AnthropicEventToResponsesEvents FinalizeAnthropicResponsesStream sample_messages
           (NewAnthropicEventToResponsesState 7 sample_entropy))
        (NewResponsesEventToAnthropicState 8))"
  by (rule Anthropic_Responses_Anthropic_complete) code_simp

text \<open>
  C4.  When the fragments of each tool call in a Chat Completions stream come before the next content or
  call (\<open>chunk_accept\<close>), the client of the Anthropic endpoint receives a complete Messages stream,
  wherever the upstream connection ends.
\<close>
theorem ChatCompletionsChunkToAnthropic_complete:
  assumes "accepts (\<lambda>_. True) chunk_accept no_tools chunks"
  shows "accepts anth_complete anth_accept anth_initial
     (client_stream ChatCompletionsChunkToAnthropicEvents FinalizeChatCompletionsAnthropicStream
        (map Some chunks) (Some (NewChatCompletionsToAnthropicStreamState model now g)))"
proof -
  have e: "client_stream ChatCompletionsChunkToAnthropicEvents FinalizeChatCompletionsAnthropicStream
      (map Some chunks) (Some s) = client_stream chunk_step finalize_step chunks s" for s
    by (simp add: client_stream_def exported_run FinalizeChatCompletionsAnthropicStream_def split: prod.split)
  from ca_protocol.client_stream_accepted [OF ca_initial(1) assms, of model now g]
  show ?thesis unfolding e ca_initial(2) .
qed

lemma ChatCompletionsChunkToAnthropic_complete_witness:
  "accepts anth_complete anth_accept anth_initial
     (client_stream ChatCompletionsChunkToAnthropicEvents FinalizeChatCompletionsAnthropicStream
        (map Some sample_chunks) (Some (NewChatCompletionsToAnthropicStreamState ''claude'' 7 sample_entropy)))"
  by (rule ChatCompletionsChunkToAnthropic_complete) code_simp

section \<open>What holds for any upstream\<close>

text \<open>
  C5.  Whatever chunks the Chat Completions upstream sends, in any order, the content blocks the
  client receives are opened and closed one after the other with consecutive indices, every delta
  names a block that has been opened, and no block is left open at the end.
\<close>
theorem ChatCompletionsChunkToAnthropic_nests:
  "accepts (\<lambda>v. \<not> nv_open v) nest_accept \<lparr>nv_next = 0, nv_open = False\<rparr>
     (client_stream ChatCompletionsChunkToAnthropicEvents FinalizeChatCompletionsAnthropicStream
        (map Some chunks) (Some (NewChatCompletionsToAnthropicStreamState model now g)))"
proof -
  let ?s = "NewChatCompletionsToAnthropicStreamState model now g"
  have e: "client_stream ChatCompletionsChunkToAnthropicEvents FinalizeChatCompletionsAnthropicStream
      (map Some chunks) (Some ?s) = client_stream chunk_step finalize_step chunks ?s"
    by (simp add: client_stream_def exported_run FinalizeChatCompletionsAnthropicStream_def split: prod.split)
  have keep: "\<not> ca_MessageStopSent (snd (run_conv chunk_step chunks s))" if "\<not> ca_MessageStopSent s" for s
    using that
  proof (induction chunks arbitrary: s)
    case (Cons c cs)
    obtain e1 s1 where 1: "chunk_step c s = (e1, s1)" by fastforce
    have "\<not> ca_MessageStopSent s1" using 1 Cons.prems by (rule chunk_stop)
    from Cons.IH [OF this] show ?case by (cases "run_conv chunk_step cs s1") (simp add: 1)
  qed simp
  have "\<not> ca_MessageStopSent (snd (run_conv chunk_step chunks ?s))"
    by (intro keep) (simp add: NewChatCompletionsToAnthropicStreamState_def split: prod.split)
  with chunk_nests.client_stream_accepted [where a = "()" and s = ?s and xs = chunks] ca_initial_known [of model now g] show ?thesis
    by (simp add: e accepts_def)
qed

text \<open>
  C6.  Whatever events the Responses upstream sends, in any order, the content blocks of the
  Anthropic client nest in the same way.
\<close>
theorem ResponsesEventToAnthropic_nests:
  "accepts (\<lambda>_. True) nest_accept \<lparr>nv_next = 0, nv_open = False\<rparr>
     (client_stream ResponsesEventToAnthropicEvents FinalizeResponsesAnthropicStream evts
        (NewResponsesEventToAnthropicState now))"
proof -
  let ?s = "NewResponsesEventToAnthropicState now"
  obtain es s' where 1: "run_conv ResponsesEventToAnthropicEvents evts ?s = (es, s')" by fastforce
  have "ra_known ?s" and "ra_nest ?s = \<lparr>nv_next = 0, nv_open = False\<rparr>"
    by (simp_all add: ra_known_def ra_nest_def NewResponsesEventToAnthropicState_def)
  with ra_nesting.stream_accepted [OF _ _ 1, of "()" "()"]
  have run: "run_acc nest_accept \<lparr>nv_next = 0, nv_open = False\<rparr> es = Some (ra_nest s')" and "ra_known s'" by auto
  from nests_finalize [of s'] \<open>ra_known s'\<close> obtain w where
    "run_acc nest_accept (ra_nest s') (fst (FinalizeResponsesAnthropicStream s')) = Some w" by (auto simp: nests_def)
  with run show ?thesis by (auto simp: accepts_iff client_stream_def 1 run_acc_append)
qed

section \<open>Streaming and buffering agree\<close>

text \<open>
  C7.  A Chat Completions client that concatenates the chunks it receives ends with the same text, refusal,
  reasoning and tool calls - IDs, names and arguments, in the same order - that the buffered path
  collects in its accumulator, for every upstream stream that adds each call once and whose final
  arguments extend the streamed ones (\<open>calls_accept\<close>).
\<close>
theorem chat_stream_equals_buffer:
  assumes "accepts (\<lambda>_. True) calls_accept Map.empty evts"
  shows "run_acc client_accept \<lparr>cl_text = [], cl_refusal = [], cl_reasoning = [], cl_calls = []\<rparr>
       (fst (run_conv ResponsesEventToChatChunks evts (fst (NewResponsesEventToChatState now g))))
     = Some (buffer_view (fold ProcessEvent evts NewBufferedResponseAccumulator))"
proof -
  let ?s = "fst (NewResponsesEventToChatState now g)"
  from assms obtain m where m: "run_acc calls_accept Map.empty evts = Some m" by (auto simp: accepts_iff)
  have b: "buffer_view NewBufferedResponseAccumulator = \<lparr>cl_text = [], cl_refusal = [], cl_reasoning = [], cl_calls = []\<rparr>"
    by (simp add: buffer_view_def NewBufferedResponseAccumulator_def)
  from chat_stream.stream_accepted [OF calls_initial [OF refl] m stream_and_buffer_run]
  show ?thesis by (simp add: b)
qed

lemma chat_stream_equals_buffer_witness:
  "run_acc client_accept \<lparr>cl_text = [], cl_refusal = [], cl_reasoning = [], cl_calls = []\<rparr>
       (fst (run_conv ResponsesEventToChatChunks sample_responses (fst (NewResponsesEventToChatState 7 sample_entropy))))
     = Some \<lparr>cl_text = ''Hello'', cl_refusal = [], cl_reasoning = [], cl_calls = [(''call_1'', ''ls'', ''{}'')]\<rparr>"
proof -
  have "accepts (\<lambda>_. True) calls_accept Map.empty sample_responses" by code_simp
  note chat_stream_equals_buffer [OF this, of 7 sample_entropy]
  moreover have "buffer_view (fold ProcessEvent sample_responses NewBufferedResponseAccumulator)
      = \<lparr>cl_text = ''Hello'', cl_refusal = [], cl_reasoning = [], cl_calls = [(''call_1'', ''ls'', ''{}'')]\<rparr>" by code_simp
  ultimately show ?thesis by simp
qed

section \<open>Content is delivered once\<close>



text \<open>
  C9.  The arguments of a tool call reach the Anthropic client exactly once: the concatenation of the deltas or,
  when there were none, the arguments of \<open>response.function_call_arguments.done\<close>; and the block is
  closed.  (\<open>Read\<close> is excepted: its arguments are held back and cleaned.)
\<close>
theorem tool_arguments_delivered_once:
  assumes "rse_Type added = ''response.output_item.added''" "rse_Item added = Some it"
    and "ro_Type it = ''function_call''" "ro_Name it \<noteq> ''Read''"
    and "list_all (\<lambda>e. rse_Type e = ''response.function_call_arguments.delta'' \<and> rse_OutputIndex e = rse_OutputIndex added) ds"
    and "rse_Type fin = ''response.function_call_arguments.done''" "rse_OutputIndex fin = rse_OutputIndex added"
  shows "let (es, s') = run_conv ResponsesEventToAnthropicEvents (added # ds @ [fin]) s;
             streamed = concat (map rse_Delta ds)
         in anth_json es = (if streamed \<noteq> [] then streamed else rse_Arguments fin) \<and> \<not> ra_ContentBlockOpen s'"
proof -
  let ?f = ResponsesEventToAnthropicEvents
  obtain e1 s1 where 1: "?f added s = (e1, s1)" by fastforce
  obtain e2 s2 where 2: "run_conv ?f ds s1 = (e2, s2)" by fastforce
  obtain e3 s3 where 3: "?f fin s2 = (e3, s3)" by fastforce
  from added_tool_open [OF assms(2-4,1) 1]
  have o1: "tool_open (rse_OutputIndex added) False s1" and j1: "anth_json e1 = []" by simp_all
  from args_deltas [OF _ o1 2] assms(5)
  have o2: "tool_open (rse_OutputIndex added) (concat (map rse_Delta ds) \<noteq> []) s2"
    and j2: "anth_json e2 = concat (map rse_Delta ds)" by (simp_all add: list_all_iff)
  from args_done_step [OF assms(6,7) o2 3] j1 j2 show ?thesis
    by (auto simp: 1 2 3 run_conv_append)
qed

lemma tool_arguments_delivered_once_witness:
  "anth_json (fst (run_conv ResponsesEventToAnthropicEvents
      (sample_responses ! 8 # [sample_responses ! 9] @ [sample_responses ! 10])
      (snd (run_conv ResponsesEventToAnthropicEvents (take 8 sample_responses) (NewResponsesEventToAnthropicState 7)))))
   = ''{}''"
  using tool_arguments_delivered_once
    [of "sample_responses ! 8" "the (rse_Item (sample_responses ! 8))" "[sample_responses ! 9]" "sample_responses ! 10"
        "snd (run_conv ResponsesEventToAnthropicEvents (take 8 sample_responses) (NewResponsesEventToAnthropicState 7))"]
  by (simp add: sample_responses_def Let_def split_beta)

section \<open>Token counts\<close>

text \<open>
  C10.  Anthropic counts cache reads and cache writes apart from the input tokens, OpenAI among them.  When the
  parts do not exceed the whole, the conversion splits the OpenAI count so that the three Anthropic
  counts add up to it.
\<close>
theorem anthropicUsage_splits_input:
  assumes "in64 (ru_InputTokens u)" "0 \<le> cached_of u" "0 \<le> ru_CacheCreationInputTokens u"
    and "cached_of u + ru_CacheCreationInputTokens u \<le> ru_InputTokens u"
  shows "let a = anthropicUsageFromResponsesUsage (Some u) in
     au_InputTokens a + au_CacheReadInputTokens a + au_CacheCreationInputTokens a = ru_InputTokens u
     \<and> au_CacheReadInputTokens a = cached_of u \<and> 0 \<le> au_InputTokens a \<and> au_OutputTokens a = ru_OutputTokens u"
  using usage_split [OF assms] assms(4) by (simp add: Let_def)

lemma anthropicUsage_splits_input_witness:
  "let a = anthropicUsageFromResponsesUsage (Some (zeroResponsesUsage\<lparr>ru_InputTokens := 100, ru_OutputTokens := 9,
       ru_CacheCreationInputTokens := 10, ru_InputTokensDetails := Some (zeroInputDetails\<lparr>ritd_CachedTokens := 60\<rparr>)\<rparr>))
   in au_InputTokens a + au_CacheReadInputTokens a + au_CacheCreationInputTokens a = 100 \<and> au_CacheReadInputTokens a = 60
     \<and> 0 \<le> au_InputTokens a \<and> au_OutputTokens a = 9"
  using anthropicUsage_splits_input [of "zeroResponsesUsage\<lparr>ru_InputTokens := 100, ru_OutputTokens := 9,
       ru_CacheCreationInputTokens := 10, ru_InputTokensDetails := Some (zeroInputDetails\<lparr>ritd_CachedTokens := 60\<rparr>)\<rparr>"]
  by (simp add: cached_of_def in64_def zeroResponsesUsage_def zeroInputDetails_def)

text \<open>C11.  Anthropic token counts survive the way through the Responses format and back.\<close>
theorem usage_round_trip:
  assumes "0 \<le> inp" "0 \<le> cacheRead" "0 \<le> cacheCreation" "in64 (inp + cacheRead + cacheCreation)"
  shows "anthropicUsageFromResponsesUsage (Some (responses_usage inp out cacheRead cacheCreation))
    = zeroAnthropicUsage\<lparr>au_InputTokens := inp, au_OutputTokens := out,
        au_CacheReadInputTokens := cacheRead, au_CacheCreationInputTokens := cacheCreation\<rparr>"
proof -
  have "in64 (inp + cacheRead)" "in64 inp" "in64 (inp + cacheCreation)" using assms by (auto simp: in64_def)
  with assms show ?thesis
    by (auto simp: anthropicUsageFromResponsesUsage_def responses_usage_def Let_def iadd_exact isub_exact
        zeroResponsesUsage_def zeroInputDetails_def zeroAnthropicUsage_def)
qed

lemma usage_round_trip_witness:
  "anthropicUsageFromResponsesUsage (Some (responses_usage 30 9 60 10))
    = zeroAnthropicUsage\<lparr>au_InputTokens := 30, au_OutputTokens := 9,
        au_CacheReadInputTokens := 60, au_CacheCreationInputTokens := 10\<rparr>"
  by (rule usage_round_trip) (simp_all add: in64_def)

section \<open>The end of a Chat Completions stream\<close>

text \<open>
  C12.  A Chat Completions client receives exactly one finish chunk when the Responses upstream sends at most one
  terminal event: the terminal event's or else the finaliser's.
\<close>
theorem one_finish_chunk:
  assumes "length (filter (\<lambda>e. is_terminal_type (rse_Type e)) evts) \<le> 1"
  shows "finish_count (client_stream ResponsesEventToChatChunks FinalizeResponsesChatStream evts
      (fst (NewResponsesEventToChatState now g))) = 1"
proof -
  let ?s = "fst (NewResponsesEventToChatState now g)"
  obtain es s' where 1: "run_conv ResponsesEventToChatChunks evts ?s = (es, s')" by fastforce
  have "\<not> rc_Finalized ?s" by (simp add: NewResponsesEventToChatState_def split: prod.split)
  with finish_run [of evts ?s] 1
  have c: "finish_count es = length (filter (\<lambda>e. is_terminal_type (rse_Type e)) evts)"
    and f: "rc_Finalized s' = list_ex (\<lambda>e. is_terminal_type (rse_Type e)) evts" by simp_all
  show ?thesis
  proof (cases "list_ex (\<lambda>e. is_terminal_type (rse_Type e)) evts")
    case True
    then have "filter (\<lambda>e. is_terminal_type (rse_Type e)) evts \<noteq> []" by (auto simp: list_ex_iff filter_empty_conv)
    then have "0 < length (filter (\<lambda>e. is_terminal_type (rse_Type e)) evts)" by blast
    with assms c have "finish_count es = 1" by linarith
    with f True show ?thesis by (simp add: client_stream_def 1 FinalizeResponsesChatStream_def)
  next
    case False
    then have "filter (\<lambda>e. is_terminal_type (rse_Type e)) evts = []" by (auto simp: list_ex_iff filter_empty_conv)
    with c have "finish_count es = 0" by simp
    with f False show ?thesis by (simp add: client_stream_def 1 FinalizeResponsesChatStream_def Let_def)
  qed
qed

lemma one_finish_chunk_witness:
  "finish_count (client_stream ResponsesEventToChatChunks FinalizeResponsesChatStream sample_responses
      (fst (NewResponsesEventToChatState 7 sample_entropy))) = 1
   \<and> finish_count (client_stream ResponsesEventToChatChunks FinalizeResponsesChatStream (take 6 sample_responses)
      (fst (NewResponsesEventToChatState 7 sample_entropy))) = 1"
  by (intro conjI one_finish_chunk) code_simp+

text \<open>
  C13.  The handler of the terminal event does not look at \<open>Finalized\<close>: every further terminal event produces
  a further finish chunk, so a client of an upstream that repeats \<open>response.completed\<close> sees the end twice.
\<close>
theorem finish_chunk_per_terminal_event:
  "finish_count (fst (run_conv ResponsesEventToChatChunks evts s)) = length (filter (\<lambda>e. is_terminal_type (rse_Type e)) evts)"
  using finish_run [of evts s] by blast

text \<open>C14.  Every finaliser is idempotent: called again it emits nothing and changes nothing.\<close>
theorem finalizers_idempotent:
  "FinalizeResponsesAnthropicStream (snd (FinalizeResponsesAnthropicStream ra)) = ([], snd (FinalizeResponsesAnthropicStream ra))
   \<and> FinalizeAnthropicResponsesStream (snd (FinalizeAnthropicResponsesStream as)) = ([], snd (FinalizeAnthropicResponsesStream as))
   \<and> FinalizeResponsesChatStream (snd (FinalizeResponsesChatStream rc)) = ([], snd (FinalizeResponsesChatStream rc))
   \<and> FinalizeChatCompletionsAnthropicStream (snd (FinalizeChatCompletionsAnthropicStream ca))
     = ([], snd (FinalizeChatCompletionsAnthropicStream ca))
   \<and> FinalizeChatCompletionsResponsesStream (snd (FinalizeChatCompletionsResponsesStream cr))
     = ([], snd (FinalizeChatCompletionsResponsesStream cr))"
  by (simp add: ra_finalize_twice as_finalize_twice rc_finalize_twice ca_finalize_twice cr_finalize_twice)

section \<open>Supplementing the buffered response\<close>

text \<open>C15.  When the stream delivered text, the supplemented response has text.\<close>
theorem SupplementResponseOutput_has_text:
  assumes "TrimSpace (bra_text a) \<noteq> []" "SupplementResponseOutput a (Some r) = Some r'"
  shows "responsesOutputHasText (rr_Output r')"
  using supplement_has_text [OF assms] .

lemma SupplementResponseOutput_has_text_witness:
  "responsesOutputHasText (rr_Output (the (SupplementResponseOutput (fold ProcessEvent sample_responses NewBufferedResponseAccumulator)
      (Some zeroResponse))))"
  by (rule SupplementResponseOutput_has_text [of "fold ProcessEvent sample_responses NewBufferedResponseAccumulator" zeroResponse])
     (code_simp, simp add: SupplementResponseOutput_def Let_def split: if_splits)



section \<open>Decoding and naming\<close>



text \<open>
  C18.  A model identifier that is not itself one of the dated names survives the expansion to the dated name
  and back.
\<close>
theorem DenormalizeModelID_NormalizeModelID:
  assumes "i \<notin> set (map fst ModelIDReverseOverrides)"
  shows "DenormalizeModelID (NormalizeModelID i) = i"
  using denormalize_normalize [OF assms] .

lemma DenormalizeModelID_NormalizeModelID_witness:
  "NormalizeModelID ''claude-opus-4-5'' = ''claude-opus-4-5-20251101''
   \<and> DenormalizeModelID (NormalizeModelID ''claude-opus-4-5'') = ''claude-opus-4-5''"
  by (intro conjI DenormalizeModelID_NormalizeModelID) code_simp+

text \<open>
  C19.  A flattened namespace tool name never exceeds the 64 bytes that Chat Completions allows, and is
  the plain concatenation whenever that fits.
\<close>
theorem flattenNamespaceToolName_bound:
  "length (flattenNamespaceToolName namespace name) \<le> 64
    \<and> (64 < length (namespace @ ''__'' @ name) \<or> flattenNamespaceToolName namespace name = namespace @ ''__'' @ name)"
  using length_take_runes [of 54] by (auto simp: flattenNamespaceToolName_def Let_def chatToolNameMaxLen_def)

text \<open>
  C20.  \<open>sanitizeAnthropicToolUseInput\<close> changes nothing but an empty \<open>pages\<close> of the \<open>Read\<close> tool.
\<close>
theorem sanitize_only_Read_pages:
  assumes "sanitizeAnthropicToolUseInput name raw \<noteq> raw"
  shows "name = ''Read'' \<and> (\<exists>input. Unmarshal_object raw = Some input \<and> map_of input ''pages'' = Some (JStr [])
    \<and> sanitizeAnthropicToolUseInput name raw = Marshal_object (filter (\<lambda>kv. fst kv \<noteq> ''pages'') input))"
  using assms by (auto simp: sanitizeAnthropicToolUseInput_def split: if_splits option.splits json.splits list.splits)

lemma sanitize_only_Read_pages_witness:
  "let raw = [CHR ''{'', dquote] @ ''pages'' @ [dquote, CHR '':'', dquote, dquote, CHR ''}''] in
   sanitizeAnthropicToolUseInput ''Read'' raw = ''{}''
   \<and> (\<exists>input. Unmarshal_object raw = Some input \<and> map_of input ''pages'' = Some (JStr []))"
proof -
  let ?raw = "[CHR ''{'', dquote] @ ''pages'' @ [dquote, CHR '':'', dquote, dquote, CHR ''}'']"
  have 1: "sanitizeAnthropicToolUseInput ''Read'' ?raw = ''{}''" by code_simp
  then have "sanitizeAnthropicToolUseInput ''Read'' ?raw \<noteq> ?raw" by simp
  from sanitize_only_Read_pages [OF this] 1 show ?thesis by (auto simp: Let_def)
qed

section \<open>Two ways from Chat Completions to Anthropic\<close>





section \<open>From Chat Completions to Responses\<close>

text \<open>
  C23.  The Responses events made from a Chat Completions stream, those of the finaliser included, are numbered
  0, 1, 2, ... without gap or repetition, whatever the upstream sends.
\<close>
theorem ChatCompletionsChunkToResponses_numbered:
  "let out = client_stream cr_chunk_step cr_finalize_step chunks (NewChatCompletionsToResponsesStreamState model tn now g)
   in map rse_SequenceNumber out = map int [0..<length out]"
proof -
  let ?s = "NewChatCompletionsToResponsesStreamState model tn now g"
  obtain es s' where 1: "run_conv cr_chunk_step chunks ?s = (es, s')" by fastforce
  obtain fs s'' where 2: "cr_finalize_step s' = (fs, s'')" by fastforce
  have z: "cr_SequenceNumber ?s = 0"
    by (simp add: NewChatCompletionsToResponsesStreamState_def Let_def split: prod.split)
  from cr_numbers.stream_delivered [of ?s chunks es s'] z 1
  have g: "0 \<le> cr_SequenceNumber s'" and n: "numbers_sent s' = sequence_numbers es"
    by (simp_all add: numbers_sent_def)
  from numbered_finalize [of s'] 2 have "cr_numbered s' (fs, s'')" by simp
  from numbers_step [OF g this] n
  have t: "sequence_numbers (es @ fs) = numbers_sent s''" by (simp add: sequence_numbers_def)
  then have "length (es @ fs) = nat (cr_SequenceNumber s'')"
    unfolding sequence_numbers_def numbers_sent_def by (metis length_map length_upt minus_nat.diff_0)
  with t show ?thesis by (simp add: Let_def client_stream_def 1 2 sequence_numbers_def numbers_sent_def)
qed

section \<open>Call identifiers\<close>

text \<open>
  C24.  A call ID leaves the gateway as it came: the ID put into a Responses request is recovered from the
  answer exactly when it does not already look like the IDs with a \<open>fc_\<close> prefix that older versions
  produced, and those are still decoded.
\<close>
theorem call_id_round_trip:
  "(fromResponsesCallID (toResponsesCallID i) = i) = (\<not> HasPrefix i ''fc_toolu_'' \<and> \<not> HasPrefix i ''fc_call_'')
   \<and> fromResponsesCallID (''fc_'' @ ''toolu_'' @ i) = ''toolu_'' @ i \<and> fromResponsesCallID (''fc_'' @ ''call_'' @ i) = ''call_'' @ i"
  by (auto simp: fromResponsesCallID_def toResponsesCallID_def CutPrefix_def HasPrefix_iff)

section \<open>Where the code falls short\<close>





section \<open>Moderation and scheduling\<close>

text \<open>
  C29.  The keyword matcher of the content moderation service, an Aho-Corasick automaton in arrays, finds what a search for
  one keyword after the other finds: the first keyword of the list whose lower case occurs in the lower case of the text.
  \<open>strings.ToLower\<close> may be any function that maps the empty string, and only it, to the empty string; the keywords
  have to fit the \<open>int32\<close> indices.
\<close>
theorem Match_first_keyword:
  assumes "\<And>s. lower s = [] \<longleftrightarrow> s = []"
    and "length keywords < 2 ^ 31" and "Suc (sum_list (map (\<lambda>k. length (lower k)) keywords)) < 2 ^ 31"
  shows "Match lower (newContentModerationKeywordMatcher lower keywords) input = first_keyword lower keywords input"
  by (rule matcher_correct [OF assms(2,3,1)])


lemma ToLower_empty: "ToLower s = [] \<longleftrightarrow> s = []"
  by (cases s) auto

theorem Match_first_keyword_witness:
  "Match ToLower (newContentModerationKeywordMatcher ToLower [''hers'', '''', ''He'', ''she'']) ''AshES'' = (''He'', True)"
proof -
  have "first_keyword ToLower [''hers'', '''', ''He'', ''she''] ''AshES'' = (''He'', True)" by code_simp
  moreover have "sum_list (map (\<lambda>k. length (ToLower k)) [''hers'', '''', ''He'', ''she'']) = 9" by code_simp
  ultimately show ?thesis
    using Match_first_keyword [OF ToLower_empty, of "[''hers'', '''', ''He'', ''she'']" "''AshES''"] by simp
qed

text \<open>
  C30.  Whatever failures, successes and queries the circuit breaker for proxies sees, in whatever order the map is visited, it
  never holds more entries than \<open>maxEntries\<close>, and at most one per proxy.
\<close>
theorem circuit_bounded:
  assumes "circuit_history s h c"
  shows "int (length (pc_entries c)) \<le> ps_maxEntries (pc_settings c) \<and> distinct (map fst (pc_entries c))"
  using history_well_formed [OF assms] by (simp add: well_formed_def)

abbreviation "small_circuit \<equiv> default_settings\<lparr>ps_maxEntries := 1\<rparr>"

theorem circuit_bounded_witness:
  "let c = fst (recordFailure rev 2 9 (fst (recordFailure rev 1 5 (newOpenAIProxyStreamCircuit small_circuit))))
   in int (length (pc_entries c)) \<le> 1 \<and> map fst (pc_entries c) = [2]"
proof -
  have "circuit_history small_circuit [Failure 1 5, Failure 2 9]
      (fst (recordFailure rev 2 9 (fst (recordFailure rev 1 5 (newOpenAIProxyStreamCircuit small_circuit)))))"
    using circuit_history.failure [OF circuit_history.failure [OF circuit_history.start [of small_circuit], of rev 1 5], of rev 2 9]
    by simp
  from circuit_bounded [OF this] have "int (length (pc_entries (fst (recordFailure rev 2 9
      (fst (recordFailure rev 1 5 (newOpenAIProxyStreamCircuit small_circuit))))))) \<le> 1"
    by (simp add: newOpenAIProxyStreamCircuit_def default_settings_def Minute_def Second_def Let_def)
  moreover have "map fst (pc_entries (fst (recordFailure rev 2 9 (fst (recordFailure rev 1 5 (newOpenAIProxyStreamCircuit small_circuit)))))) = [2]"
    by code_simp
  ultimately show ?thesis by (simp add: Let_def)
qed

text \<open>
  C31.  A quarantine ends: once the last failure of a proxy is \<open>quarantineTTL\<close> ago the proxy is not blocked, whatever
  happened to it and to other proxies before.
\<close>
theorem quarantine_ends:
  assumes "circuit_history s h c" and "\<And>t. Failure p t \<in> set h \<Longrightarrow> t + ps_quarantineTTL (pc_settings c) \<le> now"
  shows "\<not> snd (isBlocked p now c)"
  by (rule not_blocked [OF assms])

abbreviation "tripped_circuit \<equiv> recordFailures id 7 [Minute, Minute + 4 * Second] (newOpenAIProxyStreamCircuit default_settings)"

lemma tripped_circuit_history:
  "circuit_history default_settings [Failure 7 Minute, Failure 7 (Minute + 4 * Second)] tripped_circuit"
  using circuit_history.failure [OF circuit_history.failure [OF circuit_history.start [of default_settings], of id 7 Minute],
      of id 7 "Minute + 4 * Second"]
  by (simp add: recordFailures_def)

theorem quarantine_ends_witness:
  "snd (isBlocked 7 (2 * Minute) tripped_circuit) \<and> \<not> snd (isBlocked 7 (11 * Minute + 4 * Second) tripped_circuit)"
proof
  show "snd (isBlocked 7 (2 * Minute) tripped_circuit)" by code_simp
  show "\<not> snd (isBlocked 7 (11 * Minute + 4 * Second) tripped_circuit)"
  proof (rule quarantine_ends [OF tripped_circuit_history])
    fix t assume "Failure 7 t \<in> set [Failure 7 Minute, Failure 7 (Minute + 4 * Second)]"
    moreover have "ps_quarantineTTL (pc_settings tripped_circuit) = 10 * Minute" by code_simp
    ultimately show "t + ps_quarantineTTL (pc_settings tripped_circuit) \<le> 11 * Minute + 4 * Second"
      by (auto simp: Minute_def Second_def)
  qed
qed

text \<open>
  C32.  The circuit trips only for a reason: when a failure quarantines a proxy, there are \<open>failureThreshold\<close> failures of it, this
  one included, all within \<open>failureWindow\<close> and each at least \<open>collapseInterval\<close> after the one before, so the streams
  that break off together in one incident never trip it.
\<close>
theorem trip_has_reason:
  assumes "circuit_history s h c" and "recordFailure arrange p now c = (c', True, blockedUntil)"
    and "sorted (failure_times p h @ [now])" and "\<And>t. t \<in> set (failure_times p h @ [now]) \<Longrightarrow> 0 < t"
    and "ps_failureWindow (pc_settings c) < 2 ^ 63 - 1" and "ps_collapseInterval (pc_settings c) < 2 ^ 63"
  shows "\<exists>us. subseq us (failure_times p h @ [now]) \<and> ps_failureThreshold (pc_settings c) \<le> int (length us)
    \<and> spaced (ps_collapseInterval (pc_settings c)) us \<and> (\<forall>u \<in> set us. now - ps_failureWindow (pc_settings c) \<le> u \<and> u \<le> now)"
  by (rule trip_justified [OF assms])

abbreviation "failed_once \<equiv> recordFailures id 7 [Minute] (newOpenAIProxyStreamCircuit default_settings)"

theorem trip_has_reason_witness:
  "fst (snd (recordFailure id 7 (Minute + 4 * Second) failed_once))
   \<and> (\<exists>us. subseq us [Minute, Minute + 4 * Second] \<and> 2 \<le> int (length us) \<and> spaced (3 * Second) us)"
proof -
  have r: "fst (snd (recordFailure id 7 (Minute + 4 * Second) failed_once))" by code_simp
  then obtain c' u where eq: "recordFailure id 7 (Minute + 4 * Second) failed_once = (c', True, u)"
    by (metis prod.collapse)
  have h: "circuit_history default_settings [Failure 7 Minute] failed_once"
    using circuit_history.failure [OF circuit_history.start [of default_settings], of id 7 Minute] by (simp add: recordFailures_def)
  have set: "pc_settings failed_once = default_settings" by code_simp
  have pos: "0 < t" if "t \<in> set (failure_times 7 [Failure 7 Minute] @ [Minute + 4 * Second])" for t
    using that by (auto simp: Minute_def Second_def)
  from trip_has_reason [OF h eq _ pos, unfolded set] have "\<exists>us. subseq us [Minute, Minute + 4 * Second] \<and> 2 \<le> int (length us) \<and> spaced (3 * Second) us"
    by (auto simp: default_settings_def Minute_def Second_def)
  with r show ?thesis by blast
qed



section \<open>Requests from Responses to Anthropic\<close>


abbreviation "interleaved_items \<equiv> JArr
  [JObj [(''type'', JStr ''function_call''), (''call_id'', JStr ''call_1''), (''name'', JStr ''f'')],
   JObj [(''role'', JStr ''user''), (''content'', JStr ''hi'')],
   JObj [(''type'', JStr ''function_call_output''), (''call_id'', JStr ''call_1''), (''output'', JStr ''ok'')]]"


declare unquote.simps [simp del]

lemma values_unquoted: "unquote ''function_call'' = ''function_call''" "unquote ''function_call_output'' = ''function_call_output''"
  "unquote ''call_1'' = ''call_1''" "unquote ''f'' = ''f''" "unquote ''user'' = ''user''" "unquote ''ok'' = ''ok''" "unquote ''{'' = ''{''"
  "unquote ''tool_use'' = ''tool_use''" "unquote ''tool_result'' = ''tool_result''"
  by code_simp+








abbreviation "cut_call_items \<equiv> JArr
  [JObj [(''type'', JStr ''function_call''), (''call_id'', JStr ''call_1''), (''name'', JStr ''f''), (''arguments'', JStr ''{'')]]"




text \<open>
  C37.  Signed thinking survives the Responses interface: the block that the response converter wraps into the encrypted content
  of a reasoning item is, when the client sends the item back, again the only block of an assistant message, byte for byte,
  for the models that check signatures.
\<close>
theorem signed_thinking_round_trip:
  assumes "b = thinking_block t sig \<or> b = redacted_block sig" and "sig \<noteq> []" and "valid_utf8 t" and "valid_utf8 sig"
    and "ri_Role item = []" and "ri_Type item = ''reasoning''" and "ri_EncryptedContent item = encodeAnthropicThinking b"
  shows "\<exists>m. item_messages True item = Inr ([], [m]) \<and> am_Role m = ''assistant'' \<and> blocks_of m = [b]"
proof -
  obtain content where "reasoning_message True item = Inr [\<lparr>am_Role = ''assistant'', am_Content = content\<rparr>]"
      "parseContentBlocks content = Some [b]"
    using envelope_message [OF assms(7), of t sig] assms by blast
  with assms(5,6) show ?thesis by (simp add: item_messages_def blocks_of_def blocks_in_def)
qed

theorem signed_thinking_round_trip_witness:
  "\<exists>m. item_messages True (zeroItem\<lparr>ri_Type := ''reasoning'', ri_EncryptedContent := encodeAnthropicThinking (thinking_block ''why'' ''c2ln'')\<rparr>)
       = Inr ([], [m]) \<and> am_Role m = ''assistant'' \<and> blocks_of m = [thinking_block ''why'' ''c2ln'']"
proof -
  have "valid_utf8 ''why''" "valid_utf8 ''c2ln''" by code_simp+
  then show ?thesis
    by (intro signed_thinking_round_trip [of _ "''why''" "''c2ln''"]) (simp_all add: zeroItem_def del: valid_utf8.simps)
qed

text \<open>
  C38.  Whatever schema a tool declares, Anthropic is sent the JSON text of an object schema: an object whose type is \<open>object\<close>, with
  properties, and without \<open>oneOf\<close>, \<open>anyOf\<close> and \<open>allOf\<close> at its root.
\<close>
theorem input_schema_is_object:
  "\<exists>v. normalizeAnthropicInputSchema schema = print_json v \<and> wf_json v \<and> is_object_schema v"
  by (rule normalized_object)

lemma thinking_55_cases:
  assumes "thinking_55 req out = Inr out'"
  obtains choice t effort where "choice_type (aq_ToolChoice out) = Some choice"
    "choice \<in> {''any'', ''tool''} \<longrightarrow> IsHaiku55 (rq_Model req)"
    "IsSonnet55 (rq_Model req) \<longrightarrow> sonnet_sampling req = None" "IsHaiku55 (rq_Model req) \<longrightarrow> haiku_sampling req = None"
    "out' = out\<lparr>aq_Thinking := Some \<lparr>ath_Type = t, ath_BudgetTokens = 0\<rparr>, aq_OutputConfig := Some \<lparr>aoc_Effort = effort\<rparr>\<rparr>"
    "t \<in> {''adaptive'', ''between_tools'', ''disabled''}" "effort \<in> set effortLowMediumHighXHighMax"
  using assms
  by (auto simp: thinking_55_def Let_def effortLowMediumHighXHighMax_def split: option.splits if_split_asm)

lemma default_temperature:
  "sonnet_sampling req = None \<Longrightarrow> rq_Temperature req \<in> {None, Some 1}"
  "haiku_sampling req = None \<Longrightarrow> rq_Temperature req \<in> {None, Some 1}"
  by (auto simp: sonnet_sampling_def haiku_sampling_def split: option.splits if_split_asm)

text \<open>
  C39.  A request for one of the 5.5 models that is converted at all asks for nothing these models reject: no manual thinking
  budget, an effort they know, no forced tool use unless it is Haiku, the default temperature for Sonnet and Haiku.
\<close>
theorem request_55_admissible:
  assumes "ResponsesToAnthropicRequest req = Inr out"
    and "IsOpus55 (rq_Model req) \<or> IsSonnet55 (rq_Model req) \<or> IsHaiku55 (rq_Model req)"
  shows "(\<exists>t effort. aq_Thinking out = Some \<lparr>ath_Type = t, ath_BudgetTokens = 0\<rparr> \<and> t \<in> {''adaptive'', ''between_tools'', ''disabled''}
      \<and> aq_OutputConfig out = Some \<lparr>aoc_Effort = effort\<rparr> \<and> effort \<in> set effortLowMediumHighXHighMax)
    \<and> (choice_type (aq_ToolChoice out) \<in> {Some ''any'', Some ''tool''} \<longrightarrow> IsHaiku55 (rq_Model req))
    \<and> (IsSonnet55 (rq_Model req) \<or> IsHaiku55 (rq_Model req) \<longrightarrow> aq_Temperature out \<in> {None, Some 1})"
proof -
  obtain out0 where o: "thinking_55 req out0 = Inr out" "aq_Temperature out0 = rq_Temperature req"
    using assms by (auto simp: ResponsesToAnthropicRequest_def Let_def split: sum.splits prod.splits)
  show ?thesis
    by (rule thinking_55_cases [OF o(1)]) (use o(2) default_temperature in auto)
qed

abbreviation "haiku_request \<equiv>
  \<lparr>rq_PromptCacheOptions = [], rq_Model = ''claude-haiku-5-5'', rq_Instructions = [], rq_Input = print_json (JStr ''hi''),
    rq_MaxOutputTokens = None, rq_Temperature = Some 1, rq_TopP = None, rq_Stream = False, rq_Tools = [], rq_Include = [],
    rq_Store = None, rq_ParallelToolCalls = None, rq_Reasoning = None, rq_Text = None, rq_ToolChoice = [], rq_ServiceTier = [],
    rq_PromptCacheKey = [], rq_PreviousResponseID = []\<rparr>"

theorem request_55_admissible_witness:
  "\<exists>out. ResponsesToAnthropicRequest haiku_request = Inr out
     \<and> aq_Temperature out = Some 1 \<and> (\<exists>effort. aq_OutputConfig out = Some \<lparr>aoc_Effort = effort\<rparr> \<and> effort \<in> set effortLowMediumHighXHighMax)"
proof -
  have "case ResponsesToAnthropicRequest haiku_request of Inl _ \<Rightarrow> False | Inr out \<Rightarrow> aq_Temperature out = Some 1" by code_simp
  then obtain out where o: "ResponsesToAnthropicRequest haiku_request = Inr out" "aq_Temperature out = Some 1"
    by (auto split: sum.splits)
  have "IsHaiku55 (rq_Model haiku_request)" by code_simp
  with request_55_admissible [OF o(1)] o show ?thesis by blast
qed

section \<open>Requests from Anthropic to Responses and back\<close>

text \<open>
  C40.  No tool call is lost between the two request converters: an Anthropic request that is converted to a Responses request,
  and converted back by the gateway in front of an Anthropic upstream, makes the same calls - the same IDs, the same
  functions, inputs of the same JSON value, in the same order - and every one is answered at once.  The IDs are
  Anthropic's or OpenAI's own, each call has a result in the history, and the model is none that replays signed thinking.
\<close>
theorem tool_calls_come_back:
  assumes "AnthropicToResponses req = Inr out"
    and "\<forall>m\<in>set (aq_Messages req). inputs_valid m"
    and "\<forall>call\<in>set (all_call_sigs (aq_Messages req)).
        (HasPrefix (fst call) ''toolu_'' \<or> HasPrefix (fst call) ''call_'') \<and> fst call \<in> set (all_answers (aq_Messages req))"
    and "\<not> IsOpus55 (aq_Model req)" "\<not> IsSonnet55 (aq_Model req)" "\<not> IsHaiku55 (aq_Model req)"
  shows "\<exists>back. ResponsesToAnthropicRequest out = Inr back \<and> all_call_sigs (aq_Messages back) = all_call_sigs (aq_Messages req)
    \<and> turns_ok (aq_Messages back)"
  by (rule request_round_trip [OF assms])

abbreviation "use_content \<equiv> JArr [JObj [(''type'', JStr ''tool_use''), (''id'', JStr ''call_1''), (''name'', JStr ''f'')]]"

abbreviation "result_content \<equiv> JArr [JObj [(''type'', JStr ''tool_result''), (''tool_use_id'', JStr ''call_1'')]]"

abbreviation "use_message \<equiv> \<lparr>am_Role = ''assistant'', am_Content = print_json use_content\<rparr>"

abbreviation "result_message \<equiv> \<lparr>am_Role = ''user'', am_Content = print_json result_content\<rparr>"

abbreviation "used_block \<equiv> zeroBlock\<lparr>acb_Type := ''tool_use'', acb_ID := ''call_1'', acb_Name := ''f''\<rparr>"

abbreviation "answer_block \<equiv> zeroBlock\<lparr>acb_Type := ''tool_result'', acb_ToolUseID := ''call_1''\<rparr>"

lemma tool_content_parsed:
  "parse_json (print_json use_content) = Some use_content" "parse_json (print_json result_content) = Some result_content"
proof -
  have "body_ok ''type''" "body_ok ''id''" "body_ok ''name''" "body_ok ''tool_use_id''" "body_ok ''tool_use''" "body_ok ''tool_result''"
    "body_ok ''call_1''" "body_ok ''f''"
    by code_simp+
  then have "wf_json use_content" "wf_json result_content" by (simp_all del: body_ok.simps)
  then show "parse_json (print_json use_content) = Some use_content" "parse_json (print_json result_content) = Some result_content"
    by (intro parse_print; simp add: max_depth_def)+
qed

lemma tool_content_decoded:
  "Unmarshal_string (print_json use_content) = None" "Unmarshal_blocks (print_json use_content) = Some (Some [used_block])"
  "Unmarshal_string (print_json result_content) = None" "Unmarshal_blocks (print_json result_content) = Some (Some [answer_block])"
proof -
  have d: "decode_slice AnthropicContentBlock_fields zeroBlock use_content = Some (Some [used_block])"
    "decode_slice AnthropicContentBlock_fields zeroBlock result_content = Some (Some [answer_block])"
    using values_unquoted
    by (simp_all add: decode_slice_def decode_struct_def names_unquoted set_block_field string_into_def)
  show "Unmarshal_string (print_json use_content) = None" "Unmarshal_string (print_json result_content) = None"
    unfolding Unmarshal_string_def tool_content_parsed by simp_all
  show "Unmarshal_blocks (print_json use_content) = Some (Some [used_block])"
    "Unmarshal_blocks (print_json result_content) = Some (Some [answer_block])"
    unfolding Unmarshal_blocks_def Unmarshal_slice_def tool_content_parsed using d by simp_all
qed

lemma tool_message_blocks: "blocks_of use_message = [used_block]" "blocks_of result_message = [answer_block]"
  using tool_content_decoded
  by (simp_all add: blocks_of_def parseContentBlocks_def blocks_in_def del: print_json.simps)

abbreviation "tool_request \<equiv>
  \<lparr>aq_Model = ''gpt-5.4'', aq_MaxTokens = 64, aq_System = [], aq_Messages = [use_message, result_message], aq_Tools = [],
    aq_Stream = False, aq_Temperature = None, aq_TopP = None, aq_StopSeqs = [], aq_Thinking = None, aq_ToolChoice = [],
    aq_Metadata = [], aq_OutputConfig = None\<rparr>"

lemma tool_request_converts: "\<exists>out. AnthropicToResponses tool_request = Inr out"
proof -
  have items: "convertAnthropicToResponsesInput [] [use_message, result_message] = Inr [call_item used_block, result_item answer_block]"
    using tool_content_decoded
    by (simp add: convertAnthropicToResponsesInput_def system_items_def anthropicMsgToResponsesItems_def anthropicAssistantToResponses_def
        anthropicUserToResponses_def assistant_items_def user_items_def Let_def blocks_in_def is_tool_use_def is_tool_result_def
        reasoning_items_def extractAnthropicTextFromBlocks_def block_parts_def convertToolResultOutput_def zeroBlock_def
        del: print_json.simps)
  have "ri_Content (call_item b) = [] \<and> ri_Content (result_item b) = []" for b by (simp add: call_item_def result_item_def)
  then obtain raw where "Marshal_items [call_item used_block, result_item answer_block] = Some raw"
    using items_roundtrip [of "[call_item used_block, result_item answer_block]"] by (auto simp: raw_ok_def)
  moreover have "ValidateGPT61SolReasoningEffort ''gpt-5.4'' ''medium''" by code_simp
  ultimately show ?thesis using items
    by (simp add: AnthropicToResponses_def AnthropicToResponsesWithMinOutputTokens_def anthropicReasoningEffort_def
        mapAnthropicEffortToResponses_def Let_def del: print_json.simps)
qed

theorem tool_calls_come_back_witness:
  "\<exists>out back. AnthropicToResponses tool_request = Inr out \<and> ResponsesToAnthropicRequest out = Inr back
     \<and> all_call_sigs (aq_Messages back) = [(''call_1'', ''f'', Some (JObj []))] \<and> turns_ok (aq_Messages back)"
proof -
  obtain out where out: "AnthropicToResponses tool_request = Inr out" using tool_request_converts by blast
  have "input_value [] = Some (JObj [])" by (simp add: input_value_def braces)
  then have sigs: "all_call_sigs [use_message, result_message] = [(''call_1'', ''f'', Some (JObj []))]"
    using tool_message_blocks
    by (simp add: all_call_sigs_def call_sigs_def call_sig_def is_tool_use_def zeroBlock_def del: print_json.simps)
  have answers: "all_answers [use_message, result_message] = [''call_1'']"
    using tool_message_blocks by (simp add: all_answers_def answers_def is_tool_result_def del: print_json.simps)
  have valid: "\<forall>m\<in>set [use_message, result_message]. inputs_valid m"
    using tool_message_blocks by (simp add: inputs_valid_def zeroBlock_def is_tool_use_def del: print_json.simps)
  have model: "\<not> IsOpus55 ''gpt-5.4''" "\<not> IsSonnet55 ''gpt-5.4''" "\<not> IsHaiku55 ''gpt-5.4''" by code_simp+
  have "\<exists>back. ResponsesToAnthropicRequest out = Inr back
      \<and> all_call_sigs (aq_Messages back) = all_call_sigs (aq_Messages tool_request) \<and> turns_ok (aq_Messages back)"
    by (rule tool_calls_come_back [OF out]) (use valid sigs answers model in \<open>simp_all del: print_json.simps\<close>)
  with out sigs show ?thesis by auto
qed
end
